(* ===== verification/Prelude.thy ===== *)
theory Prelude
  imports Main "HOL-Library.Word" "HOL-Library.Sublist"
begin

text \<open>
  Shared vocabulary of the development: machine types of \<open>internal.h\<close>, the C string and
  stdio routines the client uses (\<open>snprintf\<close>, \<open>strchr\<close>, \<open>sscanf\<close>'s \<open>%Ns\<close>, \<open>fgets\<close>,
  \<open>atoi\<close>, \<open>isspace\<close>), hexadecimal and decimal rendering, and the generic lemmas the
  component theories share. A C string is the list of its characters before the terminating
  NUL; a byte buffer is a list of 8-bit words.
\<close>

unbundle bit_operations_syntax

type_synonym u8 = "8 word"
type_synonym u32 = "32 word"
type_synonym u64 = "64 word"

named_theorems codec_simps \<open>encode/decode equations of the wire and file formats\<close>
named_theorems store_simps \<open>lookup-after-update equations of the stores\<close>

section \<open>Results of C routines that hand out a pointer\<close>

text \<open>
  \<open>Null\<close> is a NULL result, \<open>Ok\<close> a valid object, and \<open>Ub\<close> says that the routine has
  dereferenced NULL or read past a buffer on the way, so nothing is known from there on.
\<close>

datatype 'a mem = Null | Ok 'a | Ub

fun mem_bind :: "'a mem \<Rightarrow> ('a \<Rightarrow> 'b mem) \<Rightarrow> 'b mem" where
  "mem_bind Null f = Null"
| "mem_bind (Ok x) f = f x"
| "mem_bind Ub f = Ub"

lemma mem_bind_Ok_iff [simp]: "mem_bind m f = Ok y \<longleftrightarrow> (\<exists>x. m = Ok x \<and> f x = Ok y)"
  by (cases m) auto

lemma mem_bind_Ub_iff: "mem_bind m f = Ub \<longleftrightarrow> m = Ub \<or> (\<exists>x. m = Ok x \<and> f x = Ub)"
  by (cases m) auto

section \<open>Characters and bytes\<close>

definition byte_of_char :: "char \<Rightarrow> u8" where
  "byte_of_char c = of_char c"

definition char_of_byte :: "u8 \<Rightarrow> char" where
  "char_of_byte w = Char (bit w 0) (bit w 1) (bit w 2) (bit w 3) (bit w 4) (bit w 5) (bit w 6) (bit w 7)"

lemma bit_byte_of_char:
  "bit (byte_of_char (Char b0 b1 b2 b3 b4 b5 b6 b7)) n \<longleftrightarrow>
     n < 8 \<and> [b0, b1, b2, b3, b4, b5, b6, b7] ! n"
  unfolding byte_of_char_def of_char_def char.sel bit_horner_sum_bit_word_iff by auto

lemma char_of_byte_of_char [simp]: "char_of_byte (byte_of_char c) = c"
  by (cases c) (simp add: char_of_byte_def bit_byte_of_char)

lemma byte_of_char_of_byte [simp]: "byte_of_char (char_of_byte w) = w"
proof (rule bit_word_eqI)
  fix n assume "n < LENGTH(8)"
  then have "n \<in> {0, 1, 2, 3, 4, 5, 6, 7}" by auto
  then show "bit (byte_of_char (char_of_byte w)) n = bit w n"
    by (auto simp: char_of_byte_def bit_byte_of_char)
qed

lemma byte_of_char_inject [simp]: "byte_of_char c = byte_of_char d \<longleftrightarrow> c = d"
  using char_of_byte_of_char by metis

lemma byte_of_nul [simp]: "byte_of_char (CHR 0x00) = 0"
  by (simp add: byte_of_char_def)

lemma byte_of_char_0_iff [simp]: "byte_of_char c = 0 \<longleftrightarrow> c = CHR 0x00"
  using byte_of_char_inject byte_of_nul by metis

definition bytes_of :: "string \<Rightarrow> u8 list" where
  "bytes_of s = map byte_of_char s"

definition text_of :: "u8 list \<Rightarrow> string" where
  "text_of bs = map char_of_byte bs"

lemma text_of_bytes_of [simp]: "text_of (bytes_of s) = s"
  by (simp add: text_of_def bytes_of_def o_def)

lemma bytes_of_text_of [simp]: "bytes_of (text_of bs) = bs"
  by (simp add: text_of_def bytes_of_def o_def)

lemma length_bytes_of [simp]: "length (bytes_of s) = length s"
  by (simp add: bytes_of_def)

lemma bytes_of_eq_Nil [simp]: "bytes_of s = [] \<longleftrightarrow> s = []"
  by (simp add: bytes_of_def)

lemma bytes_of_append [simp]: "bytes_of (s @ t) = bytes_of s @ bytes_of t"
  by (simp add: bytes_of_def)

lemma text_of_append [simp]: "text_of (s @ t) = text_of s @ text_of t"
  by (simp add: text_of_def)

lemma bytes_of_inject [simp]: "bytes_of s = bytes_of t \<longleftrightarrow> s = t"
  using text_of_bytes_of by metis

text \<open>A C string occupies its buffer up to the first NUL.\<close>

definition nul_free :: "string \<Rightarrow> bool" where
  "nul_free s \<longleftrightarrow> list_all (\<lambda>c. c \<noteq> CHR 0x00) s"

definition cstr :: "string \<Rightarrow> string" where
  "cstr s = takeWhile (\<lambda>c. c \<noteq> CHR 0x00) s"

lemma cstr_nul_free [simp]: "nul_free s \<Longrightarrow> cstr s = s"
  by (auto simp: nul_free_def cstr_def list_all_iff)

lemma nul_free_cstr [simp]: "nul_free (cstr s)"
  by (auto simp: nul_free_def cstr_def list_all_iff dest: set_takeWhileD)

lemma nul_free_append [simp]: "nul_free (s @ t) \<longleftrightarrow> nul_free s \<and> nul_free t"
  by (simp add: nul_free_def)

lemma nul_free_Cons [simp]: "nul_free (c # s) \<longleftrightarrow> c \<noteq> CHR 0x00 \<and> nul_free s"
  by (simp add: nul_free_def)

lemma nul_free_Nil [simp]: "nul_free []"
  by (simp add: nul_free_def)

section \<open>stdio and string.h as the client uses them\<close>

text \<open>\<open>snprintf(buf, n, ...)\<close> keeps at most \<open>n - 1\<close> characters of the formatted text.\<close>

definition snprintf :: "nat \<Rightarrow> string \<Rightarrow> string" where
  "snprintf n s = take (n - 1) s"

lemma length_snprintf: "0 < n \<Longrightarrow> length (snprintf n s) < n"
  by (simp add: snprintf_def)

lemma snprintf_fits [simp]: "length s < n \<Longrightarrow> snprintf n s = s"
  by (simp add: snprintf_def)

definition NL :: char where "NL = CHR 0x0A"
definition CR :: char where "CR = CHR 0x0D"
definition TAB :: char where "TAB = CHR 0x09"
definition QUOTE :: char where "QUOTE = CHR 0x22"
definition APOS :: char where "APOS = CHR 0x27"

lemmas char_consts = NL_def CR_def TAB_def QUOTE_def APOS_def

text \<open>\<open>isspace\<close> in the C locale.\<close>

definition is_space :: "char \<Rightarrow> bool" where
  "is_space c \<longleftrightarrow> c \<in> {CHR '' '', TAB, NL, CHR 0x0B, CHR 0x0C, CR}"

text \<open>
  \<open>split_at c s\<close> is what \<open>strchr(s, c)\<close> tells: the text before the first \<open>c\<close>, and the
  text after it when there is one.
\<close>

fun split_at :: "char \<Rightarrow> string \<Rightarrow> string \<times> string option" where
  "split_at c [] = ([], None)"
| "split_at c (x # xs) =
     (if x = c then ([], Some xs)
      else (case split_at c xs of (a, r) \<Rightarrow> (x # a, r)))"

lemma split_at_None_iff: "snd (split_at c s) = None \<longleftrightarrow> c \<notin> set s"
  by (induction s) (auto split: prod.splits)

lemma split_at_None: "c \<notin> set s \<Longrightarrow> split_at c s = (s, None)"
  by (induction s) auto

lemma split_at_append [simp]: "c \<notin> set a \<Longrightarrow> split_at c (a @ c # b) = (a, Some b)"
  by (induction a) auto

lemma split_at_Some: "split_at c s = (a, Some b) \<Longrightarrow> s = a @ c # b \<and> c \<notin> set a"
  by (induction s arbitrary: a) (auto split: if_splits prod.splits)

lemma split_at_NoneD: "split_at c s = (a, None) \<Longrightarrow> a = s \<and> c \<notin> set s"
  by (induction s arbitrary: a) (auto split: if_splits prod.splits)

lemma split_at_shorter: "split_at c s = (a, Some b) \<Longrightarrow> length b < length s"
  by (auto dest: split_at_Some)

text \<open>\<open>strstr(s, pat)\<close>: the text after the first occurrence of \<open>pat\<close>.\<close>

fun after_substr :: "string \<Rightarrow> string \<Rightarrow> string option" where
  "after_substr pat [] = (if pat = [] then Some [] else None)"
| "after_substr pat (x # xs) =
     (if prefix pat (x # xs) then Some (drop (length pat) (x # xs))
      else after_substr pat xs)"

text \<open>
  One \<open>%<n>s\<close> conversion of \<open>sscanf\<close>: skip white space, then take at most \<open>n\<close> other
  characters; it fails when there is none.
\<close>

definition scan_word :: "nat \<Rightarrow> string \<Rightarrow> (string \<times> string) option" where
  "scan_word n s =
     (let t = dropWhile is_space s; w = take n (takeWhile (\<lambda>c. \<not> is_space c) t)
      in if w = [] then None else Some (w, drop (length w) t))"

definition word_ok :: "nat \<Rightarrow> string \<Rightarrow> bool" where
  "word_ok n w \<longleftrightarrow> w \<noteq> [] \<and> length w \<le> n \<and> list_all (\<lambda>c. \<not> is_space c) w"

lemma takeWhile_word:
  "list_all P w \<Longrightarrow> \<not> P c \<Longrightarrow> takeWhile P (w @ c # r) = w"
  by (induction w) auto

lemma scan_word_word:
  assumes "word_ok n w" and "is_space c"
  shows "scan_word n (w @ c # r) = Some (w, c # r)"
proof -
  from assms obtain x xs where w: "w = x # xs" and x: "\<not> is_space x"
    by (cases w) (auto simp: word_ok_def)
  have "takeWhile (\<lambda>c. \<not> is_space c) (w @ c # r) = w"
    using assms by (intro takeWhile_word) (auto simp: word_ok_def)
  with w x assms(1) show ?thesis
    by (auto simp: scan_word_def word_ok_def Let_def)
qed

lemma scan_word_space: "is_space c \<Longrightarrow> scan_word n (c # r) = scan_word n r"
  by (simp add: scan_word_def)

text \<open>
  \<open>fgets(buf, n, f)\<close> delivers the text up to and including the next newline, at most
  \<open>n - 1\<close> characters of it. \<open>fgets_all\<close> is the sequence of buffers a loop over the file
  sees, each cut at an embedded NUL as the string routines that follow cut it.
\<close>

definition fgets_len :: "nat \<Rightarrow> string \<Rightarrow> nat" where
  "fgets_len n s =
     min (n - 1) (let k = length (takeWhile (\<lambda>c. c \<noteq> NL) s) in if k < length s then Suc k else k)"

function fgets_all :: "nat \<Rightarrow> string \<Rightarrow> string list" where
  "fgets_all n s =
     (if s = [] \<or> n < 2 then []
      else cstr (take (fgets_len n s) s) # fgets_all n (drop (fgets_len n s) s))"
  by pat_completeness auto
termination
  by (relation "measure (\<lambda>(n, s). length s)")
    (auto simp: fgets_len_def Let_def takeWhile_eq_all_conv neq_Nil_conv)

declare fgets_all.simps [simp del]

lemma fgets_all_Nil [simp]: "fgets_all n [] = []"
  by (simp add: fgets_all.simps)

lemma fgets_all_line:
  assumes "NL \<notin> set l" and "nul_free l" and "Suc (length l) < n"
  shows "fgets_all n (l @ NL # r) = (l @ [NL]) # fgets_all n r"
proof -
  have tw: "takeWhile (\<lambda>c. c \<noteq> NL) (l @ NL # r) = l"
    using assms(1) by (intro takeWhile_word) (auto simp: list_all_iff)
  have len: "fgets_len n (l @ NL # r) = Suc (length l)"
    using assms(3) by (simp add: fgets_len_def tw)
  have "cstr (l @ [NL]) = l @ [NL]"
    using assms(2) by (simp add: char_consts)
  with len assms(3) show ?thesis
    by (simp add: fgets_all.simps [of n "l @ NL # r"])
qed

section \<open>Numbers as text\<close>

definition hex_digit :: "nat \<Rightarrow> char" where
  "hex_digit n = ''0123456789abcdef'' ! n"

text \<open>\<open>%02x\<close> of a byte, and the loop that renders a digest with it.\<close>

definition hex_byte :: "u8 \<Rightarrow> string" where
  "hex_byte b = [hex_digit (unat b div 16), hex_digit (unat b mod 16)]"

definition hex_of :: "u8 list \<Rightarrow> string" where
  "hex_of bs = concat (map hex_byte bs)"

lemma length_hex_of [simp]: "length (hex_of bs) = 2 * length bs"
  by (induction bs) (auto simp: hex_of_def hex_byte_def)

lemma hex_digit_in: "n < 16 \<Longrightarrow> hex_digit n \<in> set ''0123456789abcdef''"
  unfolding hex_digit_def by (rule nth_mem) simp

lemma unat_byte_bound: "unat (b :: u8) < 256"
  using unsigned_less [of b, where 'a = nat] by simp

lemma set_hex_of: "set (hex_of bs) \<subseteq> set ''0123456789abcdef''"
proof -
  have "set (hex_byte b) \<subseteq> set ''0123456789abcdef''" for b
  proof -
    have "unat b div 16 < 16" using unat_byte_bound [of b] by simp
    then have "hex_digit (unat b div 16) \<in> set ''0123456789abcdef''" by (rule hex_digit_in)
    moreover have "hex_digit (unat b mod 16) \<in> set ''0123456789abcdef''" by (rule hex_digit_in) simp
    ultimately show ?thesis by (simp only: hex_byte_def set_simps insert_subset) blast
  qed
  then show ?thesis unfolding hex_of_def by (simp only: set_concat set_map) blast
qed

text \<open>\<open>%ld\<close> and \<open>%d\<close>.\<close>

fun show_nat :: "nat \<Rightarrow> string" where
  "show_nat n =
     (if n < 10 then [''0123456789'' ! n] else show_nat (n div 10) @ [''0123456789'' ! (n mod 10)])"

declare show_nat.simps [simp del]

definition show_int :: "int \<Rightarrow> string" where
  "show_int i = (if i < 0 then CHR ''-'' # show_nat (nat (- i)) else show_nat (nat i))"

definition is_digit :: "char \<Rightarrow> bool" where
  "is_digit c \<longleftrightarrow> c \<in> set ''0123456789''"

definition digit_val :: "char \<Rightarrow> nat" where
  "digit_val c = of_char c - of_char (CHR ''0'')"

definition read_nat :: "string \<Rightarrow> nat" where
  "read_nat s = foldl (\<lambda>a c. 10 * a + digit_val c) 0 (takeWhile is_digit s)"

text \<open>
  \<open>strtol\<close> in base 10, which \<open>atoi\<close> and \<open>atol\<close> are: white space, a sign, digits. The value
  of an empty digit string is 0. The result is cut to the range of \<open>long\<close>.
\<close>

definition LONG_MAX :: int where "LONG_MAX = 2 ^ 63 - 1"
definition LONG_MIN :: int where "LONG_MIN = - (2 ^ 63)"

definition atol :: "string \<Rightarrow> int" where
  "atol s =
     (case dropWhile is_space s of
        [] \<Rightarrow> 0
      | c # cs \<Rightarrow>
          (if c = CHR ''-'' then max LONG_MIN (- int (read_nat cs))
           else if c = CHR ''+'' then min LONG_MAX (int (read_nat cs))
           else min LONG_MAX (int (read_nat (c # cs)))))"

text \<open>\<open>atoi\<close> converts that \<open>long\<close> to a 32-bit \<open>int\<close>.\<close>

definition atoi :: "string \<Rightarrow> int" where
  "atoi s = signed_take_bit 31 (atol s)"

lemma digit_cases: "n < 10 \<Longrightarrow> P 0 \<Longrightarrow> P 1 \<Longrightarrow> P 2 \<Longrightarrow> P 3 \<Longrightarrow> P 4 \<Longrightarrow> P 5 \<Longrightarrow> P 6 \<Longrightarrow> P 7 \<Longrightarrow> P 8 \<Longrightarrow> P 9
  \<Longrightarrow> P (n::nat)"
  by (metis One_nat_def less_Suc_eq not_less0 numeral_nat numeral_2_eq_2 numeral_3_eq_3)

lemma digit_val_digit: "n < 10 \<Longrightarrow> digit_val (''0123456789'' ! n) = n \<and> is_digit (''0123456789'' ! n)"
  by (erule digit_cases) (simp_all add: digit_val_def is_digit_def)

lemma show_nat_ne [simp]: "show_nat n \<noteq> []"
  by (subst show_nat.simps) simp

lemma show_nat_digits: "list_all is_digit (show_nat n)"
proof (induction n rule: show_nat.induct)
  case (1 n)
  then show ?case
    using digit_val_digit [of n] digit_val_digit [of "n mod 10"]
    by (subst show_nat.simps) auto
qed

lemma read_nat_digits:
  "list_all is_digit s \<Longrightarrow> read_nat s = foldl (\<lambda>a c. 10 * a + digit_val c) 0 s"
proof -
  assume "list_all is_digit s"
  then have "takeWhile is_digit s = s" by (simp add: list_all_iff)
  then show ?thesis unfolding read_nat_def by (rule arg_cong)
qed

lemma foldl_show_nat: "foldl (\<lambda>a c. 10 * a + digit_val c) 0 (show_nat n) = n"
proof (induction n rule: show_nat.induct)
  case (1 n)
  then show ?case
    using digit_val_digit [of n] digit_val_digit [of "n mod 10"]
    by (subst show_nat.simps) auto
qed

lemma read_show_nat [simp]: "read_nat (show_nat n) = n"
  by (simp add: read_nat_digits show_nat_digits foldl_show_nat)

lemma is_digit_not_special: "is_digit c \<Longrightarrow> \<not> is_space c \<and> c \<noteq> CHR ''-'' \<and> c \<noteq> CHR ''+''"
  by (auto simp: is_digit_def is_space_def char_consts)

lemma atol_show_nat: "int n \<le> LONG_MAX \<Longrightarrow> atol (show_nat n) = int n"
proof -
  assume n: "int n \<le> LONG_MAX"
  obtain c cs where s: "show_nat n = c # cs" using show_nat_ne [of n] by (cases "show_nat n") auto
  then have "is_digit c" using show_nat_digits [of n] by simp
  with s have "dropWhile is_space (show_nat n) = c # cs" and "c \<noteq> CHR ''-''" and "c \<noteq> CHR ''+''"
    by (auto dest: is_digit_not_special)
  moreover have "read_nat (c # cs) = n" using read_show_nat [of n] s by simp
  ultimately show ?thesis using s n by (simp add: atol_def)
qed

end
