(* ===== verification/Json.thy ===== *)
theory Json
  imports Prelude
begin

text \<open>
  The part of the vendored cJSON that the client's own code touches directly: the value tree
  and the accessors (\<open>cJSON_GetObjectItem\<close>, \<open>cJSON_IsString\<close>, the fields \<open>valuestring\<close>,
  \<open>valueint\<close> and \<open>valuedouble\<close>, the array accessors and the \<open>Add...ToObject\<close> builders).
  Text in and out of the tree (\<open>cJSON_Parse\<close>, \<open>cJSON_PrintUnformatted\<close>) is a parameter, see
  \<open>Ext\<close>. A number is kept by its integral part: the client reads numbers only as \<open>valueint\<close> or
  through a cast of \<open>valuedouble\<close> to a 64-bit integer, and writes integers only.
\<close>

datatype json =
    JNull
  | JBool bool
  | JNum int
  | JStr string
  | JArr "json list"
  | JObj "(string \<times> json) list"

text \<open>\<open>tolower\<close> in the C locale, and the comparison that ignores case.\<close>

definition lower_c :: "char \<Rightarrow> char" where
  "lower_c c = (let n = (of_char c :: nat) in if 65 \<le> n \<and> n \<le> 90 then char_of (n + 32) else c)"

definition same_nocase :: "string \<Rightarrow> string \<Rightarrow> bool" where
  "same_nocase s t \<longleftrightarrow> map lower_c s = map lower_c t"

fun find_member :: "string \<Rightarrow> (string \<times> json) list \<Rightarrow> json option" where
  "find_member k [] = None"
| "find_member k ((n, v) # ms) = (if same_nocase k n then Some v else find_member k ms)"

text \<open>Only the members of an object have a name; the items of an array never match.\<close>

fun get_object_item :: "json \<Rightarrow> string \<Rightarrow> json option" where
  "get_object_item (JObj ms) k = find_member k ms"
| "get_object_item _ k = None"

fun is_string :: "json option \<Rightarrow> bool" where
  "is_string (Some (JStr s)) = True"
| "is_string _ = False"

text \<open>\<open>valuestring\<close> is NULL in every item that is not a string.\<close>

fun valuestring :: "json \<Rightarrow> string option" where
  "valuestring (JStr s) = Some s"
| "valuestring _ = None"

definition INT_MAX :: int where "INT_MAX = 2147483647"
definition INT_MIN :: int where "INT_MIN = - 2147483648"

text \<open>\<open>valueint\<close> saturates; the parser stores 1 for \<open>true\<close>.\<close>

fun valueint :: "json \<Rightarrow> int" where
  "valueint (JNum n) = (if n \<ge> INT_MAX then INT_MAX else if n \<le> INT_MIN then INT_MIN else n)"
| "valueint (JBool True) = 1"
| "valueint _ = 0"

fun valuedouble :: "json \<Rightarrow> int" where
  "valuedouble (JNum n) = n"
| "valuedouble _ = 0"

fun is_array :: "json option \<Rightarrow> bool" where
  "is_array (Some (JArr xs)) = True"
| "is_array _ = False"

fun is_number :: "json option \<Rightarrow> bool" where
  "is_number (Some (JNum n)) = True"
| "is_number _ = False"

text \<open>
  \<open>cJSON_GetObjectItem(j, k)->valuestring\<close> and \<open>->valueint\<close> without a check: a member that is
  not there is a NULL dereference.
\<close>

definition deref_str :: "json \<Rightarrow> string \<Rightarrow> string mem" where
  "deref_str j k =
     (case get_object_item j k of
        None \<Rightarrow> Ub
      | Some v \<Rightarrow> (case valuestring v of None \<Rightarrow> Null | Some s \<Rightarrow> Ok s))"

definition deref_int :: "json \<Rightarrow> string \<Rightarrow> int mem" where
  "deref_int j k = (case get_object_item j k of None \<Rightarrow> Ub | Some v \<Rightarrow> Ok (valueint v))"

text \<open>\<open>strdup\<close>, \<open>strcmp\<close> or \<open>strlen\<close> of a pointer: NULL is dereferenced.\<close>

fun used_str :: "string mem \<Rightarrow> string mem" where
  "used_str Null = Ub"
| "used_str m = m"

text \<open>\<open>cJSON_AddStringToObject\<close> adds nothing when the string is NULL.\<close>

fun add_string :: "json \<Rightarrow> string \<Rightarrow> string option \<Rightarrow> json" where
  "add_string (JObj ms) k (Some v) = JObj (ms @ [(k, JStr v)])"
| "add_string j k _ = j"

fun add_number :: "json \<Rightarrow> string \<Rightarrow> int \<Rightarrow> json" where
  "add_number (JObj ms) k n = JObj (ms @ [(k, JNum n)])"
| "add_number j k n = j"

lemma is_string_iff: "is_string v \<longleftrightarrow> (\<exists>s. v = Some (JStr s))"
  by (cases v rule: is_string.cases) auto

lemma same_nocase_refl [simp]: "same_nocase s s"
  by (simp add: same_nocase_def)

lemma find_member_append:
  "find_member k (ms @ ns) = (case find_member k ms of None \<Rightarrow> find_member k ns | Some v \<Rightarrow> Some v)"
  by (induction ms) (auto split: option.splits)

lemma deref_str_Ok: "get_object_item j k = Some (JStr s) \<Longrightarrow> deref_str j k = Ok s"
  by (simp add: deref_str_def)

lemma deref_str_missing: "get_object_item j k = None \<Longrightarrow> deref_str j k = Ub"
  by (simp add: deref_str_def)

lemma valueint_bounds: "INT_MIN \<le> valueint j \<and> valueint j \<le> INT_MAX"
  by (cases j rule: valueint.cases) (auto simp: INT_MAX_def INT_MIN_def)

end
