(* ===== verification/Ext.thy ===== *)
theory Ext
  imports Json
begin

text \<open>
  What the client calls but the repository does not hold: OpenSSL (base64 blocks, SHA-1, SHA-256,
  scrypt, ChaCha20-Poly1305), liboqs (ML-KEM-768, ML-DSA-65) and cJSON's text conversions. They
  are one parameter of the model, the record \<open>ext\<close>; every definition that reaches one of them
  takes it as its first argument. The laws below state the documented behaviour of these
  functions and appear as named hypotheses of the properties that need them. liboqs draws its
  own randomness, so its calls take a coin.
\<close>

record ext =
  evp_encode_block :: "u8 list \<Rightarrow> string"
  evp_decode_block :: "string \<Rightarrow> u8 list option"
  sha256 :: "u8 list \<Rightarrow> u8 list"
  sha1 :: "u8 list \<Rightarrow> u8 list"
  evp_pbe_scrypt :: "string \<Rightarrow> u8 list \<Rightarrow> u64 \<Rightarrow> u64 \<Rightarrow> u64 \<Rightarrow> u64 \<Rightarrow> u8 list option"
  evp_chacha_seal :: "u8 list \<Rightarrow> u8 list \<Rightarrow> u8 list \<Rightarrow> u8 list \<Rightarrow> (u8 list \<times> u8 list) option"
  evp_chacha_open :: "u8 list \<Rightarrow> u8 list \<Rightarrow> u8 list \<Rightarrow> u8 list \<Rightarrow> u8 list \<Rightarrow> u8 list option"
  oqs_kem_ok :: bool
  kem_pk_length :: nat
  kem_ct_length :: nat
  oqs_kem_keypair :: "nat \<Rightarrow> (u8 list \<times> u8 list) option"
  oqs_kem_encaps :: "nat \<Rightarrow> u8 list \<Rightarrow> (u8 list \<times> u8 list) option"
  oqs_kem_decaps :: "u8 list \<Rightarrow> u8 list \<Rightarrow> u8 list option"
  oqs_sig_ok :: bool
  oqs_sig_keypair :: "nat \<Rightarrow> (u8 list \<times> u8 list) option"
  oqs_sig_sign :: "nat \<Rightarrow> u8 list \<Rightarrow> u8 list \<Rightarrow> u8 list"
  cjson_parse :: "string \<Rightarrow> json option"
  cjson_print :: "json \<Rightarrow> string"
  strftime_utc :: "string \<Rightarrow> int \<Rightarrow> string"
  strftime_local :: "string \<Rightarrow> int \<Rightarrow> string"
  gmtime_ok :: "int \<Rightarrow> bool"
  localtime_ok :: "int \<Rightarrow> bool"

section \<open>Documented behaviour\<close>

definition b64_pad :: "u8 list \<Rightarrow> nat" where
  "b64_pad d = (3 - length d mod 3) mod 3"

definition b64_alphabet :: string where
  "b64_alphabet = ''ABCDEFGHIJKLMNOPQRSTUVWXYZabcdefghijklmnopqrstuvwxyz0123456789+/''"

text \<open>
  \<open>EVP_EncodeBlock\<close> writes four characters of the base64 alphabet for every three bytes and pads
  the last group with \<open>=\<close>; \<open>EVP_DecodeBlock\<close> turns them back into a multiple of three bytes, the
  padding decoded as zero bytes.
\<close>

definition base64_law :: "ext \<Rightarrow> bool" where
  "base64_law E \<longleftrightarrow>
     (\<forall>d. length (evp_encode_block E d) = 4 * ((length d + 2) div 3)
        \<and> (\<exists>body. evp_encode_block E d = body @ replicate (b64_pad d) (CHR ''='')
              \<and> set body \<subseteq> set b64_alphabet)
        \<and> evp_decode_block E (evp_encode_block E d) = Some (d @ replicate (b64_pad d) 0))"

text \<open>
  \<open>EVP_DecodeBlock\<close> trims leading spaces and tabs and refuses a length that is then not a
  multiple of four; a text of spaces and tabs only is therefore the empty block.
\<close>

definition base64_blank_law :: "ext \<Rightarrow> bool" where
  "base64_blank_law E \<longleftrightarrow> (\<forall>s. set s \<subseteq> {CHR '' '', TAB} \<longrightarrow> evp_decode_block E s = Some [])"

text \<open>SHA-256 gives 32 bytes.\<close>

definition sha256_law :: "ext \<Rightarrow> bool" where
  "sha256_law E \<longleftrightarrow> (\<forall>d. length (sha256 E d) = 32)"

text \<open>The AEAD: the ciphertext is as long as the plaintext, the tag has 16 bytes, and opening
  undoes sealing under the same key, nonce and associated data.\<close>

definition aead_law :: "ext \<Rightarrow> bool" where
  "aead_law E \<longleftrightarrow>
     (\<forall>k n a p ct mac. evp_chacha_seal E k n a p = Some (ct, mac) \<longrightarrow>
        length ct = length p \<and> length mac = 16 \<and> evp_chacha_open E k n a ct mac = Some p)"

text \<open>The KEM: a generated pair decapsulates what was encapsulated to it.\<close>

definition kem_law :: "ext \<Rightarrow> bool" where
  "kem_law E \<longleftrightarrow>
     (\<forall>c pk ct ss. oqs_kem_encaps E c pk = Some (ct, ss) \<longrightarrow>
        length ct = kem_ct_length E \<and> length ss = 32) \<and>
     (\<forall>c pk sk. oqs_kem_keypair E c = Some (pk, sk) \<longrightarrow>
        length pk = kem_pk_length E \<and>
        (\<forall>d ct ss. oqs_kem_encaps E d pk = Some (ct, ss) \<longrightarrow> oqs_kem_decaps E ct sk = Some ss))"

text \<open>A key pair that matches.\<close>

definition kem_pair :: "ext \<Rightarrow> u8 list \<Rightarrow> u8 list \<Rightarrow> bool" where
  "kem_pair E pk sk \<longleftrightarrow>
     length pk = kem_pk_length E \<and>
     (\<forall>d ct ss. oqs_kem_encaps E d pk = Some (ct, ss) \<longrightarrow> oqs_kem_decaps E ct sk = Some ss)"

text \<open>
  cJSON prints a C string and reads back what it printed: for values whose strings are C strings and
  whose numbers have at most 15 digits, which are printed in full.
\<close>

fun json_plain :: "json \<Rightarrow> bool" where
  "json_plain (JNum n) \<longleftrightarrow> \<bar>n\<bar> < 10 ^ 15"
| "json_plain (JStr s) \<longleftrightarrow> nul_free s"
| "json_plain (JArr xs) \<longleftrightarrow> list_all json_plain xs"
| "json_plain (JObj ms) \<longleftrightarrow> list_all (\<lambda>(k, v). nul_free k \<and> json_plain v) ms"
| "json_plain _ \<longleftrightarrow> True"

definition json_law :: "ext \<Rightarrow> bool" where
  "json_law E \<longleftrightarrow>
     (\<forall>j. json_plain j \<longrightarrow> nul_free (cjson_print E j) \<and> cjson_parse E (cjson_print E j) = Some j)"

lemma aead_lawD:
  assumes "aead_law E" and "evp_chacha_seal E k n a p = Some (ct, mac)"
  shows "length ct = length p" and "length mac = 16" and "evp_chacha_open E k n a ct mac = Some p"
  using assms unfolding aead_law_def by blast+

lemma kem_lawD:
  assumes "kem_law E" and "oqs_kem_encaps E c pk = Some (ct, ss)"
  shows "length ct = kem_ct_length E" and "length ss = 32"
  using assms unfolding kem_law_def by blast+

lemma kem_law_pair: "kem_law E \<Longrightarrow> oqs_kem_keypair E c = Some (pk, sk) \<Longrightarrow> kem_pair E pk sk"
  unfolding kem_law_def kem_pair_def by blast

lemma kem_pairD:
  "kem_pair E pk sk \<Longrightarrow> oqs_kem_encaps E d pk = Some (ct, ss) \<Longrightarrow> oqs_kem_decaps E ct sk = Some ss"
  unfolding kem_pair_def by blast

end
