(* ===== verification/World.thy ===== *)
theory World
  imports Ext "HOL-Library.AList"
begin

text \<open>
  The state every component works on. \<open>world\<close> is what lies outside the process: the files of
  the machine with what each path can take, \<open>/dev/urandom\<close>, the clock, the randomness liboqs
  draws, the queue of answers the network will give and the requests made so far, and the
  terminal. The ghost field \<open>ub\<close> records that a routine has dereferenced NULL or left a buffer.
  \<open>sys\<close> adds the fields of \<open>struct shyake_ctx\<close> (\<open>lib_internal.h\<close>). Also here: error reporting,
  file I/O and the context's life cycle of \<open>libshyake.c\<close>.
\<close>

section \<open>The outside world\<close>

datatype http_reply =
    No_curl                     \<comment> \<open>\<open>curl_easy_init\<close> fails\<close>
  | Curl_error string           \<comment> \<open>\<open>curl_easy_perform\<close> fails; \<open>curl_easy_strerror\<close> of it\<close>
  | Http int string             \<comment> \<open>status code and body\<close>

record request =
  rq_method :: string
  rq_url :: string
  rq_headers :: "string list"
  rq_body :: "string option"

record world =
  files :: "(string \<times> u8 list) list"   \<comment> \<open>path and content, in directory order\<close>
  dirs :: "string list"
  mkdir_ok :: "string \<Rightarrow> bool"
  disk :: "string \<Rightarrow> nat option"        \<comment> \<open>None: cannot be opened for writing; Some n: takes n bytes\<close>
  entropy :: "u8 list"                  \<comment> \<open>what \<open>/dev/urandom\<close> still gives\<close>
  libc_rand :: "nat \<Rightarrow> u8"
  coins :: nat
  clock :: int
  replies :: "http_reply list"
  requests :: "request list"
  term_out :: "string list"
  term_err :: "string list"
  ub :: bool

record sys = world +
  instance_url :: "string option"
  config_dir :: string
  username :: "string option"
  plain :: bool
  debug :: bool
  no_color :: bool
  passphrase :: string
  new_passphrase :: string
  last_error :: string

text \<open>\<open>printf("%s")\<close> of a possibly NULL string, as glibc prints it.\<close>

fun str_or_null :: "string option \<Rightarrow> string" where
  "str_or_null None = ''(null)''"
| "str_or_null (Some s) = s"

definition mark_ub :: "'a world_scheme \<Rightarrow> 'a world_scheme" where
  "mark_ub w = w\<lparr>ub := True\<rparr>"

definition print_out :: "string \<Rightarrow> 'a world_scheme \<Rightarrow> 'a world_scheme" where
  "print_out t w = w\<lparr>term_out := term_out w @ [t]\<rparr>"

definition print_err :: "string \<Rightarrow> 'a world_scheme \<Rightarrow> 'a world_scheme" where
  "print_err t w = w\<lparr>term_err := term_err w @ [t]\<rparr>"

section \<open>Files\<close>

definition fs_get :: "'a world_scheme \<Rightarrow> string \<Rightarrow> u8 list option" where
  "fs_get w path = map_of (files w) path"

definition fs_put :: "string \<Rightarrow> u8 list \<Rightarrow> 'a world_scheme \<Rightarrow> 'a world_scheme" where
  "fs_put path d w = w\<lparr>files := AList.update path d (files w)\<rparr>"

definition fs_del :: "string \<Rightarrow> 'a world_scheme \<Rightarrow> 'a world_scheme" where
  "fs_del path w = w\<lparr>files := AList.delete path (files w)\<rparr>"

text \<open>
  \<open>fopen(path, "wb")\<close>, the writes, \<open>fclose\<close>: None when the file cannot be opened, otherwise the
  number of bytes that reached it. The old content is gone either way once it is open.
\<close>

definition write_file :: "string \<Rightarrow> u8 list \<Rightarrow> 'a world_scheme \<Rightarrow> nat option \<times> 'a world_scheme" where
  "write_file path d w =
     (case disk w path of
        None \<Rightarrow> (None, w)
      | Some cap \<Rightarrow> (Some (min cap (length d)), fs_put path (take cap d) w))"

text \<open>The path takes a write of \<open>n\<close> bytes in full.\<close>

definition can_store :: "'a world_scheme \<Rightarrow> string \<Rightarrow> nat \<Rightarrow> bool" where
  "can_store w path n \<longleftrightarrow> (\<exists>cap. disk w path = Some cap \<and> n \<le> cap)"

lemma write_file_ok: "can_store w path (length d) \<Longrightarrow> write_file path d w = (Some (length d), fs_put path d w)"
  by (auto simp: can_store_def write_file_def)

text \<open>\<open>save_file\<close> reports a short write.\<close>

definition save_file :: "string \<Rightarrow> u8 list \<Rightarrow> 'a world_scheme \<Rightarrow> int \<times> 'a world_scheme" where
  "save_file path d w =
     (case write_file path d w of
        (None, w') \<Rightarrow> (-1, w')
      | (Some n, w') \<Rightarrow> (if n = length d then 0 else -1, w'))"

definition load_file :: "'a world_scheme \<Rightarrow> string \<Rightarrow> u8 list option" where
  "load_file w path = fs_get w path"

lemma fs_get_put [store_simps]: "fs_get (fs_put p d w) q = (if q = p then Some d else fs_get w q)"
  by (simp add: fs_get_def fs_put_def update_conv)

lemma fs_get_del [store_simps]: "fs_get (fs_del p w) q = (if q = p then None else fs_get w q)"
  by (simp add: fs_get_def fs_del_def delete_conv)

lemma fs_put_frame [simp]:
  "dirs (fs_put p d w) = dirs w" "disk (fs_put p d w) = disk w" "entropy (fs_put p d w) = entropy w"
  "coins (fs_put p d w) = coins w" "clock (fs_put p d w) = clock w" "replies (fs_put p d w) = replies w"
  "requests (fs_put p d w) = requests w" "ub (fs_put p d w) = ub w" "mkdir_ok (fs_put p d w) = mkdir_ok w"
  "libc_rand (fs_put p d w) = libc_rand w"
  by (simp_all add: fs_put_def)

lemma fs_put_frame_sys [simp]:
  fixes w :: "'a sys_scheme"
  shows "config_dir (fs_put p d w) = config_dir w" "username (fs_put p d w) = username w"
    "instance_url (fs_put p d w) = instance_url w" "passphrase (fs_put p d w) = passphrase w"
    "new_passphrase (fs_put p d w) = new_passphrase w" "last_error (fs_put p d w) = last_error w"
  by (simp_all add: fs_put_def)

lemma can_store_put [simp]: "can_store (fs_put p d w) q n = can_store w q n"
  by (simp add: can_store_def)

lemma save_file_ok: "can_store w path (length d) \<Longrightarrow> save_file path d w = (0, fs_put path d w)"
  by (simp add: save_file_def write_file_ok)

lemma save_file_0_iff: "fst (save_file path d w) = 0 \<longleftrightarrow> can_store w path (length d)"
  by (auto simp: save_file_def write_file_def can_store_def split: option.splits)

section \<open>Randomness\<close>

text \<open>\<open>fread\<close> of \<open>n\<close> bytes from \<open>/dev/urandom\<close>.\<close>

definition read_urandom :: "nat \<Rightarrow> 'a world_scheme \<Rightarrow> u8 list option \<times> 'a world_scheme" where
  "read_urandom n w =
     (if n \<le> length (entropy w) then (Some (take n (entropy w)), w\<lparr>entropy := drop n (entropy w)\<rparr>)
      else (None, w))"

definition next_coin :: "'a world_scheme \<Rightarrow> nat \<times> 'a world_scheme" where
  "next_coin w = (coins w, w\<lparr>coins := Suc (coins w)\<rparr>)"

lemma read_urandom_length: "read_urandom n w = (Some r, w') \<Longrightarrow> length r = n"
  by (auto simp: read_urandom_def split: if_splits)

lemma read_urandom_frame:
  "read_urandom n w = (r, w') \<Longrightarrow>
     files w' = files w \<and> disk w' = disk w \<and> requests w' = requests w \<and> replies w' = replies w
     \<and> ub w' = ub w \<and> dirs w' = dirs w \<and> coins w' = coins w \<and> clock w' = clock w"
  by (auto simp: read_urandom_def split: if_splits)

section \<open>Error reporting\<close>

text \<open>\<open>set_error\<close> formats into \<open>last_error[512]\<close>.\<close>

definition set_error :: "string \<Rightarrow> 'a sys_scheme \<Rightarrow> 'a sys_scheme" where
  "set_error msg s = s\<lparr>last_error := snprintf 512 msg\<rparr>"

definition clear_error :: "'a sys_scheme \<Rightarrow> 'a sys_scheme" where
  "clear_error s = s\<lparr>last_error := []\<rparr>"

definition shyake_last_error :: "'a sys_scheme option \<Rightarrow> string" where
  "shyake_last_error c = (case c of None \<Rightarrow> [] | Some s \<Rightarrow> last_error s)"

lemma last_error_bound: "length (last_error (set_error msg s)) < 512"
  by (simp add: set_error_def snprintf_def)

section \<open>Return codes\<close>

datatype shyake_err =
    SHYAKE_OK
  | SHYAKE_ERR
  | SHYAKE_ERR_NETWORK
  | SHYAKE_ERR_HTTP
  | SHYAKE_ERR_KEY_MISMATCH
  | SHYAKE_ERR_GONE
  | SHYAKE_ERR_NOT_FOUND
  | SHYAKE_ERR_FORBIDDEN
  | SHYAKE_ERR_CRYPTO
  | SHYAKE_ERR_NO_INSTANCE
  | SHYAKE_ERR_BLOCKED

section \<open>Context life cycle\<close>

record shyake_config =
  cf_instance_url :: "string option"
  cf_config_dir :: "string option"
  cf_username :: "string option"
  cf_plain :: bool
  cf_debug :: bool
  cf_no_color :: bool

definition shyake_init_ctx :: "shyake_config option \<Rightarrow> world \<Rightarrow> sys option" where
  "shyake_init_ctx cfg w =
     (case cfg of
        None \<Rightarrow> None
      | Some c \<Rightarrow>
          (case cf_config_dir c of
             None \<Rightarrow> None
           | Some dir \<Rightarrow>
               Some (world.extend w
                 (sys.fields (cf_instance_url c) dir (cf_username c) (cf_plain c) (cf_debug c)
                    (cf_no_color c) [] [] []))))"

definition shyake_set_passphrase :: "string option \<Rightarrow> 'a sys_scheme \<Rightarrow> 'a sys_scheme" where
  "shyake_set_passphrase p s = s\<lparr>passphrase := snprintf 512 (case p of None \<Rightarrow> [] | Some t \<Rightarrow> t)\<rparr>"

definition shyake_set_new_passphrase :: "string option \<Rightarrow> 'a sys_scheme \<Rightarrow> 'a sys_scheme" where
  "shyake_set_new_passphrase p s =
     s\<lparr>new_passphrase := snprintf 512 (case p of None \<Rightarrow> [] | Some t \<Rightarrow> t)\<rparr>"

text \<open>Freeing the context wipes both passphrases; the world is what remains.\<close>

definition shyake_free_ctx :: "sys \<Rightarrow> world" where
  "shyake_free_ctx s = world.truncate (s\<lparr>passphrase := [], new_passphrase := []\<rparr>)"

lemma shyake_init_ctx_Some:
  "shyake_init_ctx (Some c) w = Some s \<Longrightarrow>
     world.truncate s = w \<and> cf_config_dir c = Some (config_dir s) \<and> username s = cf_username c \<and>
     instance_url s = cf_instance_url c \<and> passphrase s = [] \<and> new_passphrase s = [] \<and> last_error s = []"
  by (auto simp: shyake_init_ctx_def world.defs sys.defs split: option.splits)

lemma set_error_frame [simp]:
  "files (set_error m s) = files s" "disk (set_error m s) = disk s" "entropy (set_error m s) = entropy s"
  "requests (set_error m s) = requests s" "replies (set_error m s) = replies s" "ub (set_error m s) = ub s"
  "config_dir (set_error m s) = config_dir s" "username (set_error m s) = username s"
  "instance_url (set_error m s) = instance_url s" "passphrase (set_error m s) = passphrase s"
  "dirs (set_error m s) = dirs s" "coins (set_error m s) = coins s" "clock (set_error m s) = clock s"
  "new_passphrase (set_error m s) = new_passphrase s" "fs_get (set_error m s) p = fs_get s p"
  by (simp_all add: set_error_def fs_get_def)

lemma clear_error_frame [simp]:
  "files (clear_error s) = files s" "disk (clear_error s) = disk s" "entropy (clear_error s) = entropy s"
  "requests (clear_error s) = requests s" "replies (clear_error s) = replies s" "ub (clear_error s) = ub s"
  "config_dir (clear_error s) = config_dir s" "username (clear_error s) = username s"
  "instance_url (clear_error s) = instance_url s" "passphrase (clear_error s) = passphrase s"
  "dirs (clear_error s) = dirs s" "coins (clear_error s) = coins s" "clock (clear_error s) = clock s"
  "new_passphrase (clear_error s) = new_passphrase s" "fs_get (clear_error s) p = fs_get s p"
  by (simp_all add: clear_error_def fs_get_def)

end
