(* ===== verification/Codec.thy ===== *)
theory Codec
  imports World
begin

text \<open>
  Byte formats: the interface \<open>framed\<close> of a self-delimiting format and its consequences, the
  little-endian 32-bit integers of \<open>enc_dec.c\<close> and \<open>passphrase.c\<close>, and the base64 wrappers of
  \<open>libshyake.c\<close> around OpenSSL's block functions.
\<close>

unbundle bit_operations_syntax

section \<open>Self-delimiting formats\<close>

text \<open>
  \<open>put\<close> writes a value, \<open>get\<close> reads one back from the front of the input and returns what
  follows. A format with this law can be followed by anything, so fields can be concatenated.
\<close>

locale framed =
  fixes put :: "'a \<Rightarrow> 'b list"
    and get :: "'b list \<Rightarrow> ('a \<times> 'b list) option"
    and valid :: "'a \<Rightarrow> bool"
  assumes get_put: "valid x \<Longrightarrow> get (put x @ r) = Some (x, r)"
begin

lemma put_inject:
  assumes "valid x" and "valid y" and "put x @ r = put y @ q"
  shows "x = y \<and> r = q"
proof -
  have "get (put x @ r) = Some (y, q)" unfolding assms(3) by (rule get_put [OF assms(2)])
  with get_put [OF assms(1), of r] show ?thesis by simp
qed

lemma put_prefix_free:
  assumes "valid x" and "valid y" and "prefix (put x) (put y)"
  shows "x = y"
proof -
  from assms(3) obtain r where "put y = put x @ r" by (auto simp: prefix_def)
  then have "put x @ r = put y @ []" by simp
  with put_inject [OF assms(1,2)] show ?thesis by blast
qed

lemma get_put_end: "valid x \<Longrightarrow> get (put x) = Some (x, [])"
  using get_put [of x "[]"] by simp

lemma get_put_two: "valid x \<Longrightarrow> valid y \<Longrightarrow>
    Option.bind (get (put x @ put y @ r)) (\<lambda>(a, t). Option.bind (get t) (\<lambda>(b, u). Some (a, b, u)))
      = Some (x, y, r)"
  by (simp add: get_put)

end

section \<open>Little-endian 32-bit integers\<close>

definition u32le :: "u32 \<Rightarrow> u8 list" where
  "u32le v = [ucast (v AND 0xff), ucast (drop_bit 8 v AND 0xff), ucast (drop_bit 16 v AND 0xff),
              ucast (drop_bit 24 v AND 0xff)]"

definition u32_of_bytes :: "u8 \<Rightarrow> u8 \<Rightarrow> u8 \<Rightarrow> u8 \<Rightarrow> u32" where
  "u32_of_bytes b0 b1 b2 b3 =
     ucast b0 OR push_bit 8 (ucast b1) OR push_bit 16 (ucast b2) OR push_bit 24 (ucast b3)"

text \<open>\<open>read_u32le\<close> of a file: 0 when fewer than four bytes are left, which are then consumed.\<close>

fun read_u32le :: "u8 list \<Rightarrow> u32 \<times> u8 list" where
  "read_u32le (b0 # b1 # b2 # b3 # r) = (u32_of_bytes b0 b1 b2 b3, r)"
| "read_u32le _ = (0, [])"

text \<open>The same of a buffer at an offset.\<close>

definition u32le_at :: "u8 list \<Rightarrow> nat \<Rightarrow> u32" where
  "u32le_at d i = u32_of_bytes (d ! i) (d ! (i + 1)) (d ! (i + 2)) (d ! (i + 3))"

lemma length_u32le [simp]: "length (u32le v) = 4"
  by (simp add: u32le_def)

lemma u32_of_bytes_u32le:
  "u32_of_bytes (ucast (v AND 0xff)) (ucast (drop_bit 8 v AND 0xff)) (ucast (drop_bit 16 v AND 0xff))
     (ucast (drop_bit 24 v AND 0xff)) = v" (is "?l = _")
proof (rule bit_word_eqI)
  fix n assume n: "n < LENGTH(32)"
  have ff: "w AND 0xff = take_bit 8 w" for w :: u32
    by (simp add: take_bit_eq_mask mask_eq_exp_minus_1)
  consider "n < 8" | "8 \<le> n" "n < 16" | "16 \<le> n" "n < 24" | "24 \<le> n" by linarith
  then show "bit ?l n = bit v n"
    using n unfolding u32_of_bytes_def ff
    by cases (auto simp: bit_or_iff bit_push_bit_iff bit_ucast_iff bit_drop_bit_eq bit_take_bit_iff)
qed

lemma read_u32le_put [codec_simps]: "read_u32le (u32le v @ r) = (v, r)"
  unfolding u32le_def append_Cons append_Nil read_u32le.simps(1) u32_of_bytes_u32le by simp

lemma u32le_at_put [codec_simps]: "length a = i \<Longrightarrow> u32le_at (a @ u32le v @ r) i = v"
  using u32_of_bytes_u32le [of v] by (simp add: u32le_at_def u32le_def nth_append)

interpretation u32le_format: framed u32le "\<lambda>bs. Some (read_u32le bs)" "\<lambda>_. True"
  by unfold_locales (simp add: codec_simps)

section \<open>Base64\<close>

definition base64_encode :: "ext \<Rightarrow> u8 list \<Rightarrow> string" where
  "base64_encode E d = evp_encode_block E d"

text \<open>
  \<open>base64_decode\<close> gives the decoded buffer and \<open>*out_len\<close>. The length is the decoder's count
  less the padding, converted from \<open>int\<close> to \<open>size_t\<close>.
\<close>

definition strip_tail :: "string \<Rightarrow> string" where
  "strip_tail s = rev (dropWhile (\<lambda>c. c = CR \<or> c = NL \<or> c = CHR '' '') (rev s))"

definition url_to_std :: "char \<Rightarrow> char" where
  "url_to_std c = (if c = CHR ''-'' then CHR ''+'' else if c = CHR ''_'' then CHR ''/'' else c)"

definition b64_padding :: "string \<Rightarrow> nat" where
  "b64_padding t =
     (let len = length t
      in if len > 0 \<and> t ! (len - 1) = CHR ''='' then
           (if len > 1 \<and> t ! (len - 2) = CHR ''='' then 2 else 1)
         else if len mod 4 = 2 then 2
         else if len mod 4 = 3 then 1 else 0)"

definition base64_decode :: "ext \<Rightarrow> string \<Rightarrow> (u8 list \<times> u64) option" where
  "base64_decode E b64 =
     (let t = strip_tail b64
      in case evp_decode_block E (map url_to_std t) of
           None \<Rightarrow> None
         | Some d \<Rightarrow> Some (d, word_of_int (int (length d) - int (b64_padding t))))"

text \<open>Reading \<open>*out_len\<close> bytes of the buffer.\<close>

fun read_buf :: "u8 list \<times> u64 \<Rightarrow> u8 list mem" where
  "read_buf (d, n) = (if unat n \<le> length d then Ok (take (unat n) d) else Ub)"

definition base64_bytes :: "ext \<Rightarrow> string \<Rightarrow> u8 list mem" where
  "base64_bytes E b64 = (case base64_decode E b64 of None \<Rightarrow> Null | Some r \<Rightarrow> read_buf r)"

lemma strip_tail_id: "s = [] \<or> last s \<notin> {CR, NL, CHR '' ''} \<Longrightarrow> strip_tail s = s"
  by (cases s rule: rev_cases) (auto simp: strip_tail_def)

lemma map_url_to_std_id: "CHR ''-'' \<notin> set s \<Longrightarrow> CHR ''_'' \<notin> set s \<Longrightarrow> map url_to_std s = s"
  by (induction s) (auto simp: url_to_std_def)

lemma b64_alphabet_clean:
  "c \<in> set b64_alphabet \<Longrightarrow> c \<noteq> CHR ''='' \<and> c \<noteq> CHR ''-'' \<and> c \<noteq> CHR ''_'' \<and> \<not> is_space c"
  by (auto simp: b64_alphabet_def is_space_def char_consts)

lemma base64_encode_shape:
  assumes "base64_law E"
  obtains body where "base64_encode E d = body @ replicate (b64_pad d) (CHR ''='')"
    and "set body \<subseteq> set b64_alphabet"
    and "length body + b64_pad d = 4 * ((length d + 2) div 3)"
proof -
  from assms obtain body where b: "base64_encode E d = body @ replicate (b64_pad d) (CHR ''='')"
      "set body \<subseteq> set b64_alphabet"
    unfolding base64_law_def base64_encode_def by blast
  moreover have "length (base64_encode E d) = 4 * ((length d + 2) div 3)"
    using assms unfolding base64_law_def base64_encode_def by blast
  ultimately show ?thesis using that by simp
qed

lemma base64_encode_clean:
  assumes "base64_law E" and "c \<in> set (base64_encode E d)"
  shows "c \<noteq> CHR ''-'' \<and> c \<noteq> CHR ''_'' \<and> \<not> is_space c \<and> c \<noteq> CHR 0x00"
proof -
  obtain body where b: "base64_encode E d = body @ replicate (b64_pad d) (CHR ''='')"
      "set body \<subseteq> set b64_alphabet"
    using base64_encode_shape [OF assms(1)] by metis
  from assms(2) b have "c \<in> set b64_alphabet \<or> c = CHR ''=''" by auto
  moreover have "CHR 0x00 \<notin> set b64_alphabet" by (simp add: b64_alphabet_def)
  ultimately show ?thesis using b64_alphabet_clean by (auto simp: is_space_def char_consts)
qed

lemma base64_encode_ne [simp]: "base64_law E \<Longrightarrow> base64_encode E d = [] \<longleftrightarrow> d = []"
proof -
  assume "base64_law E"
  then have "length (base64_encode E d) = 4 * ((length d + 2) div 3)"
    by (simp add: base64_law_def base64_encode_def)
  moreover have "(length d + 2) div 3 = 0 \<longleftrightarrow> d = []"
    by (cases d) auto
  moreover have "base64_encode E d = [] \<longleftrightarrow> length (base64_encode E d) = 0" by simp
  ultimately show ?thesis by simp
qed

lemma b64_pad_cases: "b64_pad d = 0 \<or> b64_pad d = 1 \<or> b64_pad d = 2"
proof -
  have "b64_pad d < 3" by (simp add: b64_pad_def)
  then show ?thesis by linarith
qed

lemma b64_padding_encode:
  assumes "set body \<subseteq> set b64_alphabet" and "length body + p = 4 * k" and "p = 0 \<or> p = 1 \<or> p = 2"
  shows "b64_padding (body @ replicate p (CHR ''='')) = p"
proof (cases body rule: rev_cases)
  case Nil
  with assms(2) have "p = 4 * k" by simp
  with assms(3) have "p = 0" by presburger
  with Nil show ?thesis by (simp add: b64_padding_def)
next
  case (snoc xs x)
  with assms(1) b64_alphabet_clean have x: "x \<noteq> CHR ''=''" by auto
  have m: "length (body @ replicate p (CHR ''='')) mod 4 = 0" using assms(2) by simp
  show ?thesis
    using assms(3) x m by (auto simp: b64_padding_def snoc nth_append numeral_2_eq_2 Let_def)
qed

lemma base64_decode_encode:
  assumes "base64_law E"
  shows "base64_decode E (base64_encode E d) =
           Some (d @ replicate (b64_pad d) 0, word_of_int (int (length d)))"
proof -
  obtain body where b: "base64_encode E d = body @ replicate (b64_pad d) (CHR ''='')"
      "set body \<subseteq> set b64_alphabet" "length body + b64_pad d = 4 * ((length d + 2) div 3)"
    using base64_encode_shape [OF assms] by metis
  have clean: "c \<noteq> CHR ''-'' \<and> c \<noteq> CHR ''_'' \<and> \<not> is_space c" if "c \<in> set (base64_encode E d)" for c
    using base64_encode_clean [OF assms that] by simp
  have strip: "strip_tail (base64_encode E d) = base64_encode E d"
    using clean [OF last_in_set] by (intro strip_tail_id) (auto simp: is_space_def)
  have url: "map url_to_std (base64_encode E d) = base64_encode E d"
    using clean by (intro map_url_to_std_id) blast+
  have pad: "b64_padding (base64_encode E d) = b64_pad d"
    unfolding b(1) using b(2,3) b64_pad_cases by (rule b64_padding_encode)
  have "evp_decode_block E (base64_encode E d) = Some (d @ replicate (b64_pad d) 0)"
    using assms by (simp add: base64_law_def base64_encode_def)
  then show ?thesis by (simp add: base64_decode_def strip url pad)
qed

lemma unat_size: "n < 2 ^ 64 \<Longrightarrow> unat (word_of_int (int n) :: u64) = n"
  by (simp add: unsigned_of_nat take_bit_nat_eq_self)

lemma base64_bytes_encode [codec_simps]:
  assumes "base64_law E" and "length d < 2 ^ 31"
  shows "base64_bytes E (base64_encode E d) = Ok d"
proof -
  have "unat (word_of_int (int (length d)) :: u64) = length d"
    using assms(2) by (simp add: unsigned_of_nat take_bit_nat_eq_self)
  then show ?thesis by (simp add: base64_bytes_def base64_decode_encode [OF assms(1)])
qed

end
