(* ===== verification/Provider.thy ===== *)
theory Provider
  imports Codec "HOL-Library.Countable"
begin

text \<open>
  One concrete \<open>ext\<close> for the witnesses: base64 as RFC 4648 has it, and small total stand-ins for
  the hash, the AEAD, the KEM and the signature that satisfy the laws of \<open>Ext\<close>. Nothing is
  proved about the program from this instance; it shows that the hypotheses of the properties can
  hold together, on runs that can be evaluated.
\<close>

unbundle bit_operations_syntax

section \<open>Base64 blocks\<close>

definition b64_char :: "nat \<Rightarrow> char" where
  "b64_char n = b64_alphabet ! n"

fun index_in :: "char \<Rightarrow> string \<Rightarrow> nat \<Rightarrow> nat option" where
  "index_in c [] i = None"
| "index_in c (x # xs) i = (if x = c then Some i else index_in c xs (Suc i))"

definition b64_val :: "char \<Rightarrow> nat option" where
  "b64_val c = (if c = CHR ''='' then Some 0 else index_in c b64_alphabet 0)"

fun b64_enc :: "u8 list \<Rightarrow> string" where
  "b64_enc [] = []"
| "b64_enc [a] = [b64_char (unat a div 4), b64_char (unat a mod 4 * 16), CHR ''='', CHR ''='']"
| "b64_enc [a, b] =
     [b64_char (unat a div 4), b64_char (unat a mod 4 * 16 + unat b div 16),
      b64_char (unat b mod 16 * 4), CHR ''='']"
| "b64_enc (a # b # c # r) =
     [b64_char (unat a div 4), b64_char (unat a mod 4 * 16 + unat b div 16),
      b64_char (unat b mod 16 * 4 + unat c div 64), b64_char (unat c mod 64)] @ b64_enc r"

fun b64_dec :: "string \<Rightarrow> u8 list option" where
  "b64_dec [] = Some []"
| "b64_dec (p # q # r # s # t) =
     (case (b64_val p, b64_val q, b64_val r, b64_val s, b64_dec t) of
        (Some i, Some j, Some k, Some l, Some d) \<Rightarrow>
          Some (of_nat (i * 4 + j div 16) # of_nat (j mod 16 * 16 + k div 4)
                # of_nat (k mod 4 * 64 + l) # d)
      | _ \<Rightarrow> None)"
| "b64_dec _ = None"

text \<open>The block decoder's trimming.\<close>

definition b64_trim :: "string \<Rightarrow> string" where
  "b64_trim s = rev (dropWhile is_space (rev (dropWhile is_space s)))"

definition b64_dec_block :: "string \<Rightarrow> u8 list option" where
  "b64_dec_block s = b64_dec (b64_trim s)"

lemma index_in_nth:
  "distinct xs \<Longrightarrow> n < length xs \<Longrightarrow> index_in (xs ! n) xs i = Some (i + n)"
proof (induction xs arbitrary: n i)
  case (Cons x xs)
  then show ?case by (cases n) auto
qed simp

lemma b64_alphabet_distinct: "distinct b64_alphabet"
  by (simp add: b64_alphabet_def)

lemma length_b64_alphabet: "length b64_alphabet = 64"
  by (simp add: b64_alphabet_def)

lemma b64_char_in: "n < 64 \<Longrightarrow> b64_char n \<in> set b64_alphabet"
  by (simp add: b64_char_def length_b64_alphabet)

lemma b64_val_char [simp]: "n < 64 \<Longrightarrow> b64_val (b64_char n) = Some n"
  using index_in_nth [OF b64_alphabet_distinct, of n 0] b64_char_in [of n] b64_alphabet_clean
  by (auto simp: b64_val_def b64_char_def length_b64_alphabet)

lemma b64_val_eq [simp]: "b64_val (CHR ''='') = Some 0"
  by (simp add: b64_val_def)

lemma byte_parts:
  fixes a :: u8
  shows "unat a div 4 < 64" "unat a div 16 < 16" "unat a div 64 < 4"
  using unat_byte_bound [of a] by (simp_all add: less_mult_imp_div_less)

lemma sextet_bounds [simp]:
  fixes a b c :: u8
  shows "unat a div 4 < 64" "unat a mod 4 * 16 + unat b div 16 < 64" "unat a mod 4 * 16 < 64"
    "unat b mod 16 * 4 + unat c div 64 < 64" "unat b mod 16 * 4 < 64"
proof -
  have "unat a mod 4 < 4" "unat b mod 16 < 16" by simp_all
  then show "unat a mod 4 * 16 + unat b div 16 < 64" "unat a mod 4 * 16 < 64"
    "unat b mod 16 * 4 + unat c div 64 < 64" "unat b mod 16 * 4 < 64"
    using byte_parts(2) [of b] byte_parts(3) [of c] by linarith+
qed (rule byte_parts)

lemma join_split:
  fixes t :: nat
  assumes "t < k"
  shows "(m * k + t) div k = m" "(m * k + t) mod k = t"
  using assms by simp_all

lemma of_nat_byte: "unat (a :: u8) = n \<Longrightarrow> of_nat n = a"
  by auto

lemma b64_group:
  fixes a b c :: u8
  shows "of_nat (unat a div 4 * 4 + (unat a mod 4 * 16 + unat b div 16) div 16) = a"
    and "of_nat ((unat a mod 4 * 16 + unat b div 16) mod 16 * 16 + (unat b mod 16 * 4 + unat c div 64) div 4) = b"
    and "of_nat ((unat b mod 16 * 4 + unat c div 64) mod 4 * 64 + unat c mod 64) = c"
    and "of_nat (unat a div 4 * 4 + (unat a mod 4 * 16) div 16) = a"
    and "of_nat ((unat a mod 4 * 16 + unat b div 16) mod 16 * 16 + (unat b mod 16 * 4) div 4) = b"
  unfolding join_split [OF byte_parts(2)] join_split [OF byte_parts(3)]
  by (rule of_nat_byte, simp)+

lemma b64_dec_enc: "b64_dec (b64_enc d) = Some (d @ replicate (b64_pad d) 0)"
proof (induction d rule: b64_enc.induct)
  case (4 a b c r)
  have "b64_pad (a # b # c # r) = b64_pad r" by (simp add: b64_pad_def)
  moreover have "unat c mod 64 < 64" by simp
  ultimately show ?case
    by (simp only: b64_enc.simps append.simps b64_dec.simps b64_val_char sextet_bounds 4 option.case
          prod.case b64_group)
next
  case (2 a)
  have "b64_pad [a] = 2" by (simp add: b64_pad_def)
  then show ?case
    by (simp only: b64_enc.simps b64_dec.simps b64_val_char b64_val_eq sextet_bounds option.case prod.case b64_group)
      (simp add: numeral_2_eq_2)
next
  case (3 a b)
  have "b64_pad [a, b] = 1" by (simp add: b64_pad_def)
  then show ?case
    by (simp only: b64_enc.simps b64_dec.simps b64_val_char b64_val_eq sextet_bounds option.case prod.case b64_group)
      simp
qed (simp add: b64_pad_def)

lemma b64_enc_shape:
  "\<exists>body. b64_enc d = body @ replicate (b64_pad d) (CHR ''='') \<and> set body \<subseteq> set b64_alphabet"
proof (induction d rule: b64_enc.induct)
  case (2 a)
  have "b64_enc [a] = [b64_char (unat a div 4), b64_char (unat a mod 4 * 16)] @ replicate (b64_pad [a]) (CHR ''='')"
    by (simp add: b64_pad_def numeral_2_eq_2)
  then show ?case by (intro exI conjI) (assumption, simp add: b64_char_in)
next
  case (3 a b)
  have "b64_enc [a, b] = [b64_char (unat a div 4), b64_char (unat a mod 4 * 16 + unat b div 16),
      b64_char (unat b mod 16 * 4)] @ replicate (b64_pad [a, b]) (CHR ''='')"
    by (simp add: b64_pad_def)
  then show ?case by (intro exI conjI) (assumption, simp add: b64_char_in)
next
  case (4 a b c r)
  then obtain body where b: "b64_enc r = body @ replicate (b64_pad r) (CHR ''='')"
      "set body \<subseteq> set b64_alphabet" by blast
  have "b64_pad (a # b # c # r) = b64_pad r" by (simp add: b64_pad_def)
  with b have "b64_enc (a # b # c # r) =
      ([b64_char (unat a div 4), b64_char (unat a mod 4 * 16 + unat b div 16),
        b64_char (unat b mod 16 * 4 + unat c div 64), b64_char (unat c mod 64)] @ body)
       @ replicate (b64_pad (a # b # c # r)) (CHR ''='')" by simp
  then show ?case by (intro exI conjI) (assumption, use b(2) in \<open>simp add: b64_char_in\<close>)
qed (simp add: b64_pad_def)

lemma length_b64_enc: "length (b64_enc d) = 4 * ((length d + 2) div 3)"
proof (induction d rule: b64_enc.induct)
  case (4 a b c r)
  have "(length (a # b # c # r) + 2) div 3 = Suc ((length r + 2) div 3)" by simp
  with 4 show ?case by simp
qed auto

lemma b64_trim_clean: "list_all (\<lambda>c. \<not> is_space c) s \<Longrightarrow> b64_trim s = s"
proof -
  have d: "list_all (\<lambda>c. \<not> is_space c) t \<Longrightarrow> dropWhile is_space t = t" for t
    by (cases t) auto
  assume "list_all (\<lambda>c. \<not> is_space c) s"
  then show ?thesis by (simp add: b64_trim_def d list_all_iff)
qed

lemma b64_enc_no_space: "list_all (\<lambda>c. \<not> is_space c) (b64_enc d)"
proof -
  obtain body where "b64_enc d = body @ replicate (b64_pad d) (CHR ''='')" "set body \<subseteq> set b64_alphabet"
    using b64_enc_shape by blast
  moreover have "\<not> is_space (CHR ''='')" by (simp add: is_space_def char_consts)
  ultimately show ?thesis using b64_alphabet_clean by (auto simp: list_all_iff)
qed

section \<open>The instance\<close>

definition pad_to :: "nat \<Rightarrow> u8 list \<Rightarrow> u8 list" where
  "pad_to n d = take n (d @ replicate n 0)"

lemma length_pad_to [simp]: "length (pad_to n d) = n"
  by (simp add: pad_to_def)

definition toy :: ext where
  "toy = \<lparr>
     evp_encode_block = b64_enc,
     evp_decode_block = b64_dec_block,
     sha256 = pad_to 32,
     sha1 = (\<lambda>_. replicate 20 0),
     evp_pbe_scrypt = (\<lambda>pp salt N r p m. Some (pad_to 32 (bytes_of pp))),
     evp_chacha_seal = (\<lambda>k n a p. Some (p, pad_to 16 k)),
     evp_chacha_open = (\<lambda>k n a c mac. if mac = pad_to 16 k then Some c else None),
     oqs_kem_ok = True,
     kem_pk_length = 2,
     kem_ct_length = 1,
     oqs_kem_keypair = (\<lambda>c. Some ([of_nat c, 7], [of_nat c, 8])),
     oqs_kem_encaps = (\<lambda>d pk. Some ([of_nat d], replicate 32 (of_nat d + pk ! 0))),
     oqs_kem_decaps = (\<lambda>ct sk. Some (replicate 32 (ct ! 0 + sk ! 0))),
     oqs_sig_ok = True,
     oqs_sig_keypair = (\<lambda>c. Some ([of_nat c, 9], [of_nat c, 10])),
     oqs_sig_sign = (\<lambda>c m sk. [1, 2, 3]),
     cjson_parse = (\<lambda>_. None),
     cjson_print = (\<lambda>_. ''{}''),
     strftime_utc = (\<lambda>f t. show_int t),
     strftime_local = (\<lambda>f t. show_int t),
     gmtime_ok = (\<lambda>t. True),
     localtime_ok = (\<lambda>t. True)\<rparr>"

lemma toy_base64_law: "base64_law (toy\<lparr>cjson_parse := P, cjson_print := Q\<rparr>)"
  unfolding base64_law_def
  using b64_enc_shape length_b64_enc b64_dec_enc b64_trim_clean [OF b64_enc_no_space]
  by (simp add: toy_def b64_dec_block_def)

lemma toy_blank_law: "base64_blank_law toy"
proof -
  have "b64_trim s = []" if "set s \<subseteq> {CHR '' '', TAB}" for s
  proof -
    have d: "dropWhile is_space s = []" using that by (auto simp: is_space_def)
    show ?thesis unfolding b64_trim_def d by simp
  qed
  then show ?thesis by (simp add: base64_blank_law_def toy_def b64_dec_block_def)
qed

lemma toy_sha256_law: "sha256_law (toy\<lparr>cjson_parse := P, cjson_print := Q\<rparr>)"
  by (simp add: sha256_law_def toy_def)

lemma toy_aead_law: "aead_law (toy\<lparr>cjson_parse := P, cjson_print := Q\<rparr>)"
  by (simp add: aead_law_def toy_def)

lemma toy_kem_law: "kem_law (toy\<lparr>cjson_parse := P, cjson_print := Q\<rparr>)"
  by (auto simp: kem_law_def toy_def add.commute)

lemmas toy_laws = toy_base64_law toy_blank_law toy_sha256_law toy_aead_law toy_kem_law

lemma toy_laws0: "base64_law toy" "sha256_law toy" "aead_law toy" "kem_law toy"
  using toy_base64_law [of "cjson_print toy" "cjson_parse toy"]
    toy_sha256_law [of "cjson_print toy" "cjson_parse toy"]
    toy_aead_law [of "cjson_print toy" "cjson_parse toy"]
    toy_kem_law [of "cjson_print toy" "cjson_parse toy"]
  by simp_all

lemma toy_simps:
  "evp_pbe_scrypt toy pp salt N r p m = Some (pad_to 32 (bytes_of pp))"
  "evp_chacha_seal toy k n a d = Some (d, pad_to 16 k)"
  "evp_chacha_open toy k n a d mac = (if mac = pad_to 16 k then Some d else None)"
  "oqs_kem_ok toy" "kem_pk_length toy = 2" "kem_ct_length toy = 1" "oqs_sig_ok toy"
  "oqs_kem_keypair toy c = Some ([of_nat c, 7], [of_nat c, 8])"
  "oqs_sig_keypair toy c = Some ([of_nat c, 9], [of_nat c, 10])"
  "oqs_kem_encaps toy c pk = Some ([of_nat c], replicate 32 (of_nat c + pk ! 0))"
  "oqs_kem_decaps toy ct sk = Some (replicate 32 (ct ! 0 + sk ! 0))"
  "oqs_sig_sign toy c d sk = [1, 2, 3]" "sha1 toy d = replicate 20 0"
  "strftime_utc toy f t = show_int t" "strftime_local toy f t = show_int t"
  "sha256 toy d = pad_to 32 d" "evp_encode_block toy d = b64_enc d"
  by (simp_all add: toy_def)

text \<open>A machine with an empty disk that takes everything, and a context on it.\<close>

definition world0 :: world where
  "world0 = \<lparr>files = [], dirs = [], mkdir_ok = (\<lambda>_. True), disk = (\<lambda>_. Some 1000), entropy = replicate 200 5,
     libc_rand = (\<lambda>_. 0), coins = 0, clock = 1700000000, replies = [], requests = [], term_out = [],
     term_err = [], ub = False\<rparr>"

definition sys0 :: sys where
  "sys0 = world.extend world0 (sys.fields (Some ''http://h'') ''/c'' (Some ''ann'') False False False [] [] [])"

lemma sys0_sel [simp]:
  "files sys0 = []" "disk sys0 = (\<lambda>_. Some 1000)" "entropy sys0 = replicate 200 5" "coins sys0 = 0"
  "replies sys0 = []" "requests sys0 = []" "ub sys0 = False" "config_dir sys0 = ''/c''"
  "username sys0 = Some ''ann''" "instance_url sys0 = Some ''http://h''" "passphrase sys0 = []"
  "clock sys0 = 1700000000" "dirs sys0 = []" "last_error sys0 = []" "new_passphrase sys0 = []"
  "debug sys0 = False" "mkdir_ok sys0 = (\<lambda>_. True)" "term_out sys0 = []" "term_err sys0 = []" "libc_rand sys0 = (\<lambda>_. 0)"
  by (simp_all add: sys0_def world0_def world.defs sys.defs)

text \<open>The provider with one reply document, and the two keys \<open>AAAA\<close> and \<open>AAAB\<close>.\<close>

definition toy_reply :: "json \<Rightarrow> ext" where
  "toy_reply j = toy\<lparr>cjson_parse := (\<lambda>_. Some j)\<rparr>"

lemma toy_reply_laws:
  "base64_law (toy_reply j)" "sha256_law (toy_reply j)" "aead_law (toy_reply j)" "kem_law (toy_reply j)"
  "cjson_parse (toy_reply j) t = Some j"
  using toy_base64_law [of "cjson_print toy" "\<lambda>_. Some j"] toy_sha256_law [of "cjson_print toy" "\<lambda>_. Some j"]
    toy_aead_law [of "cjson_print toy" "\<lambda>_. Some j"] toy_kem_law [of "cjson_print toy" "\<lambda>_. Some j"]
  by (simp_all add: toy_reply_def)

lemma toy_reply_keys:
  "base64_bytes (toy_reply j) ''AAAA'' = Ok [0, 0, 0]" "base64_bytes (toy_reply j) ''AAAB'' = Ok [0, 0, 1]"
  using base64_bytes_encode [OF toy_reply_laws(1) [of j], of "[0, 0, 0]"]
    base64_bytes_encode [OF toy_reply_laws(1) [of j], of "[0, 0, 1]"]
  by (simp_all add: base64_encode_def toy_reply_def toy_simps b64_char_def b64_alphabet_def)

text \<open>
  The provider with a text form for every JSON value: the number of the value in an enumeration of
  the datatype.
\<close>

instance json :: countable
  by countable_datatype

definition toy_json :: ext where
  "toy_json = toy\<lparr>cjson_parse := (\<lambda>s. Some (from_nat (read_nat s))), cjson_print := (\<lambda>j. show_nat (to_nat j))\<rparr>"

lemma show_nat_nul_free: "nul_free (show_nat n)"
proof -
  have "\<not> is_digit (CHR 0x00)" by (simp add: is_digit_def)
  then show ?thesis using show_nat_digits [of n] unfolding nul_free_def list_all_iff by metis
qed

lemma toy_json_laws:
  "base64_law toy_json" "sha256_law toy_json" "aead_law toy_json" "kem_law toy_json" "json_law toy_json"
  unfolding toy_json_def
  by (rule toy_base64_law toy_sha256_law toy_aead_law toy_kem_law)+
    (simp add: json_law_def show_nat_nul_free)

lemma toy_json_simps:
  "oqs_kem_ok toy_json" "kem_pk_length toy_json = 2" "kem_ct_length toy_json = 1" "oqs_sig_ok toy_json"
  "evp_chacha_seal toy_json k n a d = Some (d, pad_to 16 k)"
  "oqs_kem_encaps toy_json c pk = Some ([of_nat c], replicate 32 (of_nat c + pk ! 0))"
  "oqs_kem_keypair toy_json c = Some ([of_nat c, 7], [of_nat c, 8])"
  by (simp_all add: toy_json_def toy_simps)

end
