(* ===== verification/Passphrase.thy ===== *)
theory Passphrase
  imports Provider
begin

text \<open>
  \<open>shyake_crypto.c\<close> (the ChaCha20-Poly1305 wrappers over OpenSSL's EVP calls) and
  \<open>passphrase.c\<close>: the encrypted secret-key file, its key derivation, \<open>save_sk_encrypted\<close> and
  \<open>load_sk_decrypted\<close>. Proved: what was saved under a passphrase is loaded under it, the load
  fails with the documented reasons otherwise, a failed save leaves the old key in place, and the
  scrypt memory limit covers the working set whenever its 64-bit computation does not wrap.
\<close>

section \<open>Authenticated encryption\<close>

text \<open>A NULL or empty associated-data argument is skipped alike.\<close>

fun aad_bytes :: "u8 list option \<Rightarrow> u8 list" where
  "aad_bytes None = []"
| "aad_bytes (Some a) = a"

definition chacha20_poly1305_encrypt ::
  "ext \<Rightarrow> u8 list \<Rightarrow> u8 list \<Rightarrow> u8 list \<Rightarrow> u8 list option \<Rightarrow> (u8 list \<times> u8 list) option" where
  "chacha20_poly1305_encrypt E key nonce pt aad = evp_chacha_seal E key nonce (aad_bytes aad) pt"

definition chacha20_poly1305_decrypt ::
  "ext \<Rightarrow> u8 list \<Rightarrow> u8 list \<Rightarrow> u8 list \<Rightarrow> u8 list option \<Rightarrow> u8 list \<Rightarrow> u8 list option" where
  "chacha20_poly1305_decrypt E key nonce ct aad mac =
     evp_chacha_open E key nonce (aad_bytes aad) ct mac"

lemma chacha_roundtrip:
  assumes "aead_law E" and "chacha20_poly1305_encrypt E k n p a = Some (ct, mac)"
  shows "chacha20_poly1305_decrypt E k n ct a mac = Some p"
    and "length ct = length p" and "length mac = 16"
  using aead_lawD [OF assms(1)] assms(2)
  unfolding chacha20_poly1305_encrypt_def chacha20_poly1305_decrypt_def by blast+

section \<open>Key derivation\<close>

definition HEADER_LEN :: nat where "HEADER_LEN = 62"
definition POLY1305_MAC_SIZE :: nat where "POLY1305_MAC_SIZE = 16"

definition SK_MAGIC :: "u8 list" where
  "SK_MAGIC = bytes_of ''SHYK''"

text \<open>The scrypt memory limit, computed in 64-bit arithmetic that wraps.\<close>

definition scrypt_maxmem :: "u32 \<Rightarrow> u32 \<Rightarrow> u64" where
  "scrypt_maxmem N r =
     (let m = (128 * ucast N * ucast r * 3) div 2
      in if m < 64 * 1024 * 1024 then 64 * 1024 * 1024 else m)"

definition derive_key :: "ext \<Rightarrow> string \<Rightarrow> u8 list \<Rightarrow> u32 \<Rightarrow> u32 \<Rightarrow> u32 \<Rightarrow> u8 list option" where
  "derive_key E pp salt N r p =
     evp_pbe_scrypt E pp salt (ucast N) (ucast r) (ucast p) (scrypt_maxmem N r)"

section \<open>The secret-key file\<close>

text \<open>
  The header: magic, version 1, KDF 1 (scrypt), 32 bytes of salt, the scrypt parameters as
  little-endian 32-bit integers at 38, 42 and 46, and the 12-byte nonce at 50.
\<close>

definition sk_header :: "u8 list \<Rightarrow> u8 list \<Rightarrow> u32 \<Rightarrow> u32 \<Rightarrow> u32 \<Rightarrow> u8 list" where
  "sk_header salt nonce N r p = SK_MAGIC @ [1, 1] @ salt @ u32le N @ u32le r @ u32le p @ nonce"

definition save_sk_encrypted ::
  "ext \<Rightarrow> string \<Rightarrow> string \<Rightarrow> u8 list \<Rightarrow> 'a world_scheme \<Rightarrow> int \<times> 'a world_scheme" where
  "save_sk_encrypted E path pp sk w =
     (if pp = [] then save_file path sk w
      else case read_urandom 32 w of
        (None, w) \<Rightarrow> (-1, w)
      | (Some salt, w) \<Rightarrow>
          (case read_urandom 12 w of
             (None, w) \<Rightarrow> (-1, w)
           | (Some nonce, w) \<Rightarrow>
               (let header = sk_header salt nonce 65536 8 1
                in case derive_key E pp salt 65536 8 1 of
                     None \<Rightarrow> (-1, w)
                   | Some derived \<Rightarrow>
                       (case chacha20_poly1305_encrypt E derived nonce sk (Some header) of
                          None \<Rightarrow> (-1, w)
                        | Some (ct, mac) \<Rightarrow>
                            (case write_file path (header @ ct @ mac) w of
                               (None, w) \<Rightarrow> (-1, w)
                             | (Some _, w) \<Rightarrow> (0, w))))))"

definition load_sk_decrypted ::
  "ext \<Rightarrow> string \<Rightarrow> 'a sys_scheme \<Rightarrow> u8 list option \<times> 'a sys_scheme" where
  "load_sk_decrypted E path s =
     (case load_file s path of
        None \<Rightarrow> (None, set_error (''Cannot read '' @ path @ ''.'') s)
      | Some data \<Rightarrow>
          if length data < 4 \<or> take 4 data \<noteq> SK_MAGIC then (Some data, s)
          else if passphrase s = [] then (None, set_error ''The key needs a passphrase.'' s)
          else if length data < HEADER_LEN + POLY1305_MAC_SIZE then
            (None, set_error ''The key file is corrupt.'' s)
          else if data ! 4 \<noteq> 1 \<or> data ! 5 \<noteq> 1 then
            (None, set_error ''The key file format is not supported.'' s)
          else
            let N = u32le_at data 38; r = u32le_at data 42; p = u32le_at data 46;
                ct_len = length data - HEADER_LEN - POLY1305_MAC_SIZE;
                ct = take ct_len (drop HEADER_LEN data);
                mac = take POLY1305_MAC_SIZE (drop (HEADER_LEN + ct_len) data)
            in case derive_key E (passphrase s) (take 32 (drop 6 data)) N r p of
                 None \<Rightarrow> (None, s)
               | Some derived \<Rightarrow>
                   (case chacha20_poly1305_decrypt E derived (take 12 (drop 50 data)) ct
                           (Some (take HEADER_LEN data)) mac of
                      None \<Rightarrow> (None, set_error ''The passphrase is wrong.'' s)
                    | Some sk \<Rightarrow> (Some sk, s)))"

text \<open>What a stored key is under a passphrase, without the error text.\<close>

definition sk_of_file :: "ext \<Rightarrow> string \<Rightarrow> u8 list \<Rightarrow> u8 list option" where
  "sk_of_file E pp data =
     (if length data < 4 \<or> take 4 data \<noteq> SK_MAGIC then Some data
      else if pp = [] \<or> length data < 78 \<or> data ! 4 \<noteq> 1 \<or> data ! 5 \<noteq> 1 then None
      else Option.bind
        (derive_key E pp (take 32 (drop 6 data)) (u32le_at data 38) (u32le_at data 42) (u32le_at data 46))
        (\<lambda>k. chacha20_poly1305_decrypt E k (take 12 (drop 50 data))
               (take (length data - 78) (drop 62 data)) (Some (take 62 data))
               (take 16 (drop (62 + (length data - 78)) data))))"

lemma load_sk_value:
  "fst (load_sk_decrypted E path s) = Option.bind (load_file s path) (sk_of_file E (passphrase s))"
  by (simp add: load_sk_decrypted_def sk_of_file_def HEADER_LEN_def POLY1305_MAC_SIZE_def Let_def
        split: option.splits)

lemma load_sk_frame:
  assumes "load_sk_decrypted E path s = (r, s')"
  shows "\<exists>m. s' = s\<lparr>last_error := m\<rparr>"
proof -
  have "\<exists>m. s = s\<lparr>last_error := m\<rparr>" by (rule exI [of _ "last_error s"]) simp
  with assms show ?thesis
    by (auto simp: load_sk_decrypted_def Let_def set_error_def split: option.splits if_splits)
qed

lemma load_sk_ok_frame: "load_sk_decrypted E path s = (Some k, s') \<Longrightarrow> s' = s"
  by (auto simp: load_sk_decrypted_def Let_def split: option.splits if_splits)

section \<open>Properties\<close>

lemma length_SK_MAGIC [simp]: "length SK_MAGIC = 4"
  by (simp add: SK_MAGIC_def)

lemma length_sk_header: "length salt = 32 \<Longrightarrow> length nonce = 12 \<Longrightarrow> length (sk_header salt nonce N r p) = 62"
  by (simp add: sk_header_def)

lemma sk_header_fields:
  fixes N r p :: u32
  assumes "length salt = 32" and "length nonce = 12"
  defines "h \<equiv> sk_header salt nonce N r p"
  shows "take 4 (h @ t) = SK_MAGIC" "(h @ t) ! 4 = 1" "(h @ t) ! 5 = 1"
    "take 32 (drop 6 (h @ t)) = salt" "take 12 (drop 50 (h @ t)) = nonce"
    "u32le_at (h @ t) 38 = N" "u32le_at (h @ t) 42 = r" "u32le_at (h @ t) 46 = p"
proof -
  let ?a = "SK_MAGIC @ [1, 1] @ salt"
  have a: "length ?a = 38" using assms(1) by simp
  have h: "h @ t = ?a @ u32le N @ (u32le r @ u32le p @ nonce @ t)"
    by (simp add: h_def sk_header_def)
  show "u32le_at (h @ t) 38 = N" unfolding h using a by (rule u32le_at_put)
  have "h @ t = (?a @ u32le N) @ u32le r @ (u32le p @ nonce @ t)"
    by (simp add: h_def sk_header_def)
  then show "u32le_at (h @ t) 42 = r" using a by (simp only: u32le_at_put length_append length_u32le)
  have "h @ t = (?a @ u32le N @ u32le r) @ u32le p @ (nonce @ t)"
    by (simp add: h_def sk_header_def)
  then show "u32le_at (h @ t) 46 = p" using a by (simp only: u32le_at_put length_append length_u32le)
  have m: "SK_MAGIC = [0x53, 0x48, 0x59, 0x4B]"
    by (simp add: SK_MAGIC_def bytes_of_def byte_of_char_def)
  show "take 4 (h @ t) = SK_MAGIC" "(h @ t) ! 4 = 1" "(h @ t) ! 5 = 1"
    "take 32 (drop 6 (h @ t)) = salt" "take 12 (drop 50 (h @ t)) = nonce"
    using assms(1,2) by (simp_all add: h_def sk_header_def m)
qed

text \<open>The file \<open>save_sk_encrypted\<close> writes opens under the same passphrase.\<close>

lemma sk_of_file_saved:
  assumes "aead_law E" and "pp \<noteq> []" and "length salt = 32" and "length nonce = 12"
    and "derive_key E pp salt N r p = Some k"
    and "chacha20_poly1305_encrypt E k nonce sk (Some (sk_header salt nonce N r p)) = Some (ct, mac)"
  shows "sk_of_file E pp (sk_header salt nonce N r p @ ct @ mac) = Some sk"
proof -
  define d where "d = sk_header salt nonce N r p @ ct @ mac"
  have len: "length (sk_header salt nonce N r p) = 62" using assms(3,4) by (rule length_sk_header)
  note rt = chacha_roundtrip [OF assms(1) assms(6)]
  have ld: "length d - 78 = length ct" "\<not> length d < 78" "\<not> length d < 4"
    using len rt by (simp_all add: d_def)
  have f: "take 62 d = sk_header salt nonce N r p" "take (length ct) (drop 62 d) = ct"
    "take 16 (drop (62 + length ct) d) = mac"
    using len rt by (simp_all add: d_def)
  note h = sk_header_fields [OF assms(3,4), of N r p "ct @ mac", folded d_def]
  show ?thesis
    unfolding d_def [symmetric] using assms(2,5) rt ld f h by (simp add: sk_of_file_def)
qed

lemma save_sk_cases:
  assumes "save_sk_encrypted E path pp sk w = (c, w')" and "pp \<noteq> []"
  shows "(c = -1 \<and> files w' = files w) \<or>
     (c = 0 \<and> (\<exists>salt nonce k ct mac w2.
        length salt = 32 \<and> length nonce = 12 \<and> derive_key E pp salt 65536 8 1 = Some k \<and>
        chacha20_poly1305_encrypt E k nonce sk (Some (sk_header salt nonce 65536 8 1)) = Some (ct, mac) \<and>
        files w2 = files w \<and> disk w2 = disk w \<and>
        (\<exists>n. write_file path (sk_header salt nonce 65536 8 1 @ ct @ mac) w2 = (Some n, w'))))"
proof -
  obtain r1 w1 where u1: "read_urandom 32 w = (r1, w1)" by (cases "read_urandom 32 w")
  obtain r2 w2 where u2: "read_urandom 12 w1 = (r2, w2)" by (cases "read_urandom 12 w1")
  have fr: "files w2 = files w" "files w1 = files w" "disk w2 = disk w"
    using read_urandom_frame [OF u1] read_urandom_frame [OF u2] by simp_all
  have wf: "files w' = files w2" if "write_file path d w2 = (None, w')" for d
    using that by (auto simp: write_file_def split: option.splits)
  show ?thesis
    using assms fr read_urandom_length [of 32 w _ w1] read_urandom_length [of 12 w1 _ w2]
    by (cases r1; cases r2)
      (auto simp: save_sk_encrypted_def u1 u2 Let_def wf dest!: wf split: option.splits prod.splits, blast)
qed

text \<open>C5. A secret key saved under a non-empty passphrase on a path that takes the whole file is
  returned, bit for bit, by \<open>load_sk_decrypted\<close> under the same passphrase.\<close>

theorem save_load_sk:
  fixes s s' :: sys
  assumes "aead_law E" and "pp \<noteq> []" and "can_store s path (78 + length sk)"
    and "save_sk_encrypted E path pp sk s = (0, s')"
  shows "fst (load_sk_decrypted E path (s'\<lparr>passphrase := pp\<rparr>)) = Some sk"
proof -
  from save_sk_cases [OF assms(4,2)] obtain salt nonce k ct mac w2 n where
    l: "length salt = 32" "length nonce = 12" and k: "derive_key E pp salt 65536 8 1 = Some k"
    and c: "chacha20_poly1305_encrypt E k nonce sk (Some (sk_header salt nonce 65536 8 1)) = Some (ct, mac)"
    and w2: "disk w2 = disk s"
    and w: "write_file path (sk_header salt nonce 65536 8 1 @ ct @ mac) w2 = (Some n, s')"
    by auto
  let ?d = "sk_header salt nonce 65536 8 1 @ ct @ mac"
  have "length ?d = 78 + length sk"
    using length_sk_header [OF l] chacha_roundtrip [OF assms(1) c] by simp
  with assms(3) w2 have "can_store w2 path (length ?d)" by (simp add: can_store_def)
  with w have "s' = fs_put path ?d w2" by (simp add: write_file_ok)
  then have "load_file (s'\<lparr>passphrase := pp\<rparr>) path = Some ?d"
    by (simp add: load_file_def fs_get_def fs_put_def update_conv)
  moreover have "sk_of_file E pp ?d = Some sk"
    using assms(1,2) l k c by (rule sk_of_file_saved)
  ultimately show ?thesis by (simp add: load_sk_value)
qed

theorem save_load_sk_witness:
  "\<exists>s'. save_sk_encrypted toy ''/c/k'' ''pw'' [9, 8] sys0 = (0, s') \<and>
        fst (load_sk_decrypted toy ''/c/k'' (s'\<lparr>passphrase := ''pw''\<rparr>)) = Some [9, 8]"
proof -
  obtain s' where s': "save_sk_encrypted toy ''/c/k'' ''pw'' [9, 8] sys0 = (0, s')"
    by (simp add: save_sk_encrypted_def read_urandom_def Let_def derive_key_def
          chacha20_poly1305_encrypt_def write_file_def toy_def)
  have "can_store sys0 ''/c/k'' (78 + length [9, 8 :: u8])" by (simp add: can_store_def)
  from save_load_sk [OF toy_laws0(3) _ this s'] s' show ?thesis by simp
qed

text \<open>When saving an encrypted key reports failure, no file has changed: the key that was
  there before is still there.\<close>

theorem save_sk_failure_keeps_files:
  assumes "save_sk_encrypted E path pp sk w = (-1, w')" and "pp \<noteq> []"
  shows "fs_get w' q = fs_get w q"
  using save_sk_cases [OF assms] by (auto simp: fs_get_def)

theorem save_sk_failure_keeps_files_witness:
  "fs_get (snd (save_sk_encrypted toy ''/k'' ''pw'' [9] (world0\<lparr>entropy := [], files := [(''/k'', [1])]\<rparr>))) ''/k''
     = Some [1]"
proof -
  let ?w = "world0\<lparr>entropy := [], files := [(''/k'', [1])]\<rparr>"
  have "save_sk_encrypted toy ''/k'' ''pw'' [9] ?w = (-1, ?w)"
    by (simp add: save_sk_encrypted_def read_urandom_def)
  from save_sk_failure_keeps_files [OF this] show ?thesis
    by (simp add: \<open>save_sk_encrypted toy ''/k'' ''pw'' [9] ?w = (-1, ?w)\<close> fs_get_def)
qed

text \<open>\<open>save_sk_encrypted\<close> does not look at what its writes return: once the file is open it
  reports success, whatever part of the file the disk took.\<close>

theorem save_sk_ignores_short_write:
  assumes "aead_law E" and "pp \<noteq> []" and "44 \<le> length (entropy w)" and "disk w path = Some cap"
    and "\<And>salt. derive_key E pp salt 65536 8 1 \<noteq> None"
    and "\<And>k n a. chacha20_poly1305_encrypt E k n sk a \<noteq> None"
  shows "\<exists>blob w'. save_sk_encrypted E path pp sk w = (0, w') \<and> length blob = 78 + length sk \<and>
           fs_get w' path = Some (take cap blob)"
proof -
  let ?salt = "take 32 (entropy w)" and ?nonce = "take 12 (drop 32 (entropy w))"
  let ?h = "sk_header ?salt ?nonce 65536 8 1"
  let ?w = "w\<lparr>entropy := drop 44 (entropy w)\<rparr>"
  have l: "length ?salt = 32" "length ?nonce = 12" using assms(3) by simp_all
  obtain k where k: "derive_key E pp ?salt 65536 8 1 = Some k" using assms(5) by blast
  obtain ct mac where c: "chacha20_poly1305_encrypt E k ?nonce sk (Some ?h) = Some (ct, mac)"
    using assms(6) [of k ?nonce "Some ?h"] by auto
  have "save_sk_encrypted E path pp sk w = (0, fs_put path (take cap (?h @ ct @ mac)) ?w)"
    using assms(2,3,4) k c by (simp add: save_sk_encrypted_def read_urandom_def Let_def write_file_def)
  moreover have "length (?h @ ct @ mac) = 78 + length sk"
    using length_sk_header [OF l] chacha_roundtrip [OF assms(1) c] by simp
  ultimately show ?thesis by (metis fs_get_put)
qed

theorem save_sk_ignores_short_write_witness:
  "\<exists>blob w'. save_sk_encrypted toy ''/k'' ''pw'' [9] (world0\<lparr>disk := (\<lambda>_. Some 10)\<rparr>) = (0, w') \<and>
     length blob = 79 \<and> fs_get w' ''/k'' = Some (take 10 blob)"
  using save_sk_ignores_short_write [OF toy_laws0(3), of "''pw''" "world0\<lparr>disk := (\<lambda>_. Some 10)\<rparr>" "''/k''" 10 "[9]"]
  by (simp add: world0_def toy_def derive_key_def chacha20_poly1305_encrypt_def)

text \<open>C32. A secret key leaves \<open>load_sk_decrypted\<close> only in two ways: the file carries no magic and
  is the key itself, or it is a complete version-1 scrypt file whose header, ciphertext and tag
  authenticate under the derived key.\<close>

theorem load_sk_only_authenticated:
  assumes "load_sk_decrypted E path s = (Some sk, s')"
  shows "\<exists>data. fs_get s path = Some data \<and> s' = s \<and>
     ((\<not> prefix SK_MAGIC data \<and> sk = data) \<or>
      (prefix SK_MAGIC data \<and> passphrase s \<noteq> [] \<and> 78 \<le> length data \<and> data ! 4 = 1 \<and> data ! 5 = 1 \<and>
       (\<exists>k. derive_key E (passphrase s) (take 32 (drop 6 data)) (u32le_at data 38) (u32le_at data 42)
               (u32le_at data 46) = Some k \<and>
            chacha20_poly1305_decrypt E k (take 12 (drop 50 data)) (take (length data - 78) (drop 62 data))
               (Some (take 62 data)) (take 16 (drop (length data - 16) data)) = Some sk)))"
proof -
  have s': "s' = s" using assms by (rule load_sk_ok_frame)
  have "Option.bind (load_file s path) (sk_of_file E (passphrase s)) = Some sk"
    using load_sk_value [of E path s] assms by simp
  then obtain data where d: "fs_get s path = Some data" and f: "sk_of_file E (passphrase s) data = Some sk"
    by (auto simp: load_file_def Option.bind_eq_Some_conv)
  have m: "(length data < 4 \<or> take 4 data \<noteq> SK_MAGIC) \<longleftrightarrow> \<not> prefix SK_MAGIC data"
    using length_SK_MAGIC by (auto simp: prefix_def) (metis append_eq_conv_conj append_take_drop_id)+
  have e: "62 + (length data - 78) = length data - 16" if "\<not> length data < 78"
    using that by simp
  from f show ?thesis
    using d s' by (auto simp: sk_of_file_def m e Option.bind_eq_Some_conv split: if_splits)
qed

theorem load_sk_only_authenticated_witness:
  "\<exists>data. fs_get (sys0\<lparr>files := [(''/c/k'', [1, 2])]\<rparr>) ''/c/k'' = Some data \<and> \<not> prefix SK_MAGIC data \<and> data = [1, 2]"
proof -
  let ?s = "sys0\<lparr>files := [(''/c/k'', [1, 2])]\<rparr>"
  have "load_sk_decrypted toy ''/c/k'' ?s = (Some [1, 2], ?s)"
    by (simp add: load_sk_decrypted_def load_file_def fs_get_def)
  from load_sk_only_authenticated [OF this] show ?thesis by (auto simp: fs_get_def dest: prefix_length_le)
qed

text \<open>The memory limit handed to scrypt covers the 128 N r bytes of its working set and is never
  below 64 MiB, for all parameters whose computation stays within 64 bits.\<close>

theorem scrypt_maxmem_covers:
  assumes "384 * unat N * unat r < 2 ^ 64"
  shows "128 * unat N * unat r \<le> unat (scrypt_maxmem N r) \<and> 64 * 1024 * 1024 \<le> unat (scrypt_maxmem N r)"
proof -
  define x where "x = 384 * unat N * unat r"
  have "(128 * ucast N * ucast r * 3 :: u64) = of_nat x"
    by (simp add: x_def unsigned_ucast_eq flip: of_nat_mult) (simp add: ac_simps)
  moreover have "x < 2 ^ 64" using assms unfolding x_def .
  then have "unat (of_nat x :: u64) = x" by (simp add: unsigned_of_nat take_bit_nat_eq_self)
  ultimately have m: "unat ((128 * ucast N * ucast r * 3 :: u64) div 2) = x div 2"
    by (simp add: unat_div)
  have "128 * unat N * unat r \<le> x div 2" by (simp add: x_def)
  then show ?thesis using m by (auto simp: scrypt_maxmem_def Let_def word_less_nat_alt not_less)
qed

theorem scrypt_maxmem_covers_witness:
  "128 * 65536 * 8 \<le> unat (scrypt_maxmem 65536 8) \<and> 64 * 1024 * 1024 \<le> unat (scrypt_maxmem 65536 8)"
  using scrypt_maxmem_covers [of 65536 8] by simp

end
