(* ===== verification/CryptoOps.thy ===== *)
theory CryptoOps
  imports Passphrase
begin

text \<open>
  \<open>crypto_ops.c\<close>: sealing a payload into base64 text, wrapping a symmetric key to a KEM public key,
  and the public self-encryption primitives built from them. Proved: sealing and unsealing, wrapping
  and unwrapping, and a whole self-encryption session are inverse to each other; unsealing releases
  authenticated text only; and the one way in which these routines leave their buffer.
\<close>

unbundle bit_operations_syntax

definition key_path :: "'a sys_scheme \<Rightarrow> string \<Rightarrow> string" where
  "key_path s name = snprintf 512 (config_dir s @ ''/'' @ name)"

definition xor_bytes :: "u8 list \<Rightarrow> u8 list \<Rightarrow> u8 list" where
  "xor_bytes a b = map2 (\<lambda>x y. x XOR y) (take 32 a) (take 32 b)"

lemma length_xor_bytes [simp]: "length a = 32 \<Longrightarrow> length b = 32 \<Longrightarrow> length (xor_bytes a b) = 32"
  by (simp add: xor_bytes_def)

lemma xor_cancel: "length a = length b \<Longrightarrow> map2 (\<lambda>x y. x XOR y) (map2 (\<lambda>x y. x XOR y) a b) b = (a :: u8 list)"
  by (induction a b rule: list_induct2) (auto simp: xor.assoc)

lemma xor_xor_bytes [codec_simps]:
  "length a = 32 \<Longrightarrow> length b = 32 \<Longrightarrow> xor_bytes (xor_bytes a b) b = a"
  using xor_cancel [of a b] by (simp add: xor_bytes_def)

section \<open>Sealing a payload\<close>

definition encrypt_to_b64 :: "ext \<Rightarrow> u8 list \<Rightarrow> u8 list \<Rightarrow> 'a world_scheme \<Rightarrow> string option \<times> 'a world_scheme" where
  "encrypt_to_b64 E key pt w =
     (if pt = [] then (None, w)
      else case read_urandom 12 w of
        (None, w) \<Rightarrow> (None, w)
      | (Some nonce, w) \<Rightarrow>
          (case chacha20_poly1305_encrypt E key nonce pt None of
             None \<Rightarrow> (None, w)
           | Some (ct, mac) \<Rightarrow> (Some (base64_encode E (nonce @ ct @ mac)), w)))"

text \<open>The plaintext comes back as a C string, so it ends at its first NUL.\<close>

definition decrypt_from_b64 :: "ext \<Rightarrow> u8 list \<Rightarrow> string option \<Rightarrow> string mem" where
  "decrypt_from_b64 E key b64 =
     (case b64 of
        None \<Rightarrow> Null
      | Some t \<Rightarrow>
          if t = [] then Null
          else case base64_decode E t of
            None \<Rightarrow> Null
          | Some (d, n) \<Rightarrow>
              if n \<le> 28 then Null
              else (case read_buf (d, n) of
                 Ok packed \<Rightarrow>
                   (let ct_len = length packed - 28
                    in case chacha20_poly1305_decrypt E key (take 12 packed)
                              (take ct_len (drop 12 packed)) None (take 16 (drop (12 + ct_len) packed)) of
                         None \<Rightarrow> Null
                       | Some pt \<Rightarrow> Ok (cstr (text_of pt)))
               | _ \<Rightarrow> Ub))"

section \<open>Wrapping a symmetric key\<close>

definition kem_encapsulate_key ::
  "ext \<Rightarrow> u8 list \<Rightarrow> u8 list \<Rightarrow> 'a world_scheme \<Rightarrow> string option \<times> 'a world_scheme" where
  "kem_encapsulate_key E pk symk w =
     (if \<not> oqs_kem_ok E then (None, w)
      else if length pk \<noteq> kem_pk_length E then (None, w)
      else case next_coin w of (c, w) \<Rightarrow>
        (case oqs_kem_encaps E c pk of
           None \<Rightarrow> (None, w)
         | Some (ct, ss) \<Rightarrow> (Some (base64_encode E (ct @ xor_bytes symk ss)), w)))"

definition kem_decapsulate_key :: "ext \<Rightarrow> string \<Rightarrow> u8 list \<Rightarrow> u8 list option" where
  "kem_decapsulate_key E enc sk =
     (case base64_decode E enc of
        None \<Rightarrow> None
      | Some (packed, n) \<Rightarrow>
          if \<not> oqs_kem_ok E then None
          else if unat n \<noteq> kem_ct_length E + 32 then None
          else (case oqs_kem_decaps E (take (kem_ct_length E) packed) sk of
                  None \<Rightarrow> None
                | Some ss \<Rightarrow> Some (xor_bytes (drop (kem_ct_length E) packed) ss)))"

section \<open>Self-encryption\<close>

definition shyake_selfenc_begin ::
  "ext \<Rightarrow> 'a sys_scheme \<Rightarrow> (u8 list \<times> string) option \<times> 'a sys_scheme" where
  "shyake_selfenc_begin E s =
     (case load_file s (key_path s ''kem_pk.bin'') of
        None \<Rightarrow> (None, s)
      | Some kpk \<Rightarrow>
          (case read_urandom 32 s of
             (None, s) \<Rightarrow> (None, s)
           | (Some symk, s) \<Rightarrow>
               (case kem_encapsulate_key E kpk symk s of
                  (None, s) \<Rightarrow> (None, s)
                | (Some enc, s) \<Rightarrow> (Some (symk, enc), s))))"

record shyake_selfdec =
  sd_ksk :: "u8 list"

definition shyake_selfdec_new :: "ext \<Rightarrow> 'a sys_scheme \<Rightarrow> shyake_selfdec option \<times> 'a sys_scheme" where
  "shyake_selfdec_new E s =
     (case load_sk_decrypted E (key_path s ''kem_sk.bin'') s of
        (None, s) \<Rightarrow> (None, s)
      | (Some k, s) \<Rightarrow> (Some \<lparr>sd_ksk = k\<rparr>, s))"

definition shyake_selfdec_key ::
  "ext \<Rightarrow> shyake_selfdec option \<Rightarrow> string option \<Rightarrow> shyake_err \<times> u8 list option" where
  "shyake_selfdec_key E sd enc =
     (case (sd, enc) of
        (Some d, Some t) \<Rightarrow>
          (case kem_decapsulate_key E t (sd_ksk d) of
             None \<Rightarrow> (SHYAKE_ERR_CRYPTO, None)
           | Some symk \<Rightarrow> (SHYAKE_OK, Some (take 32 symk)))
      | _ \<Rightarrow> (SHYAKE_ERR, None))"

definition shyake_seal_b64 :: "ext \<Rightarrow> u8 list \<Rightarrow> u8 list \<Rightarrow> 'a world_scheme \<Rightarrow> string option \<times> 'a world_scheme" where
  "shyake_seal_b64 E key pt w = encrypt_to_b64 E key pt w"

definition shyake_unseal_b64 :: "ext \<Rightarrow> u8 list \<Rightarrow> string option \<Rightarrow> string mem" where
  "shyake_unseal_b64 E key b64 = decrypt_from_b64 E key b64"

section \<open>Lemmas\<close>

lemma encrypt_to_b64_cases:
  assumes "encrypt_to_b64 E key pt w = (Some b, w')"
  obtains nonce ct mac where "pt \<noteq> []" and "length nonce = 12"
    and "chacha20_poly1305_encrypt E key nonce pt None = Some (ct, mac)"
    and "b = base64_encode E (nonce @ ct @ mac)"
  using assms
  by (auto simp: encrypt_to_b64_def dest: read_urandom_length split: if_splits option.splits prod.splits)

lemma encrypt_to_b64_frame:
  "encrypt_to_b64 E key pt w = (r, w') \<Longrightarrow> \<exists>e. w' = w\<lparr>entropy := e\<rparr>"
proof -
  have "\<exists>e. w = w\<lparr>entropy := e\<rparr>" by (rule exI [of _ "entropy w"]) simp
  moreover assume "encrypt_to_b64 E key pt w = (r, w')"
  ultimately show ?thesis
    by (auto simp: encrypt_to_b64_def read_urandom_def split: if_splits option.splits prod.splits)
qed

lemma kem_encapsulate_cases:
  assumes "kem_encapsulate_key E pk symk w = (Some b, w')"
  obtains ct ss where "oqs_kem_ok E" and "length pk = kem_pk_length E"
    and "oqs_kem_encaps E (coins w) pk = Some (ct, ss)"
    and "b = base64_encode E (ct @ xor_bytes symk ss)" and "w' = w\<lparr>coins := Suc (coins w)\<rparr>"
  using assms
  by (auto simp: kem_encapsulate_key_def next_coin_def split: if_splits option.splits)

lemma kem_encapsulate_frame:
  "kem_encapsulate_key E pk symk w = (r, w') \<Longrightarrow> \<exists>c. w' = w\<lparr>coins := c\<rparr>"
proof -
  have "\<exists>c. w = w\<lparr>coins := c\<rparr>" by (rule exI [of _ "coins w"]) simp
  moreover assume "kem_encapsulate_key E pk symk w = (r, w')"
  ultimately show ?thesis
    by (auto simp: kem_encapsulate_key_def next_coin_def split: if_splits option.splits)
qed

text \<open>A sealed payload opens.\<close>

lemma decrypt_encrypt [codec_simps]:
  assumes "base64_law E" and "aead_law E" and "length pt < 2 ^ 30"
    and "encrypt_to_b64 E key pt w = (Some b, w')"
  shows "decrypt_from_b64 E key (Some b) = Ok (cstr (text_of pt))"
proof -
  from assms(4) obtain nonce ct mac where n: "pt \<noteq> []" "length nonce = 12"
      and c: "chacha20_poly1305_encrypt E key nonce pt None = Some (ct, mac)"
      and b: "b = base64_encode E (nonce @ ct @ mac)"
    by (rule encrypt_to_b64_cases)
  define p where "p = nonce @ ct @ mac"
  note rt = chacha_roundtrip [OF assms(2) c]
  have lp: "length p = 28 + length pt" using n rt by (simp add: p_def)
  have f: "take 12 p = nonce" "take (length pt) (drop 12 p) = ct"
    "take 16 (drop (12 + length pt) p) = mac"
    using n rt by (simp_all add: p_def)
  have "length p < 2 ^ 64" using assms(3) lp by simp
  then have u: "unat (word_of_int (int (length p)) :: u64) = length p" by (rule unat_size)
  have len: "\<not> (word_of_int (int (length p)) :: u64) \<le> 28"
    unfolding word_le_nat_alt u using lp n by simp
  have "p \<noteq> []" using lp by auto
  then have "b \<noteq> []" unfolding b p_def [symmetric] base64_encode_ne [OF assms(1)] .
  moreover have "base64_decode E b = Some (p @ replicate (b64_pad p) 0, word_of_int (int (length p)))"
    using base64_decode_encode [OF assms(1)] by (simp add: b p_def)
  moreover have "read_buf (p @ replicate (b64_pad p) 0, word_of_int (int (length p))) = Ok p"
    unfolding read_buf.simps u by simp
  moreover have "length p - 28 = length pt" using lp by simp
  ultimately show ?thesis
    unfolding decrypt_from_b64_def using len f rt(1,3) by (simp del: read_buf.simps)
qed

text \<open>A wrapped key unwraps under the matching secret key.\<close>

lemma decapsulate_encapsulate [codec_simps]:
  assumes "base64_law E" and "kem_law E" and "kem_pair E pk sk" and "length symk = 32"
    and "kem_ct_length E < 2 ^ 30" and "kem_encapsulate_key E pk symk w = (Some b, w')"
  shows "kem_decapsulate_key E b sk = Some symk"
proof -
  from assms(6) obtain ct ss where ok: "oqs_kem_ok E"
      and e: "oqs_kem_encaps E (coins w) pk = Some (ct, ss)"
      and b: "b = base64_encode E (ct @ xor_bytes symk ss)"
    by (rule kem_encapsulate_cases)
  define p where "p = ct @ xor_bytes symk ss"
  note l = kem_lawD [OF assms(2) e]
  have lp: "length p = kem_ct_length E + 32" using l assms(4) by (simp add: p_def)
  have f: "take (kem_ct_length E) (p @ r) = ct" "xor_bytes (drop (kem_ct_length E) (p @ r)) ss = symk" for r
  proof -
    show "take (kem_ct_length E) (p @ r) = ct" using l by (simp add: p_def)
    have "drop (kem_ct_length E) (p @ r) = xor_bytes symk ss @ r" using l by (simp add: p_def)
    moreover have "xor_bytes (xor_bytes symk ss @ r) ss = xor_bytes (xor_bytes symk ss) ss"
      using l assms(4) by (simp add: xor_bytes_def)
    ultimately show "xor_bytes (drop (kem_ct_length E) (p @ r)) ss = symk"
      using l assms(4) by (simp add: codec_simps)
  qed
  have "length p < 2 ^ 64" using assms(5) lp by simp
  then have u: "unat (word_of_int (int (length p)) :: u64) = length p" by (rule unat_size)
  define q where "q = p @ replicate (b64_pad p) 0"
  have "base64_decode E b = Some (q, word_of_int (int (length p)))"
    using base64_decode_encode [OF assms(1)] by (simp add: b p_def q_def)
  moreover note f [of "replicate (b64_pad p) 0", folded q_def]
  moreover have "unat (word_of_int (int (length p)) :: u64) = kem_ct_length E + 32"
    unfolding u by (rule lp)
  ultimately show ?thesis
    unfolding kem_decapsulate_key_def using ok kem_pairD [OF assms(3) e] by simp
qed


text \<open>A self-encryption session changes the random sources only.\<close>

lemma selfenc_begin_cases:
  fixes s s' :: "'a sys_scheme"
  assumes "shyake_selfenc_begin E s = (Some (symk, enc), s')"
  obtains kpk and w w' :: "'a sys_scheme" where "load_file s (key_path s ''kem_pk.bin'') = Some kpk" and "length symk = 32"
    and "kem_encapsulate_key E kpk symk w = (Some enc, w')"
    and "\<exists>e c. s' = s\<lparr>entropy := e, coins := c\<rparr>"
proof -
  from assms obtain kpk w w' where k: "load_file s (key_path s ''kem_pk.bin'') = Some kpk"
    and r: "read_urandom 32 s = (Some symk, w)"
    and c: "kem_encapsulate_key E kpk symk w = (Some enc, w')" "s' = w'"
    by (auto simp: shyake_selfenc_begin_def split: option.splits prod.splits)
  have w: "\<exists>e. w = s\<lparr>entropy := e\<rparr>" using r by (auto simp: read_urandom_def split: if_splits)
  with kem_encapsulate_frame [OF c(1)] c(2) have "\<exists>e c. s' = s\<lparr>entropy := e, coins := c\<rparr>" by blast
  then show ?thesis using that [OF k read_urandom_length [OF r] c(1)] by blast
qed

lemma load_sk_same:
  assumes "files t = files s" and "passphrase t = passphrase s"
  shows "fst (load_sk_decrypted E p t) = fst (load_sk_decrypted E p s)"
  unfolding load_sk_value load_file_def fs_get_def using assms by simp

section \<open>Properties\<close>

text \<open>A payload that \<open>shyake_seal_b64\<close> sealed under a key opens under that key: unsealing returns
  the payload as a C string, that is, up to its first NUL byte.\<close>

theorem unseal_seal:
  assumes "base64_law E" and "aead_law E" and "length pt < 2 ^ 30"
    and "shyake_seal_b64 E key pt w = (Some b, w')"
  shows "shyake_unseal_b64 E key (Some b) = Ok (cstr (text_of pt))"
  unfolding shyake_unseal_b64_def
  by (rule decrypt_encrypt [OF assms(1-3)]) (use assms(4) in \<open>simp add: shyake_seal_b64_def\<close>)

theorem unseal_seal_witness:
  "\<exists>b w'. shyake_seal_b64 toy [3] (bytes_of ''hi'') world0 = (Some b, w') \<and>
     shyake_unseal_b64 toy [3] (Some b) = Ok ''hi''"
proof -
  obtain b w' where b: "shyake_seal_b64 toy [3] (bytes_of ''hi'') world0 = (Some b, w')"
    by (simp add: shyake_seal_b64_def encrypt_to_b64_def read_urandom_def world0_def toy_def
          chacha20_poly1305_encrypt_def)
  from unseal_seal [OF toy_laws0(1,3) _ this] b show ?thesis by simp
qed

text \<open>C26. A self-encryption session from end to end: the key that \<open>shyake_selfenc_begin\<close> wraps to the
  user's own public key is what \<open>shyake_selfdec_key\<close> recovers with the secret key loaded from disk,
  and it opens every payload sealed with it in between.\<close>

theorem selfenc_session:
  fixes s s1 s2 :: sys
  assumes "base64_law E" and "aead_law E" and "kem_law E" and "kem_ct_length E < 2 ^ 30"
    and "load_file s (key_path s ''kem_pk.bin'') = Some kpk" and "kem_pair E kpk ksk"
    and "fst (load_sk_decrypted E (key_path s ''kem_sk.bin'') s) = Some ksk"
    and "shyake_selfenc_begin E s = (Some (symk, enc), s1)"
    and "shyake_seal_b64 E symk pt s1 = (Some b, s2)" and "length pt < 2 ^ 30"
  shows "\<exists>d. shyake_selfdec_new E s2 = (Some d, s2) \<and>
           shyake_selfdec_key E (Some d) (Some enc) = (SHYAKE_OK, Some symk) \<and>
           shyake_unseal_b64 E symk (Some b) = Ok (cstr (text_of pt))"
proof -
  from assms(8) obtain kpk' and w w' :: sys where "load_file s (key_path s ''kem_pk.bin'') = Some kpk'"
    and l: "length symk = 32" and k': "kem_encapsulate_key E kpk' symk w = (Some enc, w')"
    and s1: "\<exists>e c. s1 = s\<lparr>entropy := e, coins := c\<rparr>"
    by (rule selfenc_begin_cases)
  with assms(5) have k: "kem_encapsulate_key E kpk symk w = (Some enc, w')" by simp
  have "\<exists>e. s2 = s1\<lparr>entropy := e\<rparr>"
    using encrypt_to_b64_frame assms(9) unfolding shyake_seal_b64_def by blast
  with s1 have "files s2 = files s" "passphrase s2 = passphrase s" "config_dir s2 = config_dir s" by auto
  then have "fst (load_sk_decrypted E (key_path s2 ''kem_sk.bin'') s2) = Some ksk"
    using assms(7) load_sk_same [of s2 s E] by (simp add: key_path_def)
  then obtain s3 where "load_sk_decrypted E (key_path s2 ''kem_sk.bin'') s2 = (Some ksk, s3)"
    by (metis prod.collapse)
  then have "load_sk_decrypted E (key_path s2 ''kem_sk.bin'') s2 = (Some ksk, s2)"
    using load_sk_ok_frame by metis
  then have "shyake_selfdec_new E s2 = (Some \<lparr>sd_ksk = ksk\<rparr>, s2)"
    by (simp add: shyake_selfdec_new_def)
  moreover have "kem_decapsulate_key E enc ksk = Some symk"
    using assms(1,3,6) l assms(4) k by (rule decapsulate_encapsulate)
  moreover have "decrypt_from_b64 E symk (Some b) = Ok (cstr (text_of pt))"
    using assms(1,2,10,9) unfolding shyake_seal_b64_def by (rule decrypt_encrypt)
  ultimately show ?thesis using l by (simp add: shyake_selfdec_key_def shyake_unseal_b64_def)
qed

theorem selfenc_session_witness:
  "\<exists>symk enc s1 b s2 d.
     shyake_selfenc_begin toy (sys0\<lparr>files := [(''/c/kem_pk.bin'', [4, 7]), (''/c/kem_sk.bin'', [4, 8])]\<rparr>)
       = (Some (symk, enc), s1) \<and>
     shyake_seal_b64 toy symk (bytes_of ''x'') s1 = (Some b, s2) \<and>
     shyake_selfdec_key toy (Some d) (Some enc) = (SHYAKE_OK, Some symk) \<and>
     shyake_unseal_b64 toy symk (Some b) = Ok ''x''"
proof -
  let ?s = "sys0\<lparr>files := [(''/c/kem_pk.bin'', [4, 7]), (''/c/kem_sk.bin'', [4, 8])]\<rparr>"
  have f: "load_file ?s (key_path ?s ''kem_pk.bin'') = Some [4, 7]"
    "load_file ?s (key_path ?s ''kem_sk.bin'') = Some [4, 8]"
    by (simp_all add: load_file_def fs_get_def key_path_def)
  have p: "kem_pair toy [4, 7] [4, 8]" by (rule kem_law_pair [OF toy_laws0(4), of 4]) (simp add: toy_def)
  have k: "fst (load_sk_decrypted toy (key_path ?s ''kem_sk.bin'') ?s) = Some [4, 8]"
    unfolding load_sk_value f by (simp add: sk_of_file_def)
  obtain symk enc s1 where b: "shyake_selfenc_begin toy ?s = (Some (symk, enc), s1)" "8 \<le> length (entropy s1)"
    "12 \<le> length (entropy s1)"
    by (simp add: shyake_selfenc_begin_def f read_urandom_def kem_encapsulate_key_def next_coin_def toy_def)
  then obtain c s2 where c: "shyake_seal_b64 toy symk (bytes_of ''x'') s1 = (Some c, s2)"
    by (simp add: shyake_seal_b64_def encrypt_to_b64_def read_urandom_def toy_def chacha20_poly1305_encrypt_def)
  have ct: "kem_ct_length toy < 2 ^ 30" by (simp add: toy_def)
  from selfenc_session [OF toy_laws0(1,3,4) ct f(1) p k b(1) c] b(1) c show ?thesis by fastforce
qed

text \<open>C33. Unsealing gives out text only when the decoded payload is longer than a nonce and a tag,
  lies in its buffer, and its ciphertext and tag authenticate under the key.\<close>

theorem unseal_only_authenticated:
  assumes "shyake_unseal_b64 E key (Some t) = Ok m"
  shows "\<exists>d n pt. base64_decode E t = Some (d, n) \<and> 28 < unat n \<and> unat n \<le> length d \<and>
     chacha20_poly1305_decrypt E key (take 12 d) (take (unat n - 28) (drop 12 d)) None
       (take 16 (drop (unat n - 16) d)) = Some pt \<and> m = cstr (text_of pt)"
proof -
  from assms obtain d n where d: "base64_decode E t = Some (d, n)" and n: "28 < unat n" "unat n \<le> length d"
    by (auto simp: shyake_unseal_b64_def decrypt_from_b64_def word_le_nat_alt
          split: option.splits if_splits)
  then have r: "read_buf (d, n) = Ok (take (unat n) d)" by simp
  define k where "k = unat n"
  have e: "12 + (k - 28) = k - 16" "min (length d) k = k" using n by (simp_all add: k_def)
  have t: "take 12 (take k d) = take 12 d" "take (k - 28) (drop 12 (take k d)) = take (k - 28) (drop 12 d)"
    "take 16 (drop (k - 16) (take k d)) = take 16 (drop (k - 16) d)"
    using n by (simp_all add: k_def take_drop min_def)
  show ?thesis
    using assms d n r t e unfolding shyake_unseal_b64_def decrypt_from_b64_def k_def
    by (auto simp: Let_def word_le_nat_alt simp del: read_buf.simps split: option.splits if_splits)
qed

theorem unseal_only_authenticated_witness:
  "\<exists>b w' d n pt. shyake_seal_b64 toy [3] (bytes_of ''hi'') world0 = (Some b, w') \<and>
     base64_decode toy b = Some (d, n) \<and> 28 < unat n \<and>
     chacha20_poly1305_decrypt toy [3] (take 12 d) (take (unat n - 28) (drop 12 d)) None
       (take 16 (drop (unat n - 16) d)) = Some pt \<and> ''hi'' = cstr (text_of pt)"
proof -
  obtain b w' where b: "shyake_seal_b64 toy [3] (bytes_of ''hi'') world0 = (Some b, w')"
    by (simp add: shyake_seal_b64_def encrypt_to_b64_def read_urandom_def world0_def toy_def
          chacha20_poly1305_encrypt_def)
  then have "encrypt_to_b64 toy [3] (bytes_of ''hi'') world0 = (Some b, w')"
    by (simp add: shyake_seal_b64_def)
  from decrypt_encrypt [OF toy_laws0(1,3) _ this]
  have "shyake_unseal_b64 toy [3] (Some b) = Ok ''hi''" by (simp add: shyake_unseal_b64_def)
  from unseal_only_authenticated [OF this] b show ?thesis by blast
qed

text \<open>The length \<open>base64_decode\<close> reports can exceed its buffer: on white space that its own loop
  does not strip (two tabs) the decoder yields no byte, the padding rule subtracts two, and the
  result is read as \<open>2^64 - 2\<close>, so any use of the decoded bytes leaves the buffer.\<close>

theorem base64_decode_underflow:
  assumes "base64_blank_law E"
  shows "base64_decode E [TAB, TAB] = Some ([], - 2) \<and> base64_bytes E [TAB, TAB] = Ub"
proof -
  have "strip_tail [TAB, TAB] = [TAB, TAB]" by (simp add: strip_tail_def char_consts)
  moreover have "evp_decode_block E [TAB, TAB] = Some []"
    using assms unfolding base64_blank_law_def by simp
  moreover have "map url_to_std [TAB, TAB] = [TAB, TAB]" by (simp add: url_to_std_def char_consts)
  moreover have "b64_padding [TAB, TAB] = 2" by (simp add: b64_padding_def char_consts)
  ultimately have "base64_decode E [TAB, TAB] = Some ([], - 2)"
    by (simp add: base64_decode_def)
  then show ?thesis by (simp add: base64_bytes_def)
qed

theorem base64_decode_underflow_witness:
  "base64_decode toy [TAB, TAB] = Some ([], - 2) \<and> base64_bytes toy [TAB, TAB] = Ub"
  by (rule base64_decode_underflow [OF toy_blank_law])

end
