(* ===== verification/Pow.thy ===== *)
theory Pow
  imports Passphrase
begin

text \<open>
  Proof of work (\<open>shyake_mint_pow\<close> of \<open>libshyake.c\<close>): a hashcash stamp whose SHA-1 starts with a
  given number of zero bits. The counter is an \<open>unsigned long\<close> that the loop stops at
  \<open>0xFFFFFFFF\<close>, so the search is a total function. Proved: the byte-wise test is the bit-wise
  one, a stamp that is returned passes it, and none is returned only after all counters failed.
\<close>

unbundle bit_operations_syntax

section \<open>The stamp\<close>

text \<open>\<open>%lx\<close>.\<close>

fun show_hex :: "nat \<Rightarrow> string" where
  "show_hex n = (if n < 16 then [hex_digit n] else show_hex (n div 16) @ [hex_digit (n mod 16)])"

declare show_hex.simps [simp del]

definition pow_charset :: string where
  "pow_charset = ''abcdefghijklmnopqrstuvwxyz0123456789''"

definition pow_header :: "int \<Rightarrow> string \<Rightarrow> string \<Rightarrow> string \<Rightarrow> nat \<Rightarrow> string" where
  "pow_header bits date resource rand_str counter =
     snprintf 256 (''1:'' @ show_int bits @ '':'' @ date @ '':'' @ resource @ ''::'' @ rand_str @ '':''
       @ show_hex counter)"

text \<open>Twelve random bytes, from \<open>rand()\<close> when \<open>/dev/urandom\<close> does not give them.\<close>

definition pow_rand :: "'a world_scheme \<Rightarrow> u8 list \<times> 'a world_scheme" where
  "pow_rand w =
     (case read_urandom 12 w of
        (None, w) \<Rightarrow> (map (libc_rand w) [0..<12], w)
      | (Some r, w) \<Rightarrow> (r, w))"

definition pow_rand_str :: "u8 list \<Rightarrow> string" where
  "pow_rand_str rnd = map (\<lambda>b. pow_charset ! (unat b mod 36)) rnd"

section \<open>The search\<close>

text \<open>The test of one hash: \<open>bits / 8\<close> zero bytes, then the high bits of the next one.\<close>

definition pow_match :: "nat \<Rightarrow> u8 list \<Rightarrow> bool" where
  "pow_match bits hash =
     (list_all (\<lambda>b. b = 0) (take (bits div 8) hash) \<and>
      (bits mod 8 > 0 \<longrightarrow> drop_bit (8 - bits mod 8) (hash ! (bits div 8)) = 0))"

function pow_loop :: "ext \<Rightarrow> nat \<Rightarrow> (nat \<Rightarrow> string) \<Rightarrow> nat \<Rightarrow> string option" where
  "pow_loop E bits header counter =
     (if pow_match bits (sha1 E (bytes_of (header counter))) then Some (header counter)
      else if Suc counter \<ge> 0xFFFFFFFF then None
      else pow_loop E bits header (Suc counter))"
  by pat_completeness auto
termination by (relation "measure (\<lambda>(E, bits, header, counter). 0xFFFFFFFF - counter)") auto

declare pow_loop.simps [simp del]

definition shyake_mint_pow :: "ext \<Rightarrow> string \<Rightarrow> nat \<Rightarrow> 'a world_scheme \<Rightarrow> string option \<times> 'a world_scheme" where
  "shyake_mint_pow E resource bits w =
     (let date = strftime_utc E ''%y%m%d'' (clock w)
      in case pow_rand w of (rnd, w) \<Rightarrow>
           (pow_loop E bits (pow_header (int bits) date resource (pow_rand_str rnd)) 0, w))"

section \<open>Lemmas\<close>

lemma pow_rand_frame: "pow_rand w = (r, w') \<Longrightarrow> \<exists>e. w' = w\<lparr>entropy := e\<rparr>"
proof -
  have "\<exists>e. w = w\<lparr>entropy := e\<rparr>" by (rule exI [of _ "entropy w"]) simp
  moreover assume "pow_rand w = (r, w')"
  ultimately show ?thesis
    by (auto simp: pow_rand_def read_urandom_def split: if_splits option.splits prod.splits)
qed

lemma mint_pow_frame: "shyake_mint_pow E r bits w = (h, w') \<Longrightarrow> \<exists>e. w' = w\<lparr>entropy := e\<rparr>"
  using pow_rand_frame by (fastforce simp: shyake_mint_pow_def split: prod.splits)

lemma pow_loop_Some:
  "pow_loop E bits header c = Some h \<Longrightarrow>
     \<exists>d\<ge>c. h = header d \<and> pow_match bits (sha1 E (bytes_of h)) \<and>
        (\<forall>e. c \<le> e \<and> e < d \<longrightarrow> \<not> pow_match bits (sha1 E (bytes_of (header e))))"
proof (induction E bits header c rule: pow_loop.induct)
  case (1 E bits header c)
  show ?case
  proof (cases "pow_match bits (sha1 E (bytes_of (header c)))")
    case True
    with 1 show ?thesis by (intro exI [of _ c]) (auto simp: pow_loop.simps [of E bits header c])
  next
    case False
    with "1.prems" have "\<not> Suc c \<ge> 0xFFFFFFFF" and "pow_loop E bits header (Suc c) = Some h"
      by (auto simp: pow_loop.simps [of E bits header c] split: if_splits)
    from "1.IH" [OF False this] obtain d where "d \<ge> Suc c" "h = header d" "pow_match bits (sha1 E (bytes_of h))"
      "\<forall>e. Suc c \<le> e \<and> e < d \<longrightarrow> \<not> pow_match bits (sha1 E (bytes_of (header e)))" by blast
    moreover have "\<not> pow_match bits (sha1 E (bytes_of (header e)))" if "c \<le> e" "e < d" for e
      using that False calculation(4) by (cases "e = c") auto
    ultimately show ?thesis by (intro exI [of _ d]) auto
  qed
qed

lemma pow_loop_None:
  "pow_loop E bits header c = None \<Longrightarrow> c \<le> e \<Longrightarrow> e < 0xFFFFFFFF \<Longrightarrow>
     \<not> pow_match bits (sha1 E (bytes_of (header e)))"
proof (induction E bits header c rule: pow_loop.induct)
  case (1 E bits header c)
  have f: "\<not> pow_match bits (sha1 E (bytes_of (header c)))"
    using "1.prems"(1) by (auto simp: pow_loop.simps [of E bits header c])
  show ?case
  proof (cases "c = e")
    case False
    with "1.prems" have "\<not> Suc c \<ge> 0xFFFFFFFF" "Suc c \<le> e" by simp_all
    with 1 f show ?thesis by (simp add: pow_loop.simps [of E bits header c])
  qed (use f in simp)
qed

text \<open>The \<open>n\<close> leading bits of a byte string, most significant bit of each byte first.\<close>

definition leading_bit :: "u8 list \<Rightarrow> nat \<Rightarrow> bool" where
  "leading_bit hash i = bit (hash ! (i div 8)) (7 - i mod 8)"

lemma byte_zero_iff: "b = (0 :: u8) \<longleftrightarrow> (\<forall>k<8. \<not> bit b (7 - k))"
proof
  assume a: "\<forall>k<8. \<not> bit b (7 - k)"
  show "b = 0"
  proof (rule bit_word_eqI)
    fix n assume "n < LENGTH(8)"
    then have "7 - (7 - n) = n" "7 - n < 8" by simp_all
    with a show "bit b n = bit (0 :: u8) n" by (metis bit_0_eq bot_apply bot_bool_def)
  qed
qed simp

lemma byte_high_zero_iff:
  assumes "m \<le> 8"
  shows "drop_bit (8 - m) b = (0 :: u8) \<longleftrightarrow> (\<forall>k<m. \<not> bit b (7 - k))"
proof
  assume z: "drop_bit (8 - m) b = 0"
  show "\<forall>k<m. \<not> bit b (7 - k)"
  proof (intro allI impI)
    fix k assume "k < m"
    then have "7 - k = 8 - m + (m - 1 - k)" using assms by simp
    then have "bit b (7 - k) = bit (drop_bit (8 - m) b) (m - 1 - k)" by (simp only: bit_drop_bit_eq o_def)
    with z show "\<not> bit b (7 - k)" by simp
  qed
next
  assume a: "\<forall>k<m. \<not> bit b (7 - k)"
  show "drop_bit (8 - m) b = 0"
  proof (rule bit_word_eqI)
    fix n assume "n < LENGTH(8)"
    show "bit (drop_bit (8 - m) b) n = bit (0 :: u8) n"
    proof (cases "n < m")
      case True
      then have "7 - (m - 1 - n) = 8 - m + n" using assms by simp
      moreover have "m - 1 - n < m" using True by simp
      ultimately show ?thesis using a by (metis bit_0_eq bit_drop_bit_eq bot_apply bot_bool_def comp_apply)
    next
      case False
      then have "8 \<le> 8 - m + n" using assms by simp
      then show ?thesis by (auto simp: bit_drop_bit_eq dest: bit_imp_le_length)
    qed
  qed
qed


text \<open>The byte-wise test is the bit-wise one.\<close>

lemma pow_match_iff:
  assumes "bits \<le> 8 * length hash"
  shows "pow_match bits hash \<longleftrightarrow> (\<forall>i<bits. \<not> leading_bit hash i)"
proof -
  define q m where "q = bits div 8" and "m = bits mod 8"
  have b: "bits = 8 * q + m" "m < 8" by (simp_all add: q_def m_def)
  have full: "list_all (\<lambda>b. b = 0) (take q hash) \<longleftrightarrow> (\<forall>i<8 * q. \<not> leading_bit hash i)"
  proof -
    have "list_all (\<lambda>b. b = 0) (take q hash) \<longleftrightarrow> (\<forall>j<q. hash ! j = 0)"
    proof -
      have "min (length hash) q = q" using assms b by simp
      then show ?thesis by (simp add: list_all_length)
    qed
    also have "\<dots> \<longleftrightarrow> (\<forall>j<q. \<forall>k<8. \<not> leading_bit hash (8 * j + k))"
      by (simp add: byte_zero_iff leading_bit_def)
    also have "\<dots> \<longleftrightarrow> (\<forall>i<8 * q. \<not> leading_bit hash i)"
    proof (intro iffI allI impI)
      fix i assume a: "\<forall>j<q. \<forall>k<8. \<not> leading_bit hash (8 * j + k)" and i: "i < 8 * q"
      then have "i div 8 < q" "i mod 8 < 8" by (simp_all add: less_mult_imp_div_less mult.commute)
      with a have "\<not> leading_bit hash (8 * (i div 8) + i mod 8)" by blast
      then show "\<not> leading_bit hash i" by simp
    qed simp
    finally show ?thesis .
  qed
  have rest: "(m > 0 \<longrightarrow> drop_bit (8 - m) (hash ! q) = 0) \<longleftrightarrow> (\<forall>k<m. \<not> leading_bit hash (8 * q + k))"
    using b byte_high_zero_iff [of m "hash ! q"] by (auto simp: leading_bit_def)
  have "(\<forall>i<bits. \<not> leading_bit hash i) \<longleftrightarrow>
     (\<forall>i<8 * q. \<not> leading_bit hash i) \<and> (\<forall>k<m. \<not> leading_bit hash (8 * q + k))"
  proof (intro iffI allI impI conjI)
    fix i assume a: "(\<forall>i<8 * q. \<not> leading_bit hash i) \<and> (\<forall>k<m. \<not> leading_bit hash (8 * q + k))"
      and i: "i < bits"
    show "\<not> leading_bit hash i"
    proof (cases "i < 8 * q")
      case False
      then have "i = 8 * q + (i - 8 * q)" "i - 8 * q < m" using i b by simp_all
      with a show ?thesis by metis
    qed (use a in simp)
  qed (use b in simp_all)
  then show ?thesis unfolding pow_match_def using full rest by (simp add: q_def m_def)
qed

section \<open>Properties\<close>

text \<open>C35. The proof of work that is minted is the stamp of the resource, the day and random text
  with the smallest counter whose SHA-1 starts with \<open>bits\<close> zero bits; no stamp is given only when
  none of the \<open>2^32 - 1\<close> counters has that property. The search always returns.\<close>

theorem mint_pow_correct:
  assumes "\<And>d. length (sha1 E d) = 20" and "bits \<le> 160"
    and "shyake_mint_pow E resource bits w = (r, w')"
  shows "let stamp = pow_header (int bits) (strftime_utc E ''%y%m%d'' (clock w)) resource
                       (pow_rand_str (fst (pow_rand w)));
             ok = (\<lambda>c. \<forall>i<bits. \<not> leading_bit (sha1 E (bytes_of (stamp c))) i)
         in (case r of
               Some h \<Rightarrow> (\<exists>c. h = stamp c \<and> ok c \<and> (\<forall>d<c. \<not> ok d))
             | None \<Rightarrow> (\<forall>c<0xFFFFFFFF. \<not> ok c))"
proof -
  let ?stamp = "pow_header (int bits) (strftime_utc E ''%y%m%d'' (clock w)) resource
                  (pow_rand_str (fst (pow_rand w)))"
  have r: "r = pow_loop E bits ?stamp 0"
    using assms(3) by (auto simp: shyake_mint_pow_def Let_def split: prod.splits)
  have m: "(\<forall>i<bits. \<not> leading_bit (sha1 E d) i) \<longleftrightarrow> pow_match bits (sha1 E d)" for d
    using pow_match_iff [of bits "sha1 E d"] assms(1,2) by simp
  show ?thesis
  proof (cases r)
    case None
    then show ?thesis using pow_loop_None [of E bits ?stamp 0] r by (simp add: Let_def m)
  next
    case (Some h)
    then obtain d where "h = ?stamp d" "pow_match bits (sha1 E (bytes_of h))"
      "\<forall>e<d. \<not> pow_match bits (sha1 E (bytes_of (?stamp e)))"
      using pow_loop_Some [of E bits ?stamp 0 h] r by auto
    then show ?thesis using Some by (auto simp: Let_def m)
  qed
qed

theorem mint_pow_correct_witness:
  "\<exists>w'. shyake_mint_pow toy ''ann'' 20 world0 = (Some ''1:20:1700000000:ann::ffffffffffff:0'', w') \<and>
     (\<forall>i<20. \<not> leading_bit (sha1 toy (bytes_of ''1:20:1700000000:ann::ffffffffffff:0'')) i)"
proof -
  let ?h = "''1:20:1700000000:ann::ffffffffffff:0''"
  have r12: "replicate 12 x = [x, x, x, x, x, x, x, x, x, x, x, x]" for x :: char
    by (simp add: numeral_eq_Suc)
  have r: "shyake_mint_pow toy ''ann'' 20 world0 = (Some ?h, world0\<lparr>entropy := replicate 188 5\<rparr>)"
    by (simp add: shyake_mint_pow_def pow_rand_def read_urandom_def world0_def toy_def pow_loop.simps
          pow_match_def pow_header_def pow_rand_str_def pow_charset_def show_hex.simps hex_digit_def
          show_int_def show_nat.simps list_all_length r12)
  have "length (sha1 toy d) = 20" for d by (simp add: toy_def)
  from mint_pow_correct [OF this _ r] r show ?thesis by (simp add: Let_def) metis
qed

end
