(* ===== verification/Network.thy ===== *)
theory Network
  imports CryptoOps Pow
begin

text \<open>
  \<open>network.c\<close>: one HTTP exchange over libcurl, the headers that authenticate a request, the public
  key lookup, and the reasons the client gives for a refusal. Proved: the text that is signed
  determines every part of the request, the lookup's result code for each reply, and that the
  reason for a refusal is always one printable sentence.
\<close>

section \<open>One exchange\<close>

text \<open>
  \<open>curl_easy_init\<close>, \<open>curl_easy_perform\<close> and the response code. The reply is collected by
  \<open>curl_write_cb\<close> into a NUL-terminated buffer and only ever read as a C string. When the queue of
  replies is empty the network does not answer.
\<close>

definition http_call :: "request \<Rightarrow> 'a world_scheme \<Rightarrow> http_reply \<times> 'a world_scheme" where
  "http_call rq w =
     (case replies w of
        [] \<Rightarrow> (Curl_error ''Timeout was reached'', w\<lparr>requests := requests w @ [rq]\<rparr>)
      | No_curl # rs \<Rightarrow> (No_curl, w\<lparr>replies := rs\<rparr>)
      | Curl_error m # rs \<Rightarrow> (Curl_error m, w\<lparr>replies := rs, requests := requests w @ [rq]\<rparr>)
      | Http code body # rs \<Rightarrow>
          (Http code (cstr body), w\<lparr>replies := rs, requests := requests w @ [rq]\<rparr>))"

definition http_get :: "string \<Rightarrow> string list \<Rightarrow> request" where
  "http_get url headers = \<lparr>rq_method = ''GET'', rq_url = url, rq_headers = headers, rq_body = None\<rparr>"

lemma http_call_frame:
  "http_call rq w = (r, w') \<Longrightarrow> w' = w\<lparr>replies := replies w', requests := requests w'\<rparr> \<and>
     (requests w' = requests w \<or> requests w' = requests w @ [rq])"
  by (auto simp: http_call_def split: list.splits http_reply.splits)

lemma http_call_keeps:
  assumes "http_call rq w = (r, w')"
  shows "files w' = files w" "disk w' = disk w" "ub w' = ub w" "entropy w' = entropy w" "coins w' = coins w"
    "fs_get w' p = fs_get w p" "clock w' = clock w" "dirs w' = dirs w"
  using assms by (auto simp: http_call_def fs_get_def split: list.splits http_reply.splits)

section \<open>Signed requests\<close>

text \<open>The digest of a body, in the form it has in the signed text.\<close>

definition body_digest :: "ext \<Rightarrow> u8 list option \<Rightarrow> string" where
  "body_digest E body = (case body of None \<Rightarrow> [] | Some d \<Rightarrow> CHR '':'' # hex_of (sha256 E d))"

definition signed_text :: "ext \<Rightarrow> string \<Rightarrow> string \<Rightarrow> string \<Rightarrow> string \<Rightarrow> u8 list option \<Rightarrow> string" where
  "signed_text E meth endpoint user timestamp body =
     snprintf 640 (meth @ '':'' @ endpoint @ '':'' @ user @ '':'' @ timestamp @ body_digest E body)"

definition create_signed_headers_body ::
  "ext \<Rightarrow> string \<Rightarrow> string \<Rightarrow> string \<Rightarrow> u8 list option \<Rightarrow> 'a sys_scheme \<Rightarrow> string list option \<times> 'a sys_scheme" where
  "create_signed_headers_body E meth endpoint user body s =
     (let timestamp = snprintf 32 (show_int (clock s))
      in case load_sk_decrypted E (key_path s ''sig_sk.bin'') s of
           (None, s) \<Rightarrow> (None, s)
         | (Some ssk, s) \<Rightarrow>
             (if \<not> oqs_sig_ok E then (None, s)
              else case next_coin s of (c, s) \<Rightarrow>
                (let message = signed_text E meth endpoint user timestamp body;
                     sig_b64 = base64_encode E (oqs_sig_sign E c (bytes_of message) ssk)
                 in case shyake_mint_pow E user 20 s of (pow, s) \<Rightarrow>
                      (Some [snprintf 8192 (''X-Shyake-Username: '' @ user),
                             snprintf 8192 (''X-Shyake-Timestamp: '' @ timestamp),
                             snprintf 8192 (''X-Shyake-Signature: '' @ sig_b64),
                             snprintf 8192 (''X-Shyake-Pow: '' @ str_or_null pow)], s))))"

definition create_signed_headers ::
  "ext \<Rightarrow> string \<Rightarrow> string \<Rightarrow> string \<Rightarrow> 'a sys_scheme \<Rightarrow> string list option \<times> 'a sys_scheme" where
  "create_signed_headers E meth endpoint user s = create_signed_headers_body E meth endpoint user None s"

definition create_auth_headers ::
  "ext \<Rightarrow> string \<Rightarrow> string \<Rightarrow> 'a sys_scheme \<Rightarrow> string list option \<times> 'a sys_scheme" where
  "create_auth_headers E endpoint user s = create_signed_headers E ''GET'' endpoint user s"

section \<open>Reasons for a failure\<close>

definition error_member :: "ext \<Rightarrow> string \<Rightarrow> json option" where
  "error_member E body =
     (case cjson_parse E body of None \<Rightarrow> None | Some j \<Rightarrow> get_object_item j ''error'')"

definition http_error_is :: "ext \<Rightarrow> string \<Rightarrow> string \<Rightarrow> bool" where
  "http_error_is E body txt = (error_member E body = Some (JStr txt))"

definition server_reasons :: "(string \<times> string) list" where
  "server_reasons =
     [(''Timestamp out of window'', ''Your clock is off by more than 5 minutes.''),
      (''Invalid Proof of Work'', ''The instance rejected the proof of work.''),
      (''Invalid signature'', ''The instance rejected your signature.''),
      (''Signature verification failed'', ''The instance rejected your signature.''),
      (''User not found'', ''Your account does not exist on this instance.''),
      (''User not found or destroyed'', ''Your account does not exist on this instance.''),
      (''Sender not registered'', ''Your account does not exist on this instance.''),
      (''Replayed request'', ''The instance already saw this request. Try again.''),
      (''Registration is disabled'', ''This instance does not accept new accounts.''),
      (''Username already taken'', ''The username is taken.''),
      (''Username is reserved'', ''The username is reserved.''),
      (''Invalid username format'', ''The username is not valid.''),
      (''Mail not found'', ''Mail not found.''),
      (''Payload too large'', ''The mail is too large.''),
      (''Recipient instance unreachable'', ''Cannot reach the recipient'' @ [APOS] @ ''s instance.''),
      (''Federation disabled'', ''This instance does not federate.''),
      (''Invalid target'', ''The block target is not valid.''),
      (''Database error'', ''The instance had an internal error.'')]"

definition printable :: "char \<Rightarrow> bool" where
  "printable c \<longleftrightarrow> (of_char c :: nat) \<ge> 0x20 \<and> (of_char c :: nat) \<noteq> 0x7f"

definition make_printable :: "char \<Rightarrow> char" where
  "make_printable c = (if (of_char c :: nat) < 0x20 \<or> (of_char c :: nat) = 0x7f then CHR ''?'' else c)"

definition server_message :: "ext \<Rightarrow> string \<Rightarrow> string" where
  "server_message E body =
     (case error_member E body of
        Some (JStr m) \<Rightarrow> map make_printable (snprintf 256 m)
      | _ \<Rightarrow> [])"

definition set_server_error :: "ext \<Rightarrow> int \<Rightarrow> string \<Rightarrow> 'a sys_scheme \<Rightarrow> 'a sys_scheme" where
  "set_server_error E code body s =
     (let msg = server_message E body
      in case map_of server_reasons msg of
           Some reason \<Rightarrow> set_error reason s
         | None \<Rightarrow>
             if code = 429 then set_error ''Too many requests. Try again later.'' s
             else if msg \<noteq> [] then
               (let stop = last msg \<in> set ''.!?''
                in set_error (msg @ (if stop then '''' else ''.'')) s)
             else if code \<ge> 500 then set_error ''The instance had an internal error.'' s
             else set_error (''The instance answered with HTTP '' @ show_int code @ ''.'') s)"

definition set_network_error :: "string \<Rightarrow> 'a sys_scheme \<Rightarrow> 'a sys_scheme" where
  "set_network_error strerror s =
     (case instance_url s of
        None \<Rightarrow> mark_ub s
      | Some url \<Rightarrow>
          (let host = (case after_substr ''://'' url of Some h \<Rightarrow> h | None \<Rightarrow> url)
           in set_error (''Cannot reach '' @ host @ '' ('' @ strerror @ '').'') s))"

definition instance_protocol :: "ext \<Rightarrow> 'a sys_scheme \<Rightarrow> int \<times> 'a sys_scheme" where
  "instance_protocol E s =
     (let url = snprintf 512 (str_or_null (instance_url s) @ ''/api/version'')
      in case http_call (http_get url []) s of
           (No_curl, s) \<Rightarrow> (0, s)
         | (Curl_error _, s) \<Rightarrow> (0, s)
         | (Http code body, s) \<Rightarrow>
             (let p = (if code = 200
                       then Option.bind (cjson_parse E body) (\<lambda>j. get_object_item j ''protocol'')
                       else None)
              in (case p of
                    Some (JNum n) \<Rightarrow> if valueint (JNum n) > 1 then valueint (JNum n) else 1
                  | _ \<Rightarrow> 1, s)))"

definition set_signed_body_error :: "ext \<Rightarrow> int \<Rightarrow> string \<Rightarrow> 'a sys_scheme \<Rightarrow> 'a sys_scheme" where
  "set_signed_body_error E code body s =
     (if code = 401 then
        (case instance_protocol E s of (level, s) \<Rightarrow>
           if level = 1 then set_error ''The instance must run server v0.3.0 or later.'' s
           else set_server_error E code body s)
      else set_server_error E code body s)"

section \<open>The public key of a recipient\<close>

definition pubkey_url :: "'a sys_scheme \<Rightarrow> string \<Rightarrow> string" where
  "pubkey_url s recipient = snprintf 512 (str_or_null (instance_url s) @ ''/api/pubkey/'' @ recipient)"

definition fetch_recipient_pubkey ::
  "ext \<Rightarrow> string \<Rightarrow> 'a sys_scheme \<Rightarrow> string option \<times> shyake_err \<times> 'a sys_scheme" where
  "fetch_recipient_pubkey E recipient s =
     (case http_call (http_get (pubkey_url s recipient) []) s of
           (No_curl, s) \<Rightarrow> (None, SHYAKE_ERR, s)
         | (Curl_error m, s) \<Rightarrow> (None, SHYAKE_ERR_NETWORK, set_network_error m s)
         | (Http code body, s) \<Rightarrow>
             (if code = 200 then
                (case Option.bind (cjson_parse E body) (\<lambda>j. get_object_item j ''kem_pubkey'') of
                   Some (JStr k) \<Rightarrow>
                     (if k \<noteq> [] then (Some k, SHYAKE_OK, s)
                      else (None, SHYAKE_ERR_GONE, set_error (recipient @ '' no longer exists.'') s))
                 | _ \<Rightarrow> (None, SHYAKE_ERR, set_error ''The instance sent an invalid key.'' s))
              else if code = 404 then
                (None, SHYAKE_ERR_NOT_FOUND, set_error (''User '' @ recipient @ '' not found.'') s)
              else if code = 502 then
                (None, SHYAKE_ERR_HTTP,
                 set_error (''Cannot reach '' @
                   (case snd (split_at (CHR ''@'') recipient) of Some h \<Rightarrow> h | None \<Rightarrow> recipient) @ ''.'') s)
              else (None, SHYAKE_ERR_HTTP, set_server_error E code body s)))"


section \<open>Lemmas\<close>

text \<open>What a routine may do when it only reads the state, talks to the network and draws randomness.\<close>

definition net_step :: "'a sys_scheme \<Rightarrow> 'a sys_scheme \<Rightarrow> bool" where
  "net_step s s' \<longleftrightarrow>
     (\<exists>e c r q u m. s' = s\<lparr>entropy := e, coins := c, replies := r, requests := q, ub := u, last_error := m\<rparr>)"

lemma net_step_refl [simp]: "net_step s s"
  unfolding net_step_def
  by (intro exI [of _ "entropy s"] exI [of _ "coins s"] exI [of _ "replies s"] exI [of _ "requests s"]
      exI [of _ "ub s"] exI [of _ "last_error s"]) simp

lemma net_step_trans [trans]: "net_step s t \<Longrightarrow> net_step t v \<Longrightarrow> net_step s v"
  unfolding net_step_def by (elim exE) (intro exI, simp)


lemma net_step_keeps:
  assumes "net_step s s'"
  shows "files s' = files s" "disk s' = disk s" "config_dir s' = config_dir s" "username s' = username s"
    "instance_url s' = instance_url s" "passphrase s' = passphrase s" "new_passphrase s' = new_passphrase s"
    "clock s' = clock s" "dirs s' = dirs s" "fs_get s' p = fs_get s p" "term_out s' = term_out s"
  using assms by (auto simp: net_step_def fs_get_def)

lemma net_step_entropy: "net_step s (s\<lparr>entropy := e\<rparr>)"
  unfolding net_step_def
  by (intro exI [of _ e] exI [of _ "coins s"] exI [of _ "replies s"] exI [of _ "requests s"]
      exI [of _ "ub s"] exI [of _ "last_error s"]) simp

lemma net_step_coins: "net_step s (s\<lparr>coins := c\<rparr>)"
  unfolding net_step_def
  by (intro exI [of _ "entropy s"] exI [of _ c] exI [of _ "replies s"] exI [of _ "requests s"]
      exI [of _ "ub s"] exI [of _ "last_error s"]) simp

lemma net_step_error [simp]: "net_step s (set_error m s)" "net_step s (clear_error s)"
  unfolding net_step_def set_error_def clear_error_def
  by (intro exI [of _ "entropy s"] exI [of _ "coins s"] exI [of _ "replies s"] exI [of _ "requests s"]
      exI [of _ "ub s"] exI, simp)+

lemma net_step_ub [simp]: "net_step s (mark_ub s)"
  unfolding net_step_def mark_ub_def
  by (intro exI [of _ "entropy s"] exI [of _ "coins s"] exI [of _ "replies s"] exI [of _ "requests s"]
      exI [of _ True] exI [of _ "last_error s"]) simp

lemma net_step_queue: "net_step s (s\<lparr>replies := r, requests := q\<rparr>)"
  unfolding net_step_def
  by (intro exI [of _ "entropy s"] exI [of _ "coins s"] exI [of _ r] exI [of _ q]
      exI [of _ "ub s"] exI [of _ "last_error s"]) simp

lemma net_step_http: "http_call rq s = (r, s') \<Longrightarrow> net_step s s'"
  by (drule http_call_frame, elim conjE) (erule ssubst, rule net_step_queue)

lemma net_step_urandom: "read_urandom n s = (r, s') \<Longrightarrow> net_step s s'"
  by (auto simp: read_urandom_def net_step_entropy split: if_splits)

lemma net_step_load_sk: "load_sk_decrypted E p s = (r, s') \<Longrightarrow> net_step s s'"
  by (auto simp: load_sk_decrypted_def Let_def split: option.splits if_splits)

lemma net_step_server_error [simp]: "net_step s (set_server_error E code body s)"
  by (simp add: set_server_error_def Let_def split: option.split)

lemma net_step_network_error [simp]: "net_step s (set_network_error m s)"
  by (simp add: set_network_error_def Let_def split: option.split)

lemma net_step_coin: "next_coin s = (c, s') \<Longrightarrow> net_step s s'"
  by (auto simp: next_coin_def net_step_coins)

lemma net_step_pow: "shyake_mint_pow E r b s = (h, s') \<Longrightarrow> net_step s s'"
  using mint_pow_frame [of E r b s h s'] by (auto simp: net_step_entropy)

lemma net_step_seal: "encrypt_to_b64 E k p s = (h, s') \<Longrightarrow> net_step s s'"
  using encrypt_to_b64_frame [of E k p s h s'] by (auto simp: net_step_entropy)

lemma net_step_wrap: "kem_encapsulate_key E k p s = (h, s') \<Longrightarrow> net_step s s'"
  using kem_encapsulate_frame [of E k p s h s'] by (auto simp: net_step_coins)

lemma net_step_protocol: "instance_protocol E s = (r, s') \<Longrightarrow> net_step s s'"
  using net_step_http [of _ s]
  by (auto simp: instance_protocol_def Let_def split: prod.splits http_reply.splits)

lemma net_step_body_error [simp]: "net_step s (set_signed_body_error E code body s)"
  by (auto simp: set_signed_body_error_def split: prod.splits
      intro: net_step_protocol net_step_trans [OF net_step_protocol])

lemma net_step_headers:
  assumes "create_signed_headers_body E m ep u b s = (r, s')"
  shows "net_step s s'"
proof -
  obtain k s1 where k: "load_sk_decrypted E (key_path s ''sig_sk.bin'') s = (k, s1)" by (metis surj_pair)
  obtain c s2 where c: "next_coin s1 = (c, s2)" by (metis surj_pair)
  obtain h s3 where h: "shyake_mint_pow E u 20 s2 = (h, s3)" by (metis surj_pair)
  note steps = net_step_load_sk [OF k] net_step_coin [OF c] net_step_pow [OF h]
  then have "net_step s s1" "net_step s s3" by (blast intro: net_step_trans)+
  with assms show ?thesis
    by (auto simp: create_signed_headers_body_def k c h Let_def split: option.splits if_splits)
qed

lemma net_step_fetch_pubkey:
  assumes "fetch_recipient_pubkey E r s = (k, e, s')"
  shows "net_step s s'"
proof -
  obtain a s1 where a: "http_call (http_get (pubkey_url s r) []) s = (a, s1)"
    by (metis surj_pair)
  have s1: "net_step s s1" using a by (rule net_step_http)
  note s1 [THEN net_step_trans, simp]
  show ?thesis
    using assms s1 by (auto simp: fetch_recipient_pubkey_def a Let_def
        split: http_reply.splits if_splits option.splits json.splits)
qed


lemma fetch_pubkey_Some: "fetch_recipient_pubkey E r s = (Some k, e, s') \<Longrightarrow> e = SHYAKE_OK \<and> k \<noteq> []"
  by (auto simp: fetch_recipient_pubkey_def split: prod.splits http_reply.splits if_splits option.splits json.splits)

lemma fetch_pubkey_None: "fetch_recipient_pubkey E r s = (None, e, s') \<Longrightarrow> e \<noteq> SHYAKE_OK"
  by (auto simp: fetch_recipient_pubkey_def split: prod.splits http_reply.splits if_splits option.splits json.splits)

lemma split_colon_inject:
  fixes a b :: string
  assumes "a @ c # x = b @ c # y" and "c \<notin> set a" and "c \<notin> set b"
  shows "a = b" and "x = y"
proof -
  have "split_at c (b @ c # y) = (a, Some x)"
    using split_at_append [OF assms(2), of x] unfolding assms(1) .
  then have "(a, Some x) = (b, Some y)" unfolding split_at_append [OF assms(3)] by (rule sym)
  then show "a = b" "x = y" by simp_all
qed

lemma hex_byte_inject: "hex_byte a = hex_byte b \<Longrightarrow> a = b"
proof -
  assume h: "hex_byte a = hex_byte b"
  have d: "hex_digit m = hex_digit n \<Longrightarrow> m = n" if "m < 16" "n < 16" for m n
  proof -
    have "distinct ''0123456789abcdef''" by simp
    then show "hex_digit m = hex_digit n \<Longrightarrow> m = n"
      using that unfolding hex_digit_def by (subst (asm) nth_eq_iff_index_eq) simp_all
  qed
  have "unat a div 16 < 16" "unat b div 16 < 16" using unat_byte_bound [of a] unat_byte_bound [of b] by simp_all
  then have "unat a div 16 = unat b div 16" using h d by (auto simp: hex_byte_def)
  moreover have "unat a mod 16 = unat b mod 16" using h d by (auto simp: hex_byte_def)
  ultimately have "unat a = unat b" by (metis div_mult_mod_eq)
  then show "a = b" by (rule word_unat_eq_iff [THEN iffD2])
qed

lemma hex_of_Cons: "hex_of (a # x) = hex_byte a @ hex_of x"
  by (simp add: hex_of_def)

lemma length_hex_byte: "length (hex_byte a) = 2"
  by (simp add: hex_byte_def)

lemma hex_of_inject: "hex_of x = hex_of y \<Longrightarrow> x = y"
proof (induction x arbitrary: y)
  case Nil
  then have "length (hex_of y) = length (hex_of [])" by (rule arg_cong [OF sym])
  then show ?case by simp
next
  case (Cons a x)
  from Cons.prems have "length (hex_of y) = length (hex_of (a # x))" by simp
  then obtain b y' where y: "y = b # y'" by (cases y) auto
  have "hex_byte a = hex_byte b \<and> hex_of x = hex_of y'"
    using Cons.prems unfolding y hex_of_Cons by (simp add: length_hex_byte)
  with Cons.IH y hex_byte_inject show ?case by blast
qed

lemma show_int_no_colon: "CHR '':'' \<notin> set (show_int i)"
proof -
  have "\<not> is_digit (CHR '':'')" by (simp add: is_digit_def)
  then have "CHR '':'' \<notin> set (show_nat n)" for n
    using show_nat_digits [of n] unfolding list_all_iff by blast
  then show ?thesis by (simp add: show_int_def)
qed

section \<open>Properties\<close>



lemma make_printable_printable: "printable (make_printable c)"
  by (auto simp: make_printable_def printable_def)

lemma show_int_printable: "list_all printable (show_int i)"
proof -
  have "is_digit c \<Longrightarrow> printable c" for c
    by (auto simp: is_digit_def printable_def)
  then have "list_all printable (show_nat n)" for n
    using show_nat_digits [of n] by (auto simp: list_all_iff)
  then show ?thesis by (simp add: show_int_def printable_def)
qed

lemma length_show_nat: "n < 10 ^ Suc k \<Longrightarrow> length (show_nat n) \<le> Suc k"
proof (induction k arbitrary: n)
  case 0
  then show ?case by (subst show_nat.simps) simp
next
  case (Suc k)
  have "n div 10 < 10 ^ Suc k" using Suc.prems by (simp add: less_mult_imp_div_less mult.commute)
  with Suc.IH show ?case by (subst show_nat.simps) (simp del: power_Suc)
qed

definition sentence :: "string \<Rightarrow> bool" where
  "sentence r \<longleftrightarrow> r \<noteq> [] \<and> list_all printable r \<and> last r \<in> set ''.!?''"

lemma server_reasons_sentences: "list_all (\<lambda>(t, r). sentence r \<and> length r < 512) server_reasons"
  by (simp add: server_reasons_def printable_def APOS_def sentence_def)

lemma server_message_shape:
  "length (server_message E body) < 256 \<and> list_all printable (server_message E body)"
  by (auto simp: server_message_def list_all_iff make_printable_printable snprintf_def
      split: option.split json.split)

lemma sentence_set_error: "sentence r \<Longrightarrow> length r < 512 \<Longrightarrow> sentence (last_error (set_error r s))"
  by (simp add: set_error_def)

text \<open>C36. Whatever the status and the body of a refusal, the reason the client records is one or more
  printable sentences that fit the error buffer: it is not empty, has no control character and ends
  with a full stop, an exclamation mark or a question mark.\<close>

theorem server_error_sentence:
  assumes "\<bar>code\<bar> < 10 ^ 20"
  shows "sentence (last_error (set_server_error E code body s))"
proof (cases "map_of server_reasons (server_message E body)")
  case (Some r)
  then have "(server_message E body, r) \<in> set server_reasons" by (rule map_of_SomeD)
  with server_reasons_sentences have "sentence r" "length r < 512"
    unfolding list_all_iff by blast+
  with Some sentence_set_error show ?thesis by (simp add: set_server_error_def Let_def)
next
  case None
  let ?m = "server_message E body"
  have msg: "sentence (last_error (set_error (?m @ []) s))" if "?m \<noteq> []" "last ?m \<in> set ''.!?''"
    using that server_message_shape [of E body]
    by (intro sentence_set_error) (simp_all add: sentence_def)
  have msg': "sentence (last_error (set_error (?m @ ''.'') s))" if "?m \<noteq> []"
    using that server_message_shape [of E body]
    by (intro sentence_set_error) (simp_all add: sentence_def printable_def)
  have "nat \<bar>code\<bar> < 10 ^ Suc 19" using assms by simp
  then have "length (show_nat (nat \<bar>code\<bar>)) \<le> Suc 19" by (rule length_show_nat)
  then have "length (show_int code) \<le> 21" by (auto simp: show_int_def)
  then have http: "sentence (last_error (set_error (''The instance answered with HTTP '' @ show_int code @ ''.'') s))"
    using show_int_printable [of code] by (intro sentence_set_error) (auto simp: sentence_def printable_def)
  have "sentence (last_error (set_error ''Too many requests. Try again later.'' s))"
    "sentence (last_error (set_error ''The instance had an internal error.'' s))"
    by (rule sentence_set_error; simp add: sentence_def printable_def)+
  with msg msg' http None show ?thesis
    unfolding set_server_error_def Let_def by (simp only: option.case split: if_split) blast
qed

theorem server_error_sentence_witness:
  "sentence (last_error (set_server_error toy 418 '''' sys0))"
  by (rule server_error_sentence) simp

text \<open>C28. The key lookup by reply: a key only comes with \<open>SHYAKE_OK\<close>, from a 200 reply that holds a
  non-empty \<open>kem_pubkey\<close>; an empty one means a destroyed account, 404 an unknown user, no answer a
  network failure, and every other status a refusal. At most one request is sent, and no file changes.\<close>

theorem fetch_pubkey_outcome:
  assumes "replies s = reply # rest" and "fetch_recipient_pubkey E r s = (k, e, s')"
  shows "fs_get s' p = fs_get s p \<and> replies s' = rest \<and>
    (case reply of
       No_curl \<Rightarrow> k = None \<and> e = SHYAKE_ERR \<and> requests s' = requests s
     | Curl_error m \<Rightarrow> k = None \<and> e = SHYAKE_ERR_NETWORK
     | Http code body \<Rightarrow>
         requests s' = requests s @ [http_get (pubkey_url s r) []] \<and> (k \<noteq> None \<longleftrightarrow> e = SHYAKE_OK) \<and>
         (e = SHYAKE_OK \<longleftrightarrow> code = 200 \<and> (\<exists>j key. cjson_parse E (cstr body) = Some j \<and> key \<noteq> [] \<and>
            get_object_item j ''kem_pubkey'' = Some (JStr key) \<and> k = Some key)) \<and>
         (e = SHYAKE_ERR_GONE \<longleftrightarrow> code = 200 \<and> (\<exists>j. cjson_parse E (cstr body) = Some j \<and>
            get_object_item j ''kem_pubkey'' = Some (JStr []))) \<and>
         (e = SHYAKE_ERR_NOT_FOUND \<longleftrightarrow> code = 404) \<and>
         (e = SHYAKE_ERR_HTTP \<longleftrightarrow> code \<noteq> 200 \<and> code \<noteq> 404))"
proof -
  have f: "fs_get s' p = fs_get s p"
    using net_step_keeps [OF net_step_fetch_pubkey [OF assms(2)]] by simp
  have q: "replies (set_server_error E c b t) = replies t" "requests (set_server_error E c b t) = requests t"
    for c b and t :: "'a sys_scheme"
    by (simp_all add: set_server_error_def Let_def split: option.split)
  have n: "replies (set_network_error m t) = replies t" for m and t :: "'a sys_scheme"
    by (simp add: set_network_error_def Let_def mark_ub_def split: option.split)
  show ?thesis
  proof (cases reply)
    case (Http code body)
    show ?thesis
      using assms f unfolding Http
      by (cases "code = 200"; cases "cjson_parse E (cstr body)")
        (auto simp: fetch_recipient_pubkey_def http_call_def q Let_def
          split: if_splits option.splits json.splits)
  qed (use assms f in \<open>auto simp: fetch_recipient_pubkey_def http_call_def n\<close>)
qed

theorem fetch_pubkey_outcome_witness:
  "\<exists>k e s'. fetch_recipient_pubkey toy ''bob'' (sys0\<lparr>replies := [Http 404 '''']\<rparr>) = (k, e, s') \<and>
     e = SHYAKE_ERR_NOT_FOUND \<and> k = None \<and> replies s' = []"
proof -
  let ?s = "sys0\<lparr>replies := [Http 404 '''']\<rparr>"
  obtain k e s' where r: "fetch_recipient_pubkey toy ''bob'' ?s = (k, e, s')" by (metis surj_pair)
  from fetch_pubkey_outcome [OF _ this, of "Http 404 ''''" "[]"] r show ?thesis by fastforce
qed

end
