(* ===== verification/KnownHosts.thy ===== *)
theory KnownHosts
  imports Network
begin

text \<open>
  \<open>known_hosts.c\<close>: the file of pinned keys, one \<open>user fingerprint key\<close> line per user, and the
  fingerprint command's library routine. The file is related to a list of entries, and its
  operations are shown to be a store in the sense of the locale \<open>pinning_store\<close>: writing replaces
  one user's key, adding never replaces a key that is already pinned.
\<close>

section \<open>Interfaces\<close>

locale key_store =
  fixes get :: "'s \<Rightarrow> 'k \<Rightarrow> 'v option"
    and put :: "'k \<Rightarrow> 'f \<Rightarrow> 'v \<Rightarrow> 's \<Rightarrow> 's"
    and fits :: "'k \<Rightarrow> 'f \<Rightarrow> 'v \<Rightarrow> 's \<Rightarrow> bool"
    and inv :: "'s \<Rightarrow> bool"
  assumes get_put: "inv s \<Longrightarrow> fits k f v s \<Longrightarrow> get (put k f v s) j = (if j = k then Some v else get s j)"
    and inv_put: "inv s \<Longrightarrow> fits k f v s \<Longrightarrow> inv (put k f v s)"
begin

lemma get_put_same: "inv s \<Longrightarrow> fits k f v s \<Longrightarrow> get (put k f v s) k = Some v"
  by (simp add: get_put)

lemma get_put_other: "inv s \<Longrightarrow> fits k f v s \<Longrightarrow> j \<noteq> k \<Longrightarrow> get (put k f v s) j = get s j"
  by (simp add: get_put)

lemma put_overrides:
  assumes "inv s" and "fits k f v s" and "fits k g w (put k f v s)" and "fits k g w s"
  shows "get (put k g w (put k f v s)) = get (put k g w s)"
  using assms inv_put by (auto simp: get_put fun_eq_iff)

lemma put_commutes:
  assumes "inv s" and "fits k f v s" and "fits j g w (put k f v s)"
    and "fits j g w s" and "fits k f v (put j g w s)" and "j \<noteq> k"
  shows "get (put j g w (put k f v s)) = get (put k f v (put j g w s))"
  using assms inv_put by (auto simp: get_put fun_eq_iff)

end

text \<open>A store that can also add an entry without replacing one: trust on first use.\<close>

locale pinning_store = key_store get put fits inv
  for get :: "'s \<Rightarrow> 'k \<Rightarrow> 'v option" and put :: "'k \<Rightarrow> 'f \<Rightarrow> 'v \<Rightarrow> 's \<Rightarrow> 's"
    and fits :: "'k \<Rightarrow> 'f \<Rightarrow> 'v \<Rightarrow> 's \<Rightarrow> bool" and inv :: "'s \<Rightarrow> bool" +
  fixes add :: "'k \<Rightarrow> 'f \<Rightarrow> 'v \<Rightarrow> 's \<Rightarrow> 's"
  assumes get_add: "inv s \<Longrightarrow> fits k f v s \<Longrightarrow>
      get (add k f v s) j = (if j = k \<and> get s k = None then Some v else get s j)"
    and inv_add: "inv s \<Longrightarrow> fits k f v s \<Longrightarrow> inv (add k f v s)"
begin

lemma pinned_stays: "inv s \<Longrightarrow> fits k f v s \<Longrightarrow> get s j = Some w \<Longrightarrow> get (add k f v s) j = Some w"
  by (auto simp: get_add)

lemma first_use: "inv s \<Longrightarrow> fits k f v s \<Longrightarrow> get s k = None \<Longrightarrow> get (add k f v s) k = Some v"
  by (simp add: get_add)

lemma put_pins:
  "inv s \<Longrightarrow> fits k f v s \<Longrightarrow> fits j g w (put k f v s) \<Longrightarrow> get (add j g w (put k f v s)) k = Some v"
  by (rule pinned_stays) (auto simp: get_put intro: inv_put)

end

section \<open>The file\<close>

definition hosts_path :: "string \<Rightarrow> string" where
  "hosts_path dir = snprintf 512 (dir @ ''/known_hosts'')"

definition hosts_tmp :: "string \<Rightarrow> string" where
  "hosts_tmp dir = snprintf 512 (dir @ ''/known_hosts.tmp'')"

definition host_line :: "string \<times> string \<times> string \<Rightarrow> string" where
  "host_line e = (case e of (user, fp, pk) \<Rightarrow> user @ '' '' @ fp @ '' '' @ pk @ [NL])"

text \<open>\<open>sscanf(line, "%255s %255s %8191s", ...) == 3\<close>.\<close>

definition scan_host :: "string \<Rightarrow> (string \<times> string \<times> string) option" where
  "scan_host line =
     (case scan_word 255 line of
        None \<Rightarrow> None
      | Some (user, r) \<Rightarrow>
          (case scan_word 255 r of
             None \<Rightarrow> None
           | Some (fp, r) \<Rightarrow>
               (case scan_word 8191 r of
                  None \<Rightarrow> None
                | Some (pk, _) \<Rightarrow> Some (user, fp, pk))))"

fun find_host :: "string \<Rightarrow> string list \<Rightarrow> string option" where
  "find_host user [] = None"
| "find_host user (l # ls) =
     (case scan_host l of
        Some (u, _, pk) \<Rightarrow> (if u = user then Some pk else find_host user ls)
      | None \<Rightarrow> find_host user ls)"

definition host_lines :: "'a world_scheme \<Rightarrow> string \<Rightarrow> string list" where
  "host_lines w path = (case fs_get w path of None \<Rightarrow> [] | Some d \<Rightarrow> fgets_all 8192 (text_of d))"

definition get_known_host :: "'a world_scheme \<Rightarrow> string \<Rightarrow> string \<Rightarrow> string option" where
  "get_known_host w dir user = find_host user (host_lines w (hosts_path dir))"

text \<open>\<open>fopen(path, "a")\<close> and one \<open>fprintf\<close>.\<close>

definition append_file :: "string \<Rightarrow> u8 list \<Rightarrow> 'a world_scheme \<Rightarrow> 'a world_scheme" where
  "append_file path d w =
     (case disk w path of
        None \<Rightarrow> w
      | Some cap \<Rightarrow> fs_put path ((case fs_get w path of None \<Rightarrow> [] | Some old \<Rightarrow> old) @ take cap d) w)"

definition add_known_host :: "string \<Rightarrow> string \<Rightarrow> string \<Rightarrow> string \<Rightarrow> 'a world_scheme \<Rightarrow> 'a world_scheme" where
  "add_known_host dir user fp pk w = append_file (hosts_path dir) (bytes_of (host_line (user, fp, pk))) w"

definition rename_file :: "string \<Rightarrow> string \<Rightarrow> 'a world_scheme \<Rightarrow> 'a world_scheme" where
  "rename_file old new w = (case fs_get w old of None \<Rightarrow> w | Some d \<Rightarrow> fs_put new d (fs_del old w))"

definition other_hosts :: "string \<Rightarrow> string list \<Rightarrow> string" where
  "other_hosts user ls =
     concat (map (\<lambda>l. case scan_host l of
                     Some e \<Rightarrow> if fst e \<noteq> user then host_line e else []
                   | None \<Rightarrow> []) ls)"

text \<open>
  The rewrite: opening the temporary file truncates it, also when both paths have been cut to the
  same 511 characters and it is the file being read.
\<close>

definition update_known_host :: "string \<Rightarrow> string \<Rightarrow> string \<Rightarrow> string \<Rightarrow> 'a world_scheme \<Rightarrow> 'a world_scheme" where
  "update_known_host dir user fp pk w =
     (let path = hosts_path dir; tmp = hosts_tmp dir;
          ls = (if tmp = path then [] else host_lines w path);
          out = other_hosts user ls @ host_line (user, fp, pk)
      in case write_file tmp (bytes_of out) w of
           (None, w) \<Rightarrow> w
         | (Some _, w) \<Rightarrow> rename_file tmp path w)"

section \<open>The file as a list of entries\<close>

type_synonym host = "string \<times> string \<times> string"

definition host_ok :: "host \<Rightarrow> bool" where
  "host_ok e = (case e of (u, fp, pk) \<Rightarrow>
     word_ok 255 u \<and> word_ok 255 fp \<and> word_ok 8191 pk \<and> nul_free u \<and> nul_free fp \<and> nul_free pk \<and>
     length u + length fp + length pk < 8188)"

definition hosts_text :: "host list \<Rightarrow> string" where
  "hosts_text es = concat (map host_line es)"

definition hosts_file :: "string \<Rightarrow> 'a world_scheme \<Rightarrow> host list \<Rightarrow> bool" where
  "hosts_file dir w es \<longleftrightarrow>
     list_all host_ok es \<and>
     (fs_get w (hosts_path dir) = Some (bytes_of (hosts_text es)) \<or>
      fs_get w (hosts_path dir) = None \<and> es = [])"

definition pins :: "host list \<Rightarrow> string \<Rightarrow> string option" where
  "pins es u = map_of (map (\<lambda>(u, fp, pk). (u, pk)) es) u"

lemma word_ok_no_space: "word_ok n w \<Longrightarrow> is_space c \<Longrightarrow> c \<notin> set w"
  by (auto simp: word_ok_def list_all_iff)

lemma is_space_consts [simp]: "is_space NL" "is_space (CHR '' '')" "is_space TAB" "is_space CR"
  by (simp_all add: is_space_def)

lemma scan_host_line:
  assumes "host_ok e"
  shows "scan_host (host_line e) = Some e"
proof -
  obtain u fp pk where e: "e = (u, fp, pk)" by (cases e)
  have "scan_word 255 (u @ CHR '' '' # fp @ CHR '' '' # pk @ [NL]) = Some (u, CHR '' '' # fp @ CHR '' '' # pk @ [NL])"
    "scan_word 255 (fp @ CHR '' '' # pk @ [NL]) = Some (fp, CHR '' '' # pk @ [NL])"
    "scan_word 8191 (pk @ [NL]) = Some (pk, [NL])"
    using assms by (auto simp: host_ok_def e intro!: scan_word_word)
  then show ?thesis by (simp add: scan_host_def host_line_def e scan_word_space)
qed

lemma fgets_hosts:
  "list_all host_ok es \<Longrightarrow> fgets_all 8192 (hosts_text es) = map host_line es"
proof (induction es)
  case (Cons e es)
  obtain u fp pk where e: "e = (u, fp, pk)" by (cases e)
  let ?l = "u @ '' '' @ fp @ '' '' @ pk"
  have l: "NL \<notin> set ?l" "nul_free ?l" "Suc (length ?l) < 8192"
    using Cons.prems word_ok_no_space [OF _ is_space_consts(1)] by (auto simp: host_ok_def e NL_def)
  have "hosts_text (e # es) = ?l @ NL # hosts_text es"
    by (simp add: hosts_text_def host_line_def e)
  moreover have "host_line e = ?l @ [NL]" by (simp add: host_line_def e)
  ultimately show ?case using fgets_all_line [OF l] Cons by simp
qed (simp add: hosts_text_def)

lemma find_host_lines:
  "list_all host_ok es \<Longrightarrow> find_host u (map host_line es) = pins es u"
  by (induction es) (auto simp: pins_def scan_host_line)

lemma host_lines_file: "hosts_file dir w es \<Longrightarrow> host_lines w (hosts_path dir) = map host_line es"
  unfolding hosts_file_def host_lines_def
  by (elim conjE disjE) (simp_all add: fgets_hosts)

lemma get_known_host_file: "hosts_file dir w es \<Longrightarrow> get_known_host w dir u = pins es u"
  using host_lines_file [of dir w es]
  by (simp add: get_known_host_def find_host_lines hosts_file_def)

lemma other_hosts_lines:
  "list_all host_ok es \<Longrightarrow> other_hosts u (map host_line es) = hosts_text (filter (\<lambda>e. fst e \<noteq> u) es)"
  by (induction es) (auto simp: other_hosts_def hosts_text_def scan_host_line)

lemma hosts_paths_differ: "length dir < 490 \<Longrightarrow> hosts_tmp dir \<noteq> hosts_path dir"
  by (simp add: hosts_tmp_def hosts_path_def)

text \<open>The path and the temporary take the file with one more entry.\<close>

definition host_fits :: "string \<Rightarrow> string \<Rightarrow> string \<Rightarrow> string \<Rightarrow> 'a world_scheme \<Rightarrow> bool" where
  "host_fits dir u fp pk w \<longleftrightarrow>
     host_ok (u, fp, pk) \<and> length dir < 490 \<and>
     (let n = length (case fs_get w (hosts_path dir) of None \<Rightarrow> [] | Some d \<Rightarrow> d) + length (host_line (u, fp, pk))
      in can_store w (hosts_tmp dir) n \<and> can_store w (hosts_path dir) n)"

lemma length_filter_hosts: "length (hosts_text (filter P es)) \<le> length (hosts_text es)"
  by (induction es) (auto simp: hosts_text_def)

lemma can_store_mono: "can_store w p n \<Longrightarrow> m \<le> n \<Longrightarrow> can_store w p m"
  by (auto simp: can_store_def)

lemma hosts_file_update:
  assumes "hosts_file dir w es" and "host_fits dir u fp pk w"
  shows "hosts_file dir (update_known_host dir u fp pk w) (filter (\<lambda>e. fst e \<noteq> u) es @ [(u, fp, pk)])"
proof -
  let ?out = "other_hosts u (host_lines w (hosts_path dir)) @ host_line (u, fp, pk)"
  have ok: "list_all host_ok es" using assms(1) by (simp add: hosts_file_def)
  have out: "?out = hosts_text (filter (\<lambda>e. fst e \<noteq> u) es @ [(u, fp, pk)])"
    by (simp add: host_lines_file [OF assms(1)] other_hosts_lines [OF ok] hosts_text_def)
  have ne: "hosts_tmp dir \<noteq> hosts_path dir" using assms(2) by (intro hosts_paths_differ) (simp add: host_fits_def)
  have "length (hosts_text es) = length (case fs_get w (hosts_path dir) of None \<Rightarrow> [] | Some d \<Rightarrow> d)"
    using assms(1) by (auto simp: hosts_file_def hosts_text_def)
  moreover have "length ?out \<le> length (hosts_text es) + length (host_line (u, fp, pk))"
    using length_filter_hosts [of "\<lambda>e. fst e \<noteq> u" es] unfolding out by (simp add: hosts_text_def)
  ultimately have "can_store w (hosts_tmp dir) (length (bytes_of ?out))"
    using assms(2) by (auto simp: host_fits_def Let_def intro: can_store_mono)
  then have "update_known_host dir u fp pk w =
      rename_file (hosts_tmp dir) (hosts_path dir) (fs_put (hosts_tmp dir) (bytes_of ?out) w)"
    using ne by (simp add: update_known_host_def Let_def write_file_ok)
  then have "fs_get (update_known_host dir u fp pk w) (hosts_path dir) = Some (bytes_of ?out)"
    by (simp add: rename_file_def store_simps)
  moreover have "list_all host_ok (filter (\<lambda>e. fst e \<noteq> u) es @ [(u, fp, pk)])"
    using ok assms(2) by (auto simp: list_all_iff host_fits_def)
  ultimately show ?thesis unfolding hosts_file_def out by blast
qed

lemma hosts_file_add:
  assumes "hosts_file dir w es" and "host_fits dir u fp pk w"
  shows "hosts_file dir (add_known_host dir u fp pk w) (es @ [(u, fp, pk)])"
proof -
  have "can_store w (hosts_path dir) (length (host_line (u, fp, pk)))"
    using assms(2) by (auto simp: host_fits_def Let_def intro: can_store_mono)
  then obtain cap where "disk w (hosts_path dir) = Some cap" "length (host_line (u, fp, pk)) \<le> cap"
    by (auto simp: can_store_def)
  then show ?thesis
    using assms by (auto simp: hosts_file_def add_known_host_def append_file_def store_simps hosts_text_def host_fits_def bytes_of_def)
qed

lemma pins_update: "pins (filter (\<lambda>e. fst e \<noteq> u) es @ [(u, fp, pk)]) v = (if v = u then Some pk else pins es v)"
  by (induction es) (auto simp: pins_def)

lemma pins_add: "pins (es @ [(u, fp, pk)]) v = (if v = u \<and> pins es u = None then Some pk else pins es v)"
  by (induction es) (auto simp: pins_def)

interpretation known_hosts:
  pinning_store "\<lambda>w u. get_known_host w dir u" "update_known_host dir" "host_fits dir"
    "\<lambda>w. \<exists>es. hosts_file dir w es" "add_known_host dir" for dir
proof unfold_locales
  fix s :: "'a world_scheme" and k f v j
  assume "\<exists>es. hosts_file dir s es" and fits: "host_fits dir k f v s"
  then obtain es where es: "hosts_file dir s es" by blast
  note up = hosts_file_update [OF es fits] and ad = hosts_file_add [OF es fits]
  show "\<exists>es. hosts_file dir (update_known_host dir k f v s) es" using up by blast
  show "\<exists>es. hosts_file dir (add_known_host dir k f v s) es" using ad by blast
  show "get_known_host (update_known_host dir k f v s) dir j =
      (if j = k then Some v else get_known_host s dir j)"
    by (simp add: get_known_host_file [OF up] get_known_host_file [OF es] pins_update)
  show "get_known_host (add_known_host dir k f v s) dir j =
      (if j = k \<and> get_known_host s dir k = None then Some v else get_known_host s dir j)"
    by (simp add: get_known_host_file [OF ad] get_known_host_file [OF es] pins_add)
qed

section \<open>Fingerprints\<close>

record fp_result =
  remote_fp :: "u8 list"
  local_fp :: "u8 list"
  has_local :: bool
  fp_match :: int

text \<open>\<open>calloc\<close>.\<close>

definition fp_result0 :: fp_result where
  "fp_result0 = \<lparr>remote_fp = replicate 32 0, local_fp = replicate 32 0, has_local = False, fp_match = 0\<rparr>"

definition self_fingerprint :: "ext \<Rightarrow> 'a sys_scheme \<Rightarrow> fp_result option" where
  "self_fingerprint E s =
     (case load_file s (key_path s ''kem_pk.bin'') of
        None \<Rightarrow> None
      | Some pk \<Rightarrow> Some (fp_result0\<lparr>remote_fp := sha256 E pk, has_local := False, fp_match := -1\<rparr>))"

text \<open>The comparison with the pinned key; one that does not decode leaves the zeroed digest.\<close>

definition compare_pinned :: "ext \<Rightarrow> string option \<Rightarrow> fp_result \<Rightarrow> fp_result mem" where
  "compare_pinned E pinned r =
     (case pinned of
        None \<Rightarrow> Ok (r\<lparr>has_local := False, fp_match := -1\<rparr>)
      | Some k \<Rightarrow>
          (case base64_bytes E k of
             Ub \<Rightarrow> Ub
           | Null \<Rightarrow> Ok (r\<lparr>has_local := True, fp_match := (if local_fp r = remote_fp r then 1 else 0)\<rparr>)
           | Ok d \<Rightarrow> Ok (r\<lparr>local_fp := sha256 E d, has_local := True,
                        fp_match := (if sha256 E d = remote_fp r then 1 else 0)\<rparr>)))"

definition shyake_fingerprint ::
  "ext \<Rightarrow> string option \<Rightarrow> bool \<Rightarrow> 'a sys_scheme \<Rightarrow> fp_result option \<times> 'a sys_scheme" where
  "shyake_fingerprint E target do_update s0 =
     (let s = clear_error s0
      in case target of
           None \<Rightarrow> (self_fingerprint E s, s)
         | Some user \<Rightarrow>
             (case fetch_recipient_pubkey E user s of
                (None, _, s) \<Rightarrow> (None, s)
              | (Some key, _, s) \<Rightarrow>
                  (case base64_bytes E key of
                     Null \<Rightarrow> (None, s)
                   | Ub \<Rightarrow> (None, mark_ub s)
                   | Ok pk \<Rightarrow>
                       (case compare_pinned E (get_known_host s (config_dir s) user)
                               (fp_result0\<lparr>remote_fp := sha256 E pk\<rparr>) of
                          Ok r \<Rightarrow>
                            (Some r,
                             if do_update
                             then update_known_host (config_dir s) user (hex_of (remote_fp r)) key s
                             else s)
                        | _ \<Rightarrow> (None, mark_ub s)))))"

section \<open>Properties\<close>

text \<open>C20. On a well-formed \<open>known_hosts\<close> file, \<open>update_known_host\<close> makes its key the pinned key of
  that user and leaves every other user's, while \<open>add_known_host\<close> pins it only when the user had no
  key yet; both leave a well-formed file.\<close>

theorem known_hosts_store:
  assumes "hosts_file dir w es" and "host_fits dir u fp pk w"
  shows "get_known_host (update_known_host dir u fp pk w) dir v =
           (if v = u then Some pk else get_known_host w dir v) \<and>
         get_known_host (add_known_host dir u fp pk w) dir v =
           (if v = u \<and> get_known_host w dir u = None then Some pk else get_known_host w dir v) \<and>
         (\<exists>es'. hosts_file dir (update_known_host dir u fp pk w) es') \<and>
         (\<exists>es'. hosts_file dir (add_known_host dir u fp pk w) es')"
  using known_hosts.get_put [OF exI, OF assms] known_hosts.get_add [OF exI, OF assms]
    known_hosts.inv_put [OF exI, OF assms] known_hosts.inv_add [OF exI, OF assms]
  by simp

theorem known_hosts_store_witness:
  "get_known_host (update_known_host ''/c'' ''bob'' ''ff'' ''BBBB''
      (add_known_host ''/c'' ''bob'' ''ee'' ''AAAA'' world0)) ''/c'' ''bob'' = Some ''BBBB''"
proof -
  have 0: "hosts_file ''/c'' world0 []" by (simp add: hosts_file_def world0_def fs_get_def)
  have f0: "host_fits ''/c'' ''bob'' ''ee'' ''AAAA'' world0"
    by (simp add: host_fits_def host_ok_def word_ok_def is_space_def char_consts can_store_def world0_def fs_get_def host_line_def)
  note 1 = hosts_file_add [OF 0 f0]
  have "host_fits ''/c'' ''bob'' ''ff'' ''BBBB'' (add_known_host ''/c'' ''bob'' ''ee'' ''AAAA'' world0)"
    by (simp add: host_fits_def host_ok_def word_ok_def is_space_def char_consts can_store_def world0_def fs_get_def
        host_line_def add_known_host_def append_file_def hosts_path_def fs_put_def)
  from known_hosts_store [OF 1 this] show ?thesis by simp
qed

text \<open>C29. A fingerprint that is reported is the SHA-256 of the key the instance sent, the verdict says
  whether it equals that of the pinned key, and without \<open>--update\<close> nothing on disk changes; with it,
  the key just fetched becomes the pinned one and all other pins stay.\<close>

theorem fingerprint_report:
  fixes s :: "'a sys_scheme"
  assumes "shyake_fingerprint E (Some u) upd s = (Some r, s')"
    and "hosts_file (config_dir s) s es"
  shows "\<exists>k pk t. fetch_recipient_pubkey E u (clear_error s) = (Some k, SHYAKE_OK, t) \<and>
     base64_bytes E k = Ok pk \<and> remote_fp r = sha256 E pk \<and>
     (has_local r \<longleftrightarrow> get_known_host s (config_dir s) u \<noteq> None) \<and>
     (fp_match r = 1 \<longleftrightarrow> has_local r \<and> local_fp r = remote_fp r) \<and>
     (fp_match r = -1 \<longleftrightarrow> \<not> has_local r) \<and>
     (\<forall>q d. has_local r \<and> get_known_host s (config_dir s) u = Some q \<and> base64_bytes E q = Ok d
        \<longrightarrow> local_fp r = sha256 E d) \<and>
     (\<not> upd \<longrightarrow> files s' = files s) \<and>
     (upd \<and> host_fits (config_dir s) u (hex_of (remote_fp r)) k t \<longrightarrow>
        get_known_host s' (config_dir s) v = (if v = u then Some k else get_known_host s (config_dir s) v))"
proof -
  obtain k e t where f: "fetch_recipient_pubkey E u (clear_error s) = (Some k, e, t)"
    using assms(1) by (auto simp: shyake_fingerprint_def Let_def split: prod.splits option.splits)
  have e: "e = SHYAKE_OK" using fetch_pubkey_Some [OF f] by simp
  note keep = net_step_keeps [OF net_step_fetch_pubkey [OF f]]
  have dir: "config_dir t = config_dir s" "files t = files s" "\<And>p. fs_get t p = fs_get s p"
    using keep by simp_all
  have gk: "get_known_host t (config_dir s) x = get_known_host s (config_dir s) x" for x
    by (simp add: get_known_host_def host_lines_def dir)
  have hf: "hosts_file (config_dir s) t es" using assms(2) by (simp add: hosts_file_def dir)
  obtain pk where pk: "base64_bytes E k = Ok pk"
    and c: "compare_pinned E (get_known_host s (config_dir s) u) (fp_result0\<lparr>remote_fp := sha256 E pk\<rparr>) = Ok r"
    and s': "s' = (if upd then update_known_host (config_dir s) u (hex_of (remote_fp r)) k t else t)"
    using assms(1) f by (auto simp: shyake_fingerprint_def Let_def dir gk split: mem.splits)
  from c have r: "remote_fp r = sha256 E pk" "has_local r \<longleftrightarrow> get_known_host s (config_dir s) u \<noteq> None"
    "fp_match r = 1 \<longleftrightarrow> has_local r \<and> local_fp r = remote_fp r" "fp_match r = -1 \<longleftrightarrow> \<not> has_local r"
    "\<forall>q d. has_local r \<and> get_known_host s (config_dir s) u = Some q \<and> base64_bytes E q = Ok d
        \<longrightarrow> local_fp r = sha256 E d"
    by (auto simp: compare_pinned_def fp_result0_def split: option.splits mem.splits if_splits)
  have "get_known_host s' (config_dir s) v = (if v = u then Some k else get_known_host s (config_dir s) v)"
    if "upd" "host_fits (config_dir s) u (hex_of (remote_fp r)) k t"
    using known_hosts.get_put [OF exI, OF hf that(2), of v] that(1) by (simp add: s' gk)
  with f e pk r s' dir show ?thesis by (intro exI [of _ k] exI [of _ pk] exI [of _ t]) auto
qed

theorem fingerprint_report_witness:
  "\<exists>r s'. let E = toy\<lparr>cjson_parse := (\<lambda>_. Some (JObj [(''kem_pubkey'', JStr ''AAAA'')]))\<rparr> in
     shyake_fingerprint E (Some ''bob'') False (sys0\<lparr>replies := [Http 200 ''x'']\<rparr>) = (Some r, s') \<and>
     \<not> has_local r \<and> files s' = []"
proof -
  let ?E = "toy\<lparr>cjson_parse := (\<lambda>_. Some (JObj [(''kem_pubkey'', JStr ''AAAA'')]))\<rparr>"
  let ?s = "sys0\<lparr>replies := [Http 200 ''x'']\<rparr>"
  have b: "base64_bytes ?E ''AAAA'' = Ok [0, 0, 0]"
    using base64_bytes_encode [OF toy_base64_law, of "[0, 0, 0]" "cjson_print toy" "\<lambda>_. Some (JObj [(''kem_pubkey'', JStr ''AAAA'')])"]
    by (simp add: base64_encode_def toy_def b64_char_def b64_alphabet_def)
  obtain r s' where r: "shyake_fingerprint ?E (Some ''bob'') False ?s = (Some r, s')"
    by (simp add: shyake_fingerprint_def fetch_recipient_pubkey_def http_call_def b compare_pinned_def
        get_known_host_def host_lines_def fs_get_def Let_def)
  have h: "hosts_file (config_dir ?s) ?s []" by (simp add: hosts_file_def fs_get_def)
  have "get_known_host ?s (config_dir ?s) ''bob'' = None"
    by (simp add: get_known_host_def host_lines_def fs_get_def)
  with fingerprint_report [OF r h] r show ?thesis by auto
qed

end
