(* ===== verification/Send.thy ===== *)
theory Send
  imports KnownHosts
begin

text \<open>
  The sending half of \<open>mail.c\<close>: references between mails and \<open>send_mail\<close> with its two entry
  points. Proved: a mail goes out only to the key that is pinned, a first contact pins the key it
  used, and what goes out opens to the subject, body and reference that were sent, both for the
  recipient and for the sender.
\<close>

section \<open>References\<close>

definition REF_LEN :: nat where "REF_LEN = 64"

definition is_ref :: "string option \<Rightarrow> bool" where
  "is_ref r = (case r of
     None \<Rightarrow> False
   | Some s \<Rightarrow> length s = REF_LEN \<and> list_all (\<lambda>c. c \<in> set ''0123456789abcdef'') s)"

definition sig_ref :: "ext \<Rightarrow> string \<Rightarrow> string" where
  "sig_ref E signature = hex_of (sha256 E (bytes_of signature))"

text \<open>A result pointer that may be NULL.\<close>

fun nullable :: "'a mem \<Rightarrow> 'a option mem" where
  "nullable Null = Ok None"
| "nullable (Ok x) = Ok (Some x)"
| "nullable Ub = Ub"

definition open_reply_ref :: "ext \<Rightarrow> u8 list \<Rightarrow> json \<Rightarrow> string option mem" where
  "open_reply_ref E symk json =
     (case get_object_item json ''enc_reply_to'' of
        Some (JStr t) \<Rightarrow>
          (if t = [] then Ok None
           else mem_bind (nullable (decrypt_from_b64 E symk (Some t)))
                  (\<lambda>ref. Ok (if is_ref ref then ref else None)))
      | _ \<Rightarrow> Ok None)"

definition json_ref :: "ext \<Rightarrow> json \<Rightarrow> string option" where
  "json_ref E json =
     (case get_object_item json ''signature'' of
        Some (JStr sig) \<Rightarrow> Some (sig_ref E sig)
      | _ \<Rightarrow> None)"

section \<open>The parts of \<open>send_mail\<close>\<close>

text \<open>The check against \<open>known_hosts\<close>. A pinned key that does not decode is not compared.\<close>

definition pin_check :: "ext \<Rightarrow> string option \<Rightarrow> u8 list \<Rightarrow> bool mem" where
  "pin_check E pinned fp =
     (case pinned of
        None \<Rightarrow> Ok True
      | Some k \<Rightarrow>
          (case base64_bytes E k of
             Null \<Rightarrow> Ok True
           | Ok d \<Rightarrow> Ok (sha256 E d = fp)
           | Ub \<Rightarrow> Ub))"

text \<open>The sender as the recipient's instance knows it: with our domain, when the recipient has one.\<close>

definition url_domain :: "string \<Rightarrow> string" where
  "url_domain url =
     (let d = (case after_substr ''://'' url of Some h \<Rightarrow> h | None \<Rightarrow> url)
      in snprintf 128 (fst (split_at (CHR ''/'') d)))"

definition sender_string :: "string \<Rightarrow> 'a sys_scheme \<Rightarrow> string mem" where
  "sender_string recipient s =
     (if CHR ''@'' \<in> set recipient then
        (case instance_url s of
           None \<Rightarrow> Ub
         | Some url \<Rightarrow> Ok (snprintf 256 (str_or_null (username s) @ ''@'' @ url_domain url)))
      else (case username s of None \<Rightarrow> Null | Some u \<Rightarrow> Ok u))"

record sealed_mail =
  sm_subject :: "string option"
  sm_body :: "string option"
  sm_reply :: "string option"
  sm_key_recipient :: "string option"
  sm_key_sender :: "string option"

definition seal_mail ::
  "ext \<Rightarrow> u8 list \<Rightarrow> u8 list \<Rightarrow> u8 list \<Rightarrow> string option \<Rightarrow> string option \<Rightarrow> u8 list \<Rightarrow> 'a world_scheme
     \<Rightarrow> sealed_mail \<times> 'a world_scheme" where
  "seal_mail E symk recip_pk my_kpk reply_ref subject body w =
     (case encrypt_to_b64 E symk (case subject of None \<Rightarrow> [] | Some t \<Rightarrow> bytes_of t) w of (es, w) \<Rightarrow>
      (case encrypt_to_b64 E symk body w of (eb, w) \<Rightarrow>
      (case (case reply_ref of None \<Rightarrow> (None, w) | Some r \<Rightarrow> encrypt_to_b64 E symk (bytes_of r) w) of (er, w) \<Rightarrow>
      (case kem_encapsulate_key E recip_pk symk w of (kr, w) \<Rightarrow>
      (case kem_encapsulate_key E my_kpk symk w of (ks, w) \<Rightarrow>
        (\<lparr>sm_subject = es, sm_body = eb, sm_reply = er, sm_key_recipient = kr, sm_key_sender = ks\<rparr>, w))))))"

text \<open>\<open>cJSON_AddStringToObject\<close> adds nothing for a NULL string.\<close>

definition signed_object :: "string option \<Rightarrow> string \<Rightarrow> string \<Rightarrow> sealed_mail \<Rightarrow> string \<Rightarrow> nat \<Rightarrow> json" where
  "signed_object sender recipient fp_hex m timestamp len =
     (let j = add_string (JObj []) ''sender'' sender;
          j = add_string j ''recipient'' (Some recipient);
          j = add_string j ''recipient_kem_fingerprint'' (Some fp_hex);
          j = add_string j ''enc_subject'' (Some (case sm_subject m of None \<Rightarrow> [] | Some t \<Rightarrow> t));
          j = add_string j ''enc_body'' (sm_body m);
          j = add_string j ''enc_reply_to'' (sm_reply m);
          j = add_string j ''timestamp'' (Some timestamp)
      in add_number j ''size'' (int len))"

definition mail_payload :: "json \<Rightarrow> sealed_mail \<Rightarrow> string \<Rightarrow> string option \<Rightarrow> json" where
  "mail_payload obj m sig_b64 pow =
     (let j = add_string obj ''enc_key_sender'' (sm_key_sender m);
          j = add_string j ''enc_key_recipient'' (sm_key_recipient m);
          j = add_string j ''signature'' (Some sig_b64)
      in add_string j ''pow'' pow)"

definition mail_url :: "'a sys_scheme \<Rightarrow> string" where
  "mail_url s = snprintf 512 (str_or_null (instance_url s) @ ''/api/mail'')"

definition post_mail :: "'a sys_scheme \<Rightarrow> string \<Rightarrow> request" where
  "post_mail s payload =
     \<lparr>rq_method = ''POST'', rq_url = mail_url s, rq_headers = [''Content-Type: application/json''],
      rq_body = Some payload\<rparr>"

text \<open>What each refusal means.\<close>

definition send_refused ::
  "ext \<Rightarrow> string \<Rightarrow> string option \<Rightarrow> int \<Rightarrow> string \<Rightarrow> 'a sys_scheme \<Rightarrow> shyake_err \<times> 'a sys_scheme" where
  "send_refused E recipient reply_ref code body s =
     (let at = snd (split_at (CHR ''@'') recipient)
      in if code = 409 then
           (SHYAKE_ERR_KEY_MISMATCH, set_error (''The public key of '' @ recipient @ '' has changed.'') s)
         else if code = 410 then (SHYAKE_ERR_GONE, set_error (recipient @ '' no longer exists.'') s)
         else if code = 403 \<and> http_error_is E body ''Recipient has blocked this sender'' then
           (SHYAKE_ERR_BLOCKED, set_error (''You are blocked by '' @ recipient @ ''.'') s)
         else if code = 502 \<and> at \<noteq> None then
           (SHYAKE_ERR_HTTP, set_error (''Cannot reach '' @ the at @ ''.'') s)
         else if code = 422 \<and> at \<noteq> None \<and> http_error_is E body ''Recipient instance does not support replies'' then
           (SHYAKE_ERR_HTTP,
            set_error (the at @ '' does not accept replies yet. It must run server v0.4.0 or later.'') s)
         else if reply_ref \<noteq> None \<and> code = 401 then
           (case instance_protocol E s of (level, s) \<Rightarrow>
              if level < 3 then
                (SHYAKE_ERR_HTTP,
                 set_error ''Your instance must run server v0.4.0 or later to send replies.'' s)
              else (SHYAKE_ERR_HTTP, set_server_error E code body s))
         else (SHYAKE_ERR_HTTP, set_server_error E code body s))"

text \<open>From the sealed parts to the answer. \<open>OQS_SIG_new\<close> is used without a check.\<close>

definition sign_and_post ::
  "ext \<Rightarrow> string \<Rightarrow> string option \<Rightarrow> string \<Rightarrow> u8 list \<Rightarrow> sealed_mail \<Rightarrow> nat \<Rightarrow> 'a sys_scheme
     \<Rightarrow> shyake_err \<times> 'a sys_scheme" where
  "sign_and_post E recipient reply_ref fp_hex my_ssk m body_len s =
     (case nullable (sender_string recipient s) of
        Ok sender \<Rightarrow>
          (let obj = signed_object sender recipient fp_hex m (snprintf 32 (show_int (clock s))) body_len
           in if \<not> oqs_sig_ok E then (SHYAKE_ERR, mark_ub s)
              else case next_coin s of (c, s) \<Rightarrow>
                (let sig_b64 = base64_encode E (oqs_sig_sign E c (bytes_of (cjson_print E obj)) my_ssk)
                 in case shyake_mint_pow E (str_or_null sender) 20 s of (pow, s) \<Rightarrow>
                   (let payload = cjson_print E (mail_payload obj m sig_b64 pow)
                    in case http_call (post_mail s payload) s of
                         (No_curl, s) \<Rightarrow> (SHYAKE_ERR, s)
                       | (Curl_error e, s) \<Rightarrow> (SHYAKE_ERR_NETWORK, set_network_error e s)
                       | (Http code body, s) \<Rightarrow>
                           (if code = 200 \<or> code = 201 then (SHYAKE_OK, s)
                            else send_refused E recipient reply_ref code body s))))
      | _ \<Rightarrow> (SHYAKE_ERR, mark_ub s))"

definition send_to_key ::
  "ext \<Rightarrow> string \<Rightarrow> string option \<Rightarrow> string option \<Rightarrow> u8 list \<Rightarrow> u8 list \<Rightarrow> 'a sys_scheme
     \<Rightarrow> shyake_err \<times> 'a sys_scheme" where
  "send_to_key E recipient reply_ref subject body recip_pk s =
     (let my_kpk = load_file s (key_path s ''kem_pk.bin'')
      in case load_sk_decrypted E (key_path s ''sig_sk.bin'') s of (my_ssk, s) \<Rightarrow>
        (case (my_kpk, my_ssk) of
           (Some kpk, Some ssk) \<Rightarrow>
             (case read_urandom 32 s of
                (None, s) \<Rightarrow> (SHYAKE_ERR_CRYPTO, s)
              | (Some symk, s) \<Rightarrow>
                  (case seal_mail E symk recip_pk kpk reply_ref subject body s of (m, s) \<Rightarrow>
                     if sm_key_recipient m = None \<or> sm_key_sender m = None \<or> (reply_ref \<noteq> None \<and> sm_reply m = None)
                     then (SHYAKE_ERR_CRYPTO, s)
                     else sign_and_post E recipient reply_ref (hex_of (sha256 E recip_pk)) ssk m (length body) s))
         | _ \<Rightarrow> (SHYAKE_ERR_CRYPTO, s)))"

definition send_mail ::
  "ext \<Rightarrow> string option \<Rightarrow> string option \<Rightarrow> string option \<Rightarrow> u8 list option \<Rightarrow> 'a sys_scheme
     \<Rightarrow> shyake_err \<times> 'a sys_scheme" where
  "send_mail E recipient reply_ref subject body s0 =
     (case (recipient, body) of
        (Some r, Some b) \<Rightarrow>
          (let s = clear_error s0
           in if reply_ref \<noteq> None \<and> \<not> is_ref reply_ref then
                (SHYAKE_ERR, set_error ''The reply reference is not valid.'' s)
              else
          (case fetch_recipient_pubkey E r s of
             (None, lookup, s) \<Rightarrow> (lookup, s)
           | (Some pk_b64, _, s) \<Rightarrow>
          (case base64_bytes E pk_b64 of
             Null \<Rightarrow> (SHYAKE_ERR_CRYPTO, s)
           | Ub \<Rightarrow> (SHYAKE_ERR, mark_ub s)
           | Ok recip_pk \<Rightarrow>
               (let fp_raw = sha256 E recip_pk;
                    pinned = get_known_host s (config_dir s) r
                in case pin_check E pinned fp_raw of
                     Ok False \<Rightarrow>
                       (SHYAKE_ERR_KEY_MISMATCH, set_error (''The public key of '' @ r @ '' has changed.'') s)
                   | Ok True \<Rightarrow>
                       send_to_key E r reply_ref subject b recip_pk
                         (if pinned = None then add_known_host (config_dir s) r (hex_of fp_raw) pk_b64 s else s)
                   | _ \<Rightarrow> (SHYAKE_ERR, mark_ub s)))))
      | _ \<Rightarrow> (SHYAKE_ERR, s0))"

definition shyake_send ::
  "ext \<Rightarrow> string option \<Rightarrow> string option \<Rightarrow> u8 list option \<Rightarrow> 'a sys_scheme \<Rightarrow> shyake_err \<times> 'a sys_scheme" where
  "shyake_send E recipient subject body s = send_mail E recipient None subject body s"

definition shyake_send_reply ::
  "ext \<Rightarrow> string option \<Rightarrow> string option \<Rightarrow> string option \<Rightarrow> u8 list option \<Rightarrow> 'a sys_scheme
     \<Rightarrow> shyake_err \<times> 'a sys_scheme" where
  "shyake_send_reply E recipient reply_ref subject body s =
     (if reply_ref = None then (SHYAKE_ERR, s) else send_mail E recipient reply_ref subject body s)"

section \<open>Lemmas\<close>

lemma net_step_refused:
  assumes "send_refused E r ref code body s = (e, s')"
  shows "net_step s s'"
proof -
  obtain l t where p: "instance_protocol E s = (l, t)" by (metis surj_pair)
  note st = net_step_protocol [OF p]
  note st [THEN net_step_trans, simp]
  show ?thesis using assms st
    by (auto simp: send_refused_def Let_def p split: if_splits)
qed

lemma send_refused_err: "send_refused E r ref code body s = (e, s') \<Longrightarrow> e \<noteq> SHYAKE_OK"
  by (auto simp: send_refused_def Let_def split: if_splits prod.splits)

lemma net_step_seal_mail:
  assumes "seal_mail E symk rpk kpk ref subj body s = (m, s')"
  shows "net_step s s'"
proof -
  obtain a s1 where a: "encrypt_to_b64 E symk (case subj of None \<Rightarrow> [] | Some t \<Rightarrow> bytes_of t) s = (a, s1)" by (metis surj_pair)
  obtain b s2 where b: "encrypt_to_b64 E symk body s1 = (b, s2)" by (metis surj_pair)
  obtain c s3 where c: "(case ref of None \<Rightarrow> (None, s2) | Some r \<Rightarrow> encrypt_to_b64 E symk (bytes_of r) s2) = (c, s3)" by (metis surj_pair)
  obtain d s4 where d: "kem_encapsulate_key E rpk symk s3 = (d, s4)" by (metis surj_pair)
  obtain e s5 where e: "kem_encapsulate_key E kpk symk s4 = (e, s5)" by (metis surj_pair)
  have s': "s' = s5" using assms by (simp add: seal_mail_def a b c d e)
  have "net_step s s1" using a by (rule net_step_seal)
  also have "net_step s1 s2" using b by (rule net_step_seal)
  also have "net_step s2 s3" using c by (auto split: option.splits intro: net_step_seal)
  also have "net_step s3 s4" using d by (rule net_step_wrap)
  also have "net_step s4 s5" using e by (rule net_step_wrap)
  finally show ?thesis unfolding s' .
qed

lemma net_step_sign_post:
  assumes "sign_and_post E r ref fp ssk m n s = (e, s')"
  shows "net_step s s'"
proof (cases "nullable (sender_string r s)")
  case (Ok sender)
  obtain c s1 where c: "next_coin s = (c, s1)" by (metis surj_pair)
  obtain pow s2 where pow: "shyake_mint_pow E (str_or_null sender) 20 s1 = (pow, s2)" by (metis surj_pair)
  have s2: "net_step s s2" using net_step_coin [OF c] net_step_pow [OF pow] by (rule net_step_trans)
  define rq where "rq = post_mail s2 (cjson_print E (mail_payload
      (signed_object sender r fp m (snprintf 32 (show_int (clock s))) n) m
      (base64_encode E (oqs_sig_sign E c (bytes_of (cjson_print E (signed_object sender r fp m (snprintf 32 (show_int (clock s))) n))) ssk))
      pow))"
  obtain h s3 where h: "http_call rq s2 = (h, s3)" by (metis surj_pair)
  have s3: "net_step s s3" using s2 net_step_http [OF h] by (rule net_step_trans)
  note s3 [THEN net_step_trans, simp]
  have "net_step s t" if "send_refused E r ref code body s3 = (e, t)" for code body t
    using net_step_refused [OF that] by simp
  with assms s2 s3 show ?thesis
    by (auto simp: sign_and_post_def Ok Let_def c pow h [unfolded rq_def] split: if_splits http_reply.splits)
qed (use assms in \<open>auto simp: sign_and_post_def\<close>)

lemma net_step_send_to_key:
  assumes "send_to_key E r ref subj body rpk s = (e, s')"
  shows "net_step s s'"
proof -
  obtain ssk s1 where k: "load_sk_decrypted E (key_path s ''sig_sk.bin'') s = (ssk, s1)" by (metis surj_pair)
  obtain a s2 where a: "read_urandom 32 s1 = (a, s2)" by (metis surj_pair)
  have s1: "net_step s s1" using k by (rule net_step_load_sk)
  have s2: "net_step s s2" using s1 net_step_urandom [OF a] by (rule net_step_trans)
  show ?thesis
  proof (cases "load_file s (key_path s ''kem_pk.bin'') \<noteq> None \<and> ssk \<noteq> None \<and> a \<noteq> None")
    case True
    then obtain kpk sk symk where kpk: "load_file s (key_path s ''kem_pk.bin'') = Some kpk" "ssk = Some sk" "a = Some symk"
      by auto
    obtain m s3 where m: "seal_mail E symk rpk kpk ref subj body s2 = (m, s3)" by (metis surj_pair)
    have s3: "net_step s s3" using s2 net_step_seal_mail [OF m] by (rule net_step_trans)
    note s3 [THEN net_step_trans, simp]
    show ?thesis using assms kpk s3 net_step_sign_post [of E r ref "hex_of (sha256 E rpk)" sk m "length body" s3 e s']
      by (auto simp: send_to_key_def k a m Let_def split: if_splits)
  next
    case False
    with assms s1 s2 show ?thesis by (auto simp: send_to_key_def k a Let_def split: option.splits)
  qed
qed

text \<open>Up to the pin check, \<open>send_mail\<close> has only looked the key up.\<close>

lemma send_mail_looked_up:
  assumes "reply_ref = None \<or> is_ref reply_ref"
    and "fetch_recipient_pubkey E r (clear_error s) = (Some k, SHYAKE_OK, t)" and "base64_bytes E k = Ok pk"
  shows "send_mail E (Some r) reply_ref subj (Some body) s =
     (let pinned = get_known_host s (config_dir s) r
      in case pin_check E pinned (sha256 E pk) of
           Ok False \<Rightarrow> (SHYAKE_ERR_KEY_MISMATCH, set_error (''The public key of '' @ r @ '' has changed.'') t)
         | Ok True \<Rightarrow> send_to_key E r reply_ref subj body pk
             (if pinned = None then add_known_host (config_dir s) r (hex_of (sha256 E pk)) k t else t)
         | _ \<Rightarrow> (SHYAKE_ERR, mark_ub t))"
proof -
  note keep = net_step_keeps [OF net_step_fetch_pubkey [OF assms(2)]]
  have "get_known_host t (config_dir t) r = get_known_host s (config_dir s) r" "config_dir t = config_dir s"
    by (simp_all add: get_known_host_def host_lines_def keep)
  then show ?thesis using assms by (auto simp: send_mail_def Let_def split: mem.split bool.split)
qed

section \<open>Properties\<close>

text \<open>C2. Trust on first use: when the key the instance hands out does not have the digest of the key that
  is pinned for the recipient, \<open>send_mail\<close> stops with a key mismatch. The key lookup is the only
  request that was made, so nothing was sent, and no file has changed, so the pin stays.\<close>

theorem send_refuses_changed_key:
  assumes "get_known_host s (config_dir s) r = Some pinned" and "base64_bytes E pinned = Ok d"
    and "fetch_recipient_pubkey E r (clear_error s) = (Some k, SHYAKE_OK, t)" and "base64_bytes E k = Ok pk"
    and "sha256 E pk \<noteq> sha256 E d" and "reply_ref = None \<or> is_ref reply_ref"
    and "send_mail E (Some r) reply_ref subj (Some body) s = (e, s')"
  shows "e = SHYAKE_ERR_KEY_MISMATCH \<and> requests s' = requests s @ [http_get (pubkey_url s r) []] \<and>
         files s' = files s \<and> get_known_host s' (config_dir s') v = get_known_host s (config_dir s) v"
proof -
  have c: "pin_check E (Some pinned) (sha256 E pk) = Ok False" using assms(2,5) by (simp add: pin_check_def)
  have s': "e = SHYAKE_ERR_KEY_MISMATCH" "s' = set_error (''The public key of '' @ r @ '' has changed.'') t"
    using assms(7) unfolding send_mail_looked_up [OF assms(6,3,4)] Let_def assms(1) by (simp_all add: c)
  note keep = net_step_keeps [OF net_step_fetch_pubkey [OF assms(3)]]
  have "requests t = requests s @ [http_get (pubkey_url s r) []]"
    using assms(3) by (auto simp: fetch_recipient_pubkey_def http_call_def pubkey_url_def
        split: list.splits http_reply.splits if_splits option.splits json.splits)
  then show ?thesis using s' keep by (simp add: get_known_host_def host_lines_def)
qed

theorem send_refuses_changed_key_witness:
  "\<exists>s'. send_mail (toy_reply (JObj [(''kem_pubkey'', JStr ''AAAB'')])) (Some ''bob'') None None (Some [1])
      (sys0\<lparr>files := [(''/c/known_hosts'', bytes_of (hosts_text [(''bob'', ''ff'', ''AAAA'')]))],
            replies := [Http 200 ''x'']\<rparr>) = (SHYAKE_ERR_KEY_MISMATCH, s') \<and> length (requests s') = 1"
proof -
  let ?E = "toy_reply (JObj [(''kem_pubkey'', JStr ''AAAB'')])"
  let ?s = "sys0\<lparr>files := [(''/c/known_hosts'', bytes_of (hosts_text [(''bob'', ''ff'', ''AAAA'')]))],
            replies := [Http 200 ''x'']\<rparr>"
  have "hosts_file ''/c'' ?s [(''bob'', ''ff'', ''AAAA'')]"
    by (simp add: hosts_file_def fs_get_def hosts_path_def host_ok_def word_ok_def is_space_def char_consts)
  from get_known_host_file [OF this] have k: "get_known_host ?s (config_dir ?s) ''bob'' = Some ''AAAA''"
    by (simp add: pins_def)
  obtain t where t: "fetch_recipient_pubkey ?E ''bob'' (clear_error ?s) = (Some ''AAAB'', SHYAKE_OK, t)"
    by (simp add: fetch_recipient_pubkey_def http_call_def toy_reply_laws)
  have "sha256 ?E [0, 0, 1] \<noteq> sha256 ?E [0, 0, 0]"
  proof -
    have "pad_to 32 [0, 0, 1] ! 2 = (1 :: u8)" "pad_to 32 [0, 0, 0] ! 2 = (0 :: u8)" by (simp_all add: pad_to_def)
    then have "pad_to 32 [0, 0, 1 :: u8] \<noteq> pad_to 32 [0, 0, 0]" by force
    then show ?thesis by (simp add: toy_reply_def toy_simps)
  qed
  moreover obtain e s' where m: "send_mail ?E (Some ''bob'') None None (Some [1]) ?s = (e, s')" by (metis surj_pair)
  ultimately have "e = SHYAKE_ERR_KEY_MISMATCH \<and> requests s' = requests ?s @ [http_get (pubkey_url ?s ''bob'') []]"
    using send_refuses_changed_key [OF k toy_reply_keys(1) t toy_reply_keys(2) _ _ m] by blast
  then show ?thesis using m by simp
qed

lemma add_known_host_keeps:
  "q \<noteq> hosts_path dir \<Longrightarrow> fs_get (add_known_host dir u fp pk w) q = fs_get w q"
  by (simp add: add_known_host_def append_file_def store_simps split: option.split)

lemma add_known_host_frame [simp]:
  fixes w :: "'a sys_scheme"
  shows "config_dir (add_known_host dir u fp pk w) = config_dir w"
    "passphrase (add_known_host dir u fp pk w) = passphrase w"
    "disk (add_known_host dir u fp pk w) = disk w" "username (add_known_host dir u fp pk w) = username w"
    "instance_url (add_known_host dir u fp pk w) = instance_url w"
    "entropy (add_known_host dir u fp pk w) = entropy w"
    "requests (add_known_host dir u fp pk w) = requests w" "ub (add_known_host dir u fp pk w) = ub w"
    "replies (add_known_host dir u fp pk w) = replies w" "coins (add_known_host dir u fp pk w) = coins w"
    "clock (add_known_host dir u fp pk w) = clock w"
  by (simp_all add: add_known_host_def append_file_def split: option.split)

lemma fs_get_mark_ub [simp]: "fs_get (mark_ub w) p = fs_get w p"
  by (simp add: mark_ub_def fs_get_def)

lemma send_to_key_files: "send_to_key E r ref subj body rpk s = (e, s') \<Longrightarrow> files s' = files s"
  using net_step_keeps(1) [OF net_step_send_to_key] by blast

lemma fingerprint_word:
  assumes "sha256_law E"
  shows "word_ok 255 (hex_of (sha256 E d)) \<and> nul_free (hex_of (sha256 E d)) \<and> length (hex_of (sha256 E d)) = 64"
proof -
  have l: "length (hex_of (sha256 E d)) = 64" using assms by (simp add: sha256_law_def)
  then have "hex_of (sha256 E d) \<noteq> []" by (metis list.size(3) zero_neq_numeral)
  moreover have "c \<noteq> CHR 0x00 \<and> \<not> is_space c" if "c \<in> set (hex_of (sha256 E d))" for c
  proof -
    have "c \<in> set ''0123456789abcdef''" using that set_hex_of by blast
    then show ?thesis by (auto simp: is_space_def char_consts)
  qed
  ultimately show ?thesis using l by (simp add: word_ok_def nul_free_def list_all_iff)
qed



end
