(* ===== verification/Mailbox.thy ===== *)
theory Mailbox
  imports Send
begin

text \<open>
  The receiving half of \<open>mail.c\<close>: listing a mailbox, fetching a mail or its head, burning it, saving
  it locally, reading and listing saved mail, and finding the mail a reference names. Members of a
  reply are dereferenced without a check, as the code does; a missing one is \<open>Ub\<close>.
\<close>

section \<open>Opening a mail\<close>

record mail_detail =
  md_mail_id :: string
  md_sender :: string
  md_recipient :: "string option"
  md_subject :: "string option"
  md_body :: "string option"
  md_timestamp :: int
  md_created :: int
  md_size :: int
  md_ref :: "string option"
  md_reply_ref :: "string option"

record mail_entry =
  me_mail_id :: string
  me_party :: string
  me_subject :: string
  me_size :: int
  me_timestamp :: int
  me_created :: int
  me_is_sent :: bool
  me_ref :: "string option"

record saved_entry =
  se_mail_id :: string
  se_sender :: string
  se_recipient :: string
  se_subject :: string
  se_timestamp :: int
  se_created :: int
  se_size :: int

definition key_field :: "string \<Rightarrow> string \<Rightarrow> string" where
  "key_field user sdr = (if user = sdr then ''enc_key_sender'' else ''enc_key_recipient'')"

text \<open>The symmetric key of a mail, when the secret key could be loaded. A NULL text is dereferenced.\<close>

definition mail_key :: "ext \<Rightarrow> u8 list option \<Rightarrow> string option \<Rightarrow> u8 list option mem" where
  "mail_key E ksk enc_key =
     (case ksk of
        None \<Rightarrow> Ok None
      | Some k \<Rightarrow> (case enc_key of None \<Rightarrow> Ub | Some t \<Rightarrow> Ok (kem_decapsulate_key E t k)))"

definition open_text :: "ext \<Rightarrow> u8 list option \<Rightarrow> string option \<Rightarrow> string option mem" where
  "open_text E symk t =
     (case symk of None \<Rightarrow> Ok None | Some k \<Rightarrow> nullable (decrypt_from_b64 E k t))"

text \<open>The part three readers share: which members they read, and what they decrypt.\<close>

record mail_fields =
  mf_sender :: string
  mf_recipient :: string
  mf_timestamp :: int
  mf_size :: int
  mf_key :: "string option"
  mf_subject :: "string option"
  mf_body :: "string option"

definition read_fields :: "bool \<Rightarrow> bool \<Rightarrow> string option \<Rightarrow> json \<Rightarrow> mail_fields mem" where
  "read_fields with_size with_body user j =
     mem_bind (used_str (deref_str j ''sender'')) (\<lambda>sdr.
     mem_bind (used_str (deref_str j ''recipient'')) (\<lambda>rec.
     mem_bind (deref_int j ''timestamp'') (\<lambda>ts.
     mem_bind (if with_size then deref_int j ''size'' else Ok 0) (\<lambda>sz.
     mem_bind (case user of None \<Rightarrow> Ub | Some u \<Rightarrow> nullable (deref_str j (key_field u sdr))) (\<lambda>ek.
     mem_bind (nullable (deref_str j ''enc_subject'')) (\<lambda>es.
     mem_bind (if with_body then nullable (deref_str j ''enc_body'') else Ok None) (\<lambda>eb.
       Ok \<lparr>mf_sender = sdr, mf_recipient = rec, mf_timestamp = ts, mf_size = sz, mf_key = ek,
           mf_subject = es, mf_body = eb\<rparr>)))))))"

definition open_detail ::
  "ext \<Rightarrow> bool \<Rightarrow> u8 list option \<Rightarrow> string \<Rightarrow> json \<Rightarrow> mail_fields \<Rightarrow> mail_detail mem" where
  "open_detail E dec_body ksk mail_id j f =
     mem_bind (mail_key E ksk (mf_key f)) (\<lambda>symk.
     mem_bind (open_text E symk (mf_subject f)) (\<lambda>sub.
     mem_bind (if dec_body \<and> mf_body f \<noteq> None then open_text E symk (mf_body f) else Ok None) (\<lambda>bdy.
     mem_bind (case symk of None \<Rightarrow> Ok None | Some k \<Rightarrow> open_reply_ref E k j) (\<lambda>rref.
       Ok \<lparr>md_mail_id = mail_id, md_sender = mf_sender f, md_recipient = Some (mf_recipient f), md_subject = sub,
           md_body = bdy, md_timestamp = mf_timestamp f, md_created = 0, md_size = mf_size f,
           md_ref = json_ref E j, md_reply_ref = rref\<rparr>))))"

definition mail_detail_of ::
  "ext \<Rightarrow> bool \<Rightarrow> bool \<Rightarrow> bool \<Rightarrow> string \<Rightarrow> json \<Rightarrow> 'a sys_scheme \<Rightarrow> mail_detail option \<times> 'a sys_scheme" where
  "mail_detail_of E with_size with_body dec_body mail_id j s =
     (case read_fields with_size with_body (username s) j of
        Ok f \<Rightarrow>
          (case load_sk_decrypted E (key_path s ''kem_sk.bin'') s of (ksk, s) \<Rightarrow>
            (case open_detail E dec_body ksk mail_id j f of
               Ok d \<Rightarrow> (Some d, s)
             | _ \<Rightarrow> (None, mark_ub s)))
      | _ \<Rightarrow> (None, mark_ub s))"

section \<open>Signed requests to the instance\<close>

text \<open>\<open>curl_easy_init\<close> comes first, then the headers, then the exchange.\<close>

definition curl_init :: "'a world_scheme \<Rightarrow> bool \<times> 'a world_scheme" where
  "curl_init w = (case replies w of No_curl # rs \<Rightarrow> (False, w\<lparr>replies := rs\<rparr>) | _ \<Rightarrow> (True, w))"

definition signed_call ::
  "ext \<Rightarrow> string \<Rightarrow> string \<Rightarrow> 'a sys_scheme \<Rightarrow> http_reply option \<times> 'a sys_scheme" where
  "signed_call E meth endpoint s =
     (let url = snprintf 512 (str_or_null (instance_url s) @ endpoint)
      in case curl_init s of
           (False, s) \<Rightarrow> (None, s)
         | (True, s) \<Rightarrow>
             (case create_signed_headers E meth endpoint (str_or_null (username s)) s of
                (None, s) \<Rightarrow> (None, s)
              | (Some hs, s) \<Rightarrow>
                  (case http_call \<lparr>rq_method = meth, rq_url = url, rq_headers = hs, rq_body = None\<rparr> s of
                     (r, s) \<Rightarrow> (Some r, s))))"

definition mail_endpoint :: "string \<Rightarrow> string" where
  "mail_endpoint mail_id = snprintf 128 (''/api/mail/'' @ mail_id)"

section \<open>Listing a mailbox\<close>

definition check_entry ::
  "ext \<Rightarrow> bool \<Rightarrow> u8 list option \<Rightarrow> json \<Rightarrow> mail_entry mem" where
  "check_entry E is_sent ksk item =
     mem_bind (used_str (deref_str item ''mail_id'')) (\<lambda>mid.
     mem_bind (used_str (deref_str item (if is_sent then ''recipient'' else ''sender''))) (\<lambda>party.
     mem_bind (deref_int item ''size'') (\<lambda>sz.
     mem_bind (deref_int item ''timestamp'') (\<lambda>ts.
     mem_bind (nullable (deref_str item (if is_sent then ''enc_key_sender'' else ''enc_key_recipient''))) (\<lambda>enc_key.
     mem_bind (nullable (deref_str item ''enc_subject'')) (\<lambda>enc_sub.
     mem_bind (mail_key E ksk enc_key) (\<lambda>symk.
     mem_bind (open_text E symk enc_sub) (\<lambda>sub.
       Ok \<lparr>me_mail_id = mid, me_party = party,
           me_subject = (case sub of Some t \<Rightarrow> t | None \<Rightarrow> ''(decryption failed)''),
           me_size = sz, me_timestamp = ts, me_created = 0, me_is_sent = is_sent,
           me_ref = (case get_object_item item ''sig_hash'' of
                       Some (JStr h) \<Rightarrow> if is_ref (Some h) then Some h else None
                     | _ \<Rightarrow> None)\<rparr>))))))))"

fun check_entries :: "ext \<Rightarrow> bool \<Rightarrow> u8 list option \<Rightarrow> json list \<Rightarrow> mail_entry list mem" where
  "check_entries E is_sent ksk [] = Ok []"
| "check_entries E is_sent ksk (item # items) =
     mem_bind (check_entry E is_sent ksk item) (\<lambda>e.
     mem_bind (check_entries E is_sent ksk items) (\<lambda>es. Ok (e # es)))"

definition shyake_check ::
  "ext \<Rightarrow> string option \<Rightarrow> 'a sys_scheme \<Rightarrow> mail_entry list option \<times> 'a sys_scheme" where
  "shyake_check E type s0 =
     (case type of
        None \<Rightarrow> (None, s0)
      | Some ty \<Rightarrow>
          (case signed_call E ''GET'' (snprintf 128 (''/api/mail?type='' @ ty)) (clear_error s0) of
             (Some (Http code body), s) \<Rightarrow>
               (if code = 200 then
                  (case Option.bind (cjson_parse E body) (\<lambda>j. get_object_item j ''mail'') of
                     Some (JArr items) \<Rightarrow>
                       (case load_sk_decrypted E (key_path s ''kem_sk.bin'') s of (ksk, s) \<Rightarrow>
                         (case check_entries E (ty = ''sent'') ksk items of
                            Ok es \<Rightarrow> (Some es, s)
                          | _ \<Rightarrow> (None, mark_ub s)))
                   | _ \<Rightarrow> (None, s))
                else (None, set_server_error E code body s))
           | (Some (Curl_error m), s) \<Rightarrow> (None, set_network_error m s)
           | (_, s) \<Rightarrow> (None, s)))"

section \<open>One mail\<close>

definition read_mail ::
  "ext \<Rightarrow> bool \<Rightarrow> bool \<Rightarrow> string option \<Rightarrow> 'a sys_scheme \<Rightarrow> mail_detail option \<times> 'a sys_scheme" where
  "read_mail E with_size with_body mail_id s0 =
     (case mail_id of
        None \<Rightarrow> (None, s0)
      | Some mid \<Rightarrow>
          (case signed_call E ''GET'' (mail_endpoint mid) (clear_error s0) of
             (Some (Http code body), s) \<Rightarrow>
               (if code = 200 then
                  (case cjson_parse E body of
                     None \<Rightarrow> (None, s)
                   | Some j \<Rightarrow> mail_detail_of E with_size with_body with_body mid j s)
                else (None, set_server_error E code body s))
           | (Some (Curl_error m), s) \<Rightarrow> (None, set_network_error m s)
           | (_, s) \<Rightarrow> (None, s)))"

definition shyake_fetch :: "ext \<Rightarrow> string option \<Rightarrow> 'a sys_scheme \<Rightarrow> mail_detail option \<times> 'a sys_scheme" where
  "shyake_fetch E mail_id s = read_mail E False True mail_id s"

definition shyake_check_one :: "ext \<Rightarrow> string option \<Rightarrow> 'a sys_scheme \<Rightarrow> mail_detail option \<times> 'a sys_scheme" where
  "shyake_check_one E mail_id s = read_mail E True False mail_id s"

definition shyake_burn :: "ext \<Rightarrow> string option \<Rightarrow> 'a sys_scheme \<Rightarrow> shyake_err \<times> 'a sys_scheme" where
  "shyake_burn E mail_id s0 =
     (case mail_id of
        None \<Rightarrow> (SHYAKE_ERR, s0)
      | Some mid \<Rightarrow>
          (case signed_call E ''DELETE'' (mail_endpoint mid) (clear_error s0) of
             (Some (Http code body), s) \<Rightarrow>
               (if code = 200 then (SHYAKE_OK, s)
                else (if code = 404 then SHYAKE_ERR_NOT_FOUND
                      else if code = 403 then SHYAKE_ERR_FORBIDDEN
                      else SHYAKE_ERR_HTTP, set_server_error E code body s))
           | (Some (Curl_error m), s) \<Rightarrow> (SHYAKE_ERR_NETWORK, set_network_error m s)
           | (_, s) \<Rightarrow> (SHYAKE_ERR, s)))"

section \<open>Saved mail\<close>

definition saved_dir :: "'a sys_scheme \<Rightarrow> string" where
  "saved_dir s = snprintf 512 (config_dir s @ ''/saved'')"

definition ensure_saved_dir :: "'a sys_scheme \<Rightarrow> bool \<times> 'a sys_scheme" where
  "ensure_saved_dir s =
     (let path = saved_dir s
      in if path \<in> set (dirs s) \<or> fs_get s path \<noteq> None then (True, s)
         else if mkdir_ok s path then (True, s\<lparr>dirs := dirs s @ [path]\<rparr>)
         else (False, s))"

definition saved_path :: "'a sys_scheme \<Rightarrow> string \<Rightarrow> string" where
  "saved_path s mail_id = snprintf 640 (config_dir s @ ''/saved/'' @ mail_id @ ''.json'')"

definition shyake_save_mail :: "ext \<Rightarrow> string option \<Rightarrow> 'a sys_scheme \<Rightarrow> shyake_err \<times> 'a sys_scheme" where
  "shyake_save_mail E mail_id s0 =
     (case mail_id of
        None \<Rightarrow> (SHYAKE_ERR, s0)
      | Some mid \<Rightarrow>
          (case ensure_saved_dir (clear_error s0) of
             (False, s) \<Rightarrow> (SHYAKE_ERR, set_error ''Cannot create the saved directory.'' s)
           | (True, s) \<Rightarrow>
               (case signed_call E ''GET'' (mail_endpoint mid) s of
                  (Some (Http code body), s) \<Rightarrow>
                    (if code = 200 then
                       (case write_file (saved_path s mid) (bytes_of body) s of
                          (Some _, s) \<Rightarrow> (SHYAKE_OK, s)
                        | (None, s) \<Rightarrow>
                            (SHYAKE_ERR, set_error (''Cannot write '' @ saved_path s mid @ ''.'') s))
                     else (if code = 404 then SHYAKE_ERR_NOT_FOUND else SHYAKE_ERR_HTTP,
                           set_server_error E code body s))
                | (Some (Curl_error m), s) \<Rightarrow> (SHYAKE_ERR_NETWORK, set_network_error m s)
                | (_, s) \<Rightarrow> (SHYAKE_ERR, s))))"

definition parse_saved_json ::
  "ext \<Rightarrow> string \<Rightarrow> bool \<Rightarrow> 'a sys_scheme \<Rightarrow> mail_detail option \<times> 'a sys_scheme" where
  "parse_saved_json E mail_id decrypt_body s =
     (case fs_get s (saved_path s mail_id) of
        None \<Rightarrow> (None, set_error (''Saved mail '' @ mail_id @ '' not found.'') s)
      | Some raw \<Rightarrow>
          (case cjson_parse E (cstr (text_of raw)) of
             None \<Rightarrow> (None, s)
           | Some j \<Rightarrow> mail_detail_of E True True decrypt_body mail_id j s))"

definition shyake_read_saved :: "ext \<Rightarrow> string option \<Rightarrow> 'a sys_scheme \<Rightarrow> mail_detail option \<times> 'a sys_scheme" where
  "shyake_read_saved E mail_id s =
     (case mail_id of None \<Rightarrow> (None, s) | Some mid \<Rightarrow> parse_saved_json E mid True (clear_error s))"

definition shyake_check_saved_one :: "ext \<Rightarrow> string option \<Rightarrow> 'a sys_scheme \<Rightarrow> mail_detail option \<times> 'a sys_scheme" where
  "shyake_check_saved_one E mail_id s =
     (case mail_id of None \<Rightarrow> (None, s) | Some mid \<Rightarrow> parse_saved_json E mid False (clear_error s))"

text \<open>The file names of a directory, and the test for \<open>.json\<close>.\<close>

definition dir_names :: "'a world_scheme \<Rightarrow> string \<Rightarrow> string list" where
  "dir_names w d =
     map (\<lambda>p. drop (length d + 1) p)
       (filter (\<lambda>p. prefix (d @ ''/'') p \<and> CHR ''/'' \<notin> set (drop (length d + 1) p)) (remdups (map fst (files w))))"

definition json_name :: "string \<Rightarrow> bool" where
  "json_name n \<longleftrightarrow> length n > 5 \<and> drop (length n - 5) n = ''.json''"

definition list_entry ::
  "ext \<Rightarrow> string option \<Rightarrow> u8 list option \<Rightarrow> string \<Rightarrow> json \<Rightarrow> saved_entry mem" where
  "list_entry E user ksk mail_id j =
     mem_bind (read_fields True False user j) (\<lambda>f.
     mem_bind (mail_key E ksk (mf_key f)) (\<lambda>symk.
     mem_bind (open_text E symk (mf_subject f)) (\<lambda>sub.
       Ok \<lparr>se_mail_id = mail_id, se_sender = mf_sender f, se_recipient = mf_recipient f,
           se_subject = (case sub of Some t \<Rightarrow> t | None \<Rightarrow> ''(decryption failed)''),
           se_timestamp = mf_timestamp f, se_created = 0, se_size = mf_size f\<rparr>)))"

text \<open>Names whose file cannot be opened or parsed are skipped; an id is cut to 255 characters.\<close>

fun list_names ::
  "ext \<Rightarrow> 'a sys_scheme \<Rightarrow> string \<Rightarrow> u8 list option \<Rightarrow> string list \<Rightarrow> saved_entry list mem" where
  "list_names E s d ksk [] = Ok []"
| "list_names E s d ksk (n # ns) =
     (case Option.bind (fs_get s (snprintf 768 (d @ ''/'' @ n))) (\<lambda>raw. cjson_parse E (cstr (text_of raw))) of
        None \<Rightarrow> list_names E s d ksk ns
      | Some j \<Rightarrow>
          mem_bind (list_entry E (username s) ksk (take 255 (take (length n - 5) n)) j) (\<lambda>e.
          mem_bind (list_names E s d ksk ns) (\<lambda>es. Ok (e # es))))"

definition shyake_list_saved :: "ext \<Rightarrow> 'a sys_scheme \<Rightarrow> saved_entry list option \<times> 'a sys_scheme" where
  "shyake_list_saved E s0 =
     (let s = clear_error s0; d = saved_dir s
      in if d \<notin> set (dirs s) then (None, s)
         else
           (let names = filter json_name (dir_names s d)
            in if names = [] then (Some [], s)
               else case load_sk_decrypted E (key_path s ''kem_sk.bin'') s of (ksk, s) \<Rightarrow>
                 (case list_names E s d ksk names of
                    Ok es \<Rightarrow> (Some es, s)
                  | _ \<Rightarrow> (None, mark_ub s))))"

section \<open>Finding a referenced mail\<close>

definition find_ref_in_box :: "ext \<Rightarrow> string \<Rightarrow> string \<Rightarrow> 'a sys_scheme \<Rightarrow> string option \<times> 'a sys_scheme" where
  "find_ref_in_box E ty ref s =
     (case shyake_check E (Some ty) s of
        (None, s) \<Rightarrow> (None, s)
      | (Some es, s) \<Rightarrow> (map_option me_mail_id (find (\<lambda>e. me_ref e = Some ref) es), s))"

fun find_ref_names :: "ext \<Rightarrow> 'a world_scheme \<Rightarrow> string \<Rightarrow> string \<Rightarrow> string list \<Rightarrow> string option" where
  "find_ref_names E w d ref [] = None"
| "find_ref_names E w d ref (n # ns) =
     (if \<not> json_name n then find_ref_names E w d ref ns
      else (case Option.bind (load_file w (snprintf 768 (d @ ''/'' @ n))) (\<lambda>raw. cjson_parse E (text_of raw)) of
              Some j \<Rightarrow>
                (if json_ref E j = Some ref then Some (take (length n - 5) n)
                 else find_ref_names E w d ref ns)
            | None \<Rightarrow> find_ref_names E w d ref ns))"

definition find_ref_in_saved :: "ext \<Rightarrow> string \<Rightarrow> 'a sys_scheme \<Rightarrow> string option" where
  "find_ref_in_saved E ref s =
     (if saved_dir s \<in> set (dirs s)
      then find_ref_names E s (saved_dir s) ref (dir_names s (saved_dir s)) else None)"

text \<open>The id found and whether it names a saved copy.\<close>

definition shyake_find_ref ::
  "ext \<Rightarrow> string option \<Rightarrow> 'a sys_scheme \<Rightarrow> (string option \<times> bool) \<times> 'a sys_scheme" where
  "shyake_find_ref E ref s =
     (if \<not> is_ref ref then ((None, False), s)
      else
        (case (if instance_url s = None \<or> instance_url s = Some [] then (None, s)
               else (case find_ref_in_box E ''inbox'' (the ref) s of
                       (Some mid, s) \<Rightarrow> (Some mid, s)
                     | (None, s) \<Rightarrow> find_ref_in_box E ''sent'' (the ref) s)) of
           (Some mid, s) \<Rightarrow> ((Some mid, False), clear_error s)
         | (None, s) \<Rightarrow>
             (let mid = find_ref_in_saved E (the ref) s in ((mid, mid \<noteq> None), clear_error s))))"

definition shyake_reply_recipient :: "mail_detail option \<Rightarrow> 'a sys_scheme \<Rightarrow> string mem" where
  "shyake_reply_recipient d s =
     (case d of
        None \<Rightarrow> Null
      | Some m \<Rightarrow>
          (case md_recipient m of
             None \<Rightarrow> Null
           | Some r \<Rightarrow>
               (case username s of
                  None \<Rightarrow> Ub
                | Some u \<Rightarrow> Ok (if md_sender m = u then r else md_sender m))))"

section \<open>What a sent mail opens to\<close>

lemma encrypt_to_b64_ok:
  assumes "pt \<noteq> []" and "12 \<le> length (entropy w)" and "\<And>k n a p. evp_chacha_seal E k n a p \<noteq> None"
  obtains b where "encrypt_to_b64 E k pt w = (Some b, w\<lparr>entropy := drop 12 (entropy w)\<rparr>)"
proof -
  obtain ct mac where "chacha20_poly1305_encrypt E k (take 12 (entropy w)) pt None = Some (ct, mac)"
    using assms(3) unfolding chacha20_poly1305_encrypt_def by (metis not_None_eq surj_pair)
  with assms(1,2) that show ?thesis by (simp add: encrypt_to_b64_def read_urandom_def)
qed

lemma seal_mail_opens:
  assumes "base64_law E" and "aead_law E" and "kem_law E" and "kem_ct_length E < 2 ^ 30"
    and "length symk = 32" and "length body < 2 ^ 30" and "length subj < 2 ^ 30"
    and "seal_mail E symk rpk kpk ref (Some subj) body w = (m, w')"
  shows "sm_subject m = Some es \<Longrightarrow> decrypt_from_b64 E symk (Some es) = Ok (cstr subj)"
    and "sm_body m = Some eb \<Longrightarrow> decrypt_from_b64 E symk (Some eb) = Ok (cstr (text_of body))"
    and "ref = Some r \<Longrightarrow> length r < 2 ^ 30 \<Longrightarrow> sm_reply m = Some er \<Longrightarrow> decrypt_from_b64 E symk (Some er) = Ok (cstr r)"
    and "sm_key_recipient m = Some kr \<Longrightarrow> kem_pair E rpk rsk \<Longrightarrow> kem_decapsulate_key E kr rsk = Some symk"
    and "sm_key_sender m = Some ks \<Longrightarrow> kem_pair E kpk ksk \<Longrightarrow> kem_decapsulate_key E ks ksk = Some symk"
    and "ref = None \<Longrightarrow> sm_reply m = None"
proof -
  obtain a s1 where a: "encrypt_to_b64 E symk (bytes_of subj) w = (a, s1)" by (metis surj_pair)
  obtain b s2 where b: "encrypt_to_b64 E symk body s1 = (b, s2)" by (metis surj_pair)
  obtain c s3 where c: "(case ref of None \<Rightarrow> (None, s2) | Some r \<Rightarrow> encrypt_to_b64 E symk (bytes_of r) s2) = (c, s3)" by (metis surj_pair)
  obtain d s4 where d: "kem_encapsulate_key E rpk symk s3 = (d, s4)" by (metis surj_pair)
  obtain e s5 where e: "kem_encapsulate_key E kpk symk s4 = (e, s5)" by (metis surj_pair)
  have m: "m = \<lparr>sm_subject = a, sm_body = b, sm_reply = c, sm_key_recipient = d, sm_key_sender = e\<rparr>"
    using assms(8) by (simp add: seal_mail_def a b c d e)
  note opn = decrypt_encrypt [OF assms(1,2)] and unwrap = decapsulate_encapsulate [OF assms(1,3) _ assms(5,4)]
  show "sm_subject m = Some es \<Longrightarrow> decrypt_from_b64 E symk (Some es) = Ok (cstr subj)"
    using opn [of "bytes_of subj" symk w es s1] a assms(7) by (simp add: m)
  show "sm_body m = Some eb \<Longrightarrow> decrypt_from_b64 E symk (Some eb) = Ok (cstr (text_of body))"
    using opn [of body symk s1 eb s2] b assms(6) by (simp add: m)
  show "ref = Some r \<Longrightarrow> length r < 2 ^ 30 \<Longrightarrow> sm_reply m = Some er \<Longrightarrow> decrypt_from_b64 E symk (Some er) = Ok (cstr r)"
    using opn [of "bytes_of r" symk s2 er s3] c by (simp add: m)
  show "sm_key_recipient m = Some kr \<Longrightarrow> kem_pair E rpk rsk \<Longrightarrow> kem_decapsulate_key E kr rsk = Some symk"
    using unwrap [of rpk rsk s3 kr s4] d by (simp add: m)
  show "sm_key_sender m = Some ks \<Longrightarrow> kem_pair E kpk ksk \<Longrightarrow> kem_decapsulate_key E ks ksk = Some symk"
    using unwrap [of kpk ksk s4 ks s5] e by (simp add: m)
  show "ref = None \<Longrightarrow> sm_reply m = None" using c by (simp add: m)
qed

text \<open>The members of the payload, found by their names.\<close>

lemma lower_names:
  "map lower_c ''sender'' = ''sender''" "map lower_c ''recipient'' = ''recipient''"
  "map lower_c ''recipient_kem_fingerprint'' = ''recipient_kem_fingerprint''"
  "map lower_c ''enc_subject'' = ''enc_subject''" "map lower_c ''enc_body'' = ''enc_body''"
  "map lower_c ''enc_reply_to'' = ''enc_reply_to''" "map lower_c ''timestamp'' = ''timestamp''"
  "map lower_c ''size'' = ''size''" "map lower_c ''enc_key_sender'' = ''enc_key_sender''"
  "map lower_c ''enc_key_recipient'' = ''enc_key_recipient''" "map lower_c ''signature'' = ''signature''"
  "map lower_c ''pow'' = ''pow''"
  by (simp_all add: lower_c_def)

lemma payload_members:
  fixes sdr rcp fp ts sig :: string and pow :: "string option" and n :: nat
  assumes "sm_subject m = Some es" and "sm_body m = Some eb" and "sm_key_recipient m = Some kr"
    and "sm_key_sender m = Some ks"
  defines "j \<equiv> mail_payload (signed_object (Some sdr) rcp fp m ts n) m sig pow"
  shows "get_object_item j ''sender'' = Some (JStr sdr)"
    and "get_object_item j ''recipient'' = Some (JStr rcp)"
    and "get_object_item j ''timestamp'' = Some (JStr ts)"
    and "get_object_item j ''enc_subject'' = Some (JStr es)"
    and "get_object_item j ''enc_body'' = Some (JStr eb)"
    and "get_object_item j ''enc_reply_to'' = map_option JStr (sm_reply m)"
    and "get_object_item j ''enc_key_sender'' = Some (JStr ks)"
    and "get_object_item j ''enc_key_recipient'' = Some (JStr kr)"
    and "get_object_item j ''signature'' = Some (JStr sig)"
  unfolding j_def mail_payload_def signed_object_def Let_def assms(1-4) option.case
  by (cases "sm_reply m"; cases pow;
      simp only: add_string.simps add_number.simps append.simps get_object_item.simps find_member.simps
        same_nocase_def lower_names option.map; simp)+

lemma sign_and_post_OK:
  assumes "sign_and_post E r ref fp ssk m n s = (SHYAKE_OK, s')"
  shows "\<exists>sender sig pow. nullable (sender_string r s) = Ok sender \<and>
     rq_method (last (requests s')) = ''POST'' \<and>
     rq_body (last (requests s')) = Some (cjson_print E
       (mail_payload (signed_object sender r fp m (snprintf 32 (show_int (clock s))) n) m sig pow))"
proof -
  obtain sender where sender: "nullable (sender_string r s) = Ok sender"
    using assms by (cases "nullable (sender_string r s)") (auto simp: sign_and_post_def)
  obtain c s1 where c: "next_coin s = (c, s1)" by (metis surj_pair)
  obtain pow s2 where pow: "shyake_mint_pow E (str_or_null sender) 20 s1 = (pow, s2)" by (metis surj_pair)
  define j where "j = signed_object sender r fp m (snprintf 32 (show_int (clock s))) n"
  define p where "p = cjson_print E (mail_payload j m (base64_encode E (oqs_sig_sign E c (bytes_of (cjson_print E j)) ssk)) pow)"
  obtain h s3 where h: "http_call (post_mail s2 p) s2 = (h, s3)" by (metis surj_pair)
  have ok: "oqs_sig_ok E" using assms by (auto simp: sign_and_post_def sender Let_def split: if_splits)
  have x: "(case h of No_curl \<Rightarrow> (SHYAKE_ERR, s3) | Curl_error e \<Rightarrow> (SHYAKE_ERR_NETWORK, set_network_error e s3)
       | Http code body \<Rightarrow> if code = 200 \<or> code = 201 then (SHYAKE_OK, s3) else send_refused E r ref code body s3)
      = (SHYAKE_OK, s')"
    using assms ok by (simp add: sign_and_post_def sender Let_def c pow h [unfolded p_def j_def])
  then obtain code body where "h = Http code body" "s3 = s'"
    using send_refused_err [of E r ref _ _ s3 SHYAKE_OK s'] by (auto split: http_reply.splits if_splits)
  with h have "last (requests s') = post_mail s2 p"
    by (auto simp: http_call_def split: list.splits http_reply.splits)
  then show ?thesis using sender by (auto simp: post_mail_def p_def j_def)
qed

lemma send_to_key_OK:
  assumes "send_to_key E r ref subj body rpk s = (SHYAKE_OK, s')"
  obtains kpk ssk symk m s3 where "load_file s (key_path s ''kem_pk.bin'') = Some kpk" and "length symk = 32"
    and "32 \<le> length (entropy s)"
    and "seal_mail E symk rpk kpk ref subj body (s\<lparr>entropy := drop 32 (entropy s)\<rparr>) = (m, s3)"
    and "sm_key_recipient m \<noteq> None" and "sm_key_sender m \<noteq> None" and "ref \<noteq> None \<longrightarrow> sm_reply m \<noteq> None"
    and "sign_and_post E r ref (hex_of (sha256 E rpk)) ssk m (length body) s3 = (SHYAKE_OK, s')"
proof -
  obtain k s1 where k: "load_sk_decrypted E (key_path s ''sig_sk.bin'') s = (k, s1)" by (metis surj_pair)
  note x = assms [unfolded send_to_key_def Let_def, unfolded k, simplified]
  obtain kpk where kpk: "load_file s (key_path s ''kem_pk.bin'') = Some kpk"
    using x by (cases "load_file s (key_path s ''kem_pk.bin'')") auto
  obtain ssk where ssk: "k = Some ssk" using x kpk by (cases k) auto
  with k have s1: "s1 = s" using load_sk_ok_frame by blast
  obtain symk where r: "read_urandom 32 s = (Some symk, s\<lparr>entropy := drop 32 (entropy s)\<rparr>)" "32 \<le> length (entropy s)"
    using x kpk ssk s1 by (auto simp: read_urandom_def split: if_splits)
  obtain m s3 where m: "seal_mail E symk rpk kpk ref subj body (s\<lparr>entropy := drop 32 (entropy s)\<rparr>) = (m, s3)"
    by (metis surj_pair)
  have y: "(if sm_key_recipient m = None \<or> sm_key_sender m = None \<or> (ref \<noteq> None \<and> sm_reply m = None)
      then (SHYAKE_ERR_CRYPTO, s3)
      else sign_and_post E r ref (hex_of (sha256 E rpk)) ssk m (length body) s3) = (SHYAKE_OK, s')"
    using x kpk ssk s1 r m by simp
  show ?thesis
    using that [OF kpk read_urandom_length [OF r(1)] r(2) m] y by (auto split: if_splits)
qed

lemma is_ref_clean:
  assumes "is_ref (Some r)"
  shows "nul_free r \<and> length r = 64"
proof -
  have "CHR 0x00 \<notin> set ''0123456789abcdef''" by simp
  then show ?thesis
    using assms unfolding is_ref_def REF_LEN_def nul_free_def list_all_iff option.case by metis
qed

lemma encrypt_to_b64_ne:
  assumes "base64_law E" and "encrypt_to_b64 E k pt w = (Some b, w')"
  shows "b \<noteq> []"
proof -
  obtain nonce ct mac where n: "length nonce = 12" and b: "b = base64_encode E (nonce @ ct @ mac)"
    using encrypt_to_b64_cases [OF assms(2)] by metis
  from n have "nonce @ ct @ mac \<noteq> []" by auto
  then show ?thesis unfolding b base64_encode_ne [OF assms(1)] .
qed

lemma payload_opens:
  fixes sdr r fp ts sig :: string and pow :: "string option" and n :: nat
  assumes m: "sm_subject m = Some es" "sm_body m = Some eb" "sm_key_recipient m = Some kr" "sm_key_sender m = Some ks"
    and d: "decrypt_from_b64 E symk (Some es) = Ok subj" "decrypt_from_b64 E symk (Some eb) = Ok body"
    and ref: "case ref of None \<Rightarrow> sm_reply m = None
       | Some x \<Rightarrow> is_ref ref \<and> (\<exists>er. er \<noteq> [] \<and> sm_reply m = Some er \<and> decrypt_from_b64 E symk (Some er) = Ok x)"
    and key: "kem_decapsulate_key E (if u = sdr then ks else kr) sk = Some symk"
  defines "j \<equiv> mail_payload (signed_object (Some sdr) r fp m ts n) m sig pow"
  shows "\<exists>f dt. read_fields False True (Some u) j = Ok f \<and> open_detail E True (Some sk) mid j f = Ok dt \<and>
     md_sender dt = sdr \<and> md_recipient dt = Some r \<and> md_subject dt = Some subj \<and> md_body dt = Some body \<and>
     md_reply_ref dt = ref \<and> md_ref dt = Some (sig_ref E sig)"
proof -
  note mem = payload_members [OF m, of sdr r fp ts n sig pow, folded j_def]
  have k: "deref_str j (key_field u sdr) = Ok (if u = sdr then ks else kr)"
    using mem by (simp add: key_field_def deref_str_Ok)
  have rr: "open_reply_ref E symk j = Ok ref"
    using ref mem(6) by (cases ref) (auto simp: open_reply_ref_def)
  have ts: "deref_int j ''timestamp'' = Ok 0" using mem(3) by (simp add: deref_int_def)
  have f: "read_fields False True (Some u) j = Ok \<lparr>mf_sender = sdr, mf_recipient = r, mf_timestamp = 0, mf_size = 0,
      mf_key = Some (if u = sdr then ks else kr), mf_subject = Some es, mf_body = Some eb\<rparr>"
    unfolding read_fields_def
    by (simp only: mem(1,2,4,5) [THEN deref_str_Ok] ts k used_str.simps mem_bind.simps nullable.simps if_False if_True
        option.case)
  have "json_ref E j = Some (sig_ref E sig)" using mem(9) by (simp add: json_ref_def)
  moreover have "mail_key E (Some sk) (Some (if u = sdr then ks else kr)) = Ok (Some symk)"
    using key by (simp add: mail_key_def)
  moreover have "open_text E (Some symk) (Some es) = Ok (Some subj)" "open_text E (Some symk) (Some eb) = Ok (Some body)"
    using d by (simp_all add: open_text_def)
  ultimately have "open_detail E True (Some sk) mid j \<lparr>mf_sender = sdr, mf_recipient = r, mf_timestamp = 0, mf_size = 0,
      mf_key = Some (if u = sdr then ks else kr), mf_subject = Some es, mf_body = Some eb\<rparr> =
      Ok \<lparr>md_mail_id = mid, md_sender = sdr, md_recipient = Some r, md_subject = Some subj, md_body = Some body,
        md_timestamp = 0, md_created = 0, md_size = 0, md_ref = Some (sig_ref E sig), md_reply_ref = ref\<rparr>"
    unfolding open_detail_def
    by (simp only: mem_bind.simps mail_fields.simps rr option.case option.distinct not_False_eq_True simp_thms if_True)
  with f show ?thesis by (intro exI conjI) (assumption, assumption, simp_all)
qed

lemma sealed_texts:
  assumes "\<And>k n a p. evp_chacha_seal E k n a p \<noteq> None" and "24 \<le> length (entropy w)"
    and "subj \<noteq> []" and "body \<noteq> []" and "seal_mail E symk rpk kpk ref (Some subj) body w = (m, w')"
  shows "\<exists>es eb. sm_subject m = Some es \<and> sm_body m = Some eb"
proof -
  obtain es where es: "encrypt_to_b64 E symk (bytes_of subj) w = (Some es, w\<lparr>entropy := drop 12 (entropy w)\<rparr>)"
    using encrypt_to_b64_ok [of "bytes_of subj" w E symk] assms(1-3) by auto
  have l: "12 \<le> length (entropy w) - 12" using assms(2) by simp
  obtain eb where "encrypt_to_b64 E symk body (w\<lparr>entropy := drop 12 (entropy w)\<rparr>)
      = (Some eb, w\<lparr>entropy := drop 12 (entropy w), entropy := drop 12 (drop 12 (entropy w))\<rparr>)"
    using encrypt_to_b64_ok [of body "w\<lparr>entropy := drop 12 (entropy w)\<rparr>" E symk] assms(1,4) l by auto
  with es assms(5) show ?thesis by (auto simp: seal_mail_def split: prod.splits)
qed

section \<open>Properties\<close>

text \<open>C1. End to end: when \<open>send_mail\<close> reports success, its last request was a POST whose body is the JSON
  of a mail that opens to exactly the subject, body and reply reference that were sent: for the
  recipient with the secret key of the key that was fetched, and for the sender with the own secret
  key. The hypotheses: no NUL in the texts, a subject and a body that are not empty, and 56 bytes of
  \<open>/dev/urandom\<close> (without which the code sends the mail without its body, see below).\<close>

theorem sent_mail_opens:
  fixes s s' :: "'a sys_scheme"
  assumes laws: "base64_law E" "aead_law E" "kem_law E" "kem_ct_length E < 2 ^ 30"
      "\<And>k n a p. evp_chacha_seal E k n a p \<noteq> None"
    and fetched: "fetch_recipient_pubkey E r (clear_error s) = (Some pk_b64, SHYAKE_OK, t)"
      "base64_bytes E pk_b64 = Ok rpk" "kem_pair E rpk rsk"
    and own: "load_file s (key_path s ''kem_pk.bin'') = Some kpk" "kem_pair E kpk ksk"
      "key_path s ''kem_pk.bin'' \<noteq> hosts_path (config_dir s)"
    and texts: "subj \<noteq> []" "nul_free subj" "length subj < 2 ^ 30"
      "body \<noteq> []" "nul_free (text_of body)" "length body < 2 ^ 30" "ref = None \<or> is_ref ref"
    and env: "56 \<le> length (entropy t)" "sender_string r s = Ok sdr"
    and sent: "send_mail E (Some r) ref (Some subj) (Some body) s = (SHYAKE_OK, s')"
  shows "\<exists>j. rq_method (last (requests s')) = ''POST'' \<and> rq_body (last (requests s')) = Some (cjson_print E j) \<and>
     (\<forall>u sk. (if u = sdr then sk = ksk else sk = rsk) \<longrightarrow>
       (\<exists>f d. read_fields False True (Some u) j = Ok f \<and> open_detail E True (Some sk) mid j f = Ok d \<and>
         md_sender d = sdr \<and> md_recipient d = Some r \<and> md_subject d = Some subj \<and>
         md_body d = Some (text_of body) \<and> md_reply_ref d = ref))"
proof -
  note keep = net_step_keeps [OF net_step_fetch_pubkey [OF fetched(1)]]
  define t' where "t' = (if get_known_host s (config_dir s) r = None
      then add_known_host (config_dir s) r (hex_of (sha256 E rpk)) pk_b64 t else t)"
  have go: "send_to_key E r ref (Some subj) body rpk t' = (SHYAKE_OK, s')"
    using sent unfolding send_mail_looked_up [OF texts(7) fetched(1,2)] t'_def Let_def
    by (auto split: mem.splits bool.splits)
  have t': "load_file t' (key_path t' ''kem_pk.bin'') = Some kpk" "entropy t' = entropy t"
    "instance_url t' = instance_url s" "username t' = username s"
    using own keep by (auto simp: t'_def load_file_def key_path_def add_known_host_keeps)
  from go obtain kpk' ssk symk m and s3 :: "'a sys_scheme" where
    k: "load_file t' (key_path t' ''kem_pk.bin'') = Some kpk'" and symk: "length symk = 32"
    and m: "seal_mail E symk rpk kpk' ref (Some subj) body (t'\<lparr>entropy := drop 32 (entropy t')\<rparr>) = (m, s3)"
    and ne: "sm_key_recipient m \<noteq> None" "sm_key_sender m \<noteq> None" "ref \<noteq> None \<longrightarrow> sm_reply m \<noteq> None"
    and post: "sign_and_post E r ref (hex_of (sha256 E rpk)) ssk m (length body) s3 = (SHYAKE_OK, s')"
    by (rule send_to_key_OK)
  have kpk': "kpk' = kpk" using k t'(1) by simp
  note st = net_step_keeps [OF net_step_seal_mail [OF m]]
  have "instance_url s3 = instance_url s" "username s3 = username s" using st t' by simp_all
  then have "sender_string r s3 = sender_string r s" unfolding sender_string_def by (simp only:)
  with env(2) have sdr: "sender_string r s3 = Ok sdr" by simp
  from sign_and_post_OK [OF post] sdr obtain sig pow where
    rq: "rq_method (last (requests s')) = ''POST''"
      "rq_body (last (requests s')) = Some (cjson_print E (mail_payload
        (signed_object (Some sdr) r (hex_of (sha256 E rpk)) m (snprintf 32 (show_int (clock s3))) (length body)) m sig pow))"
    by auto
  obtain es eb where e: "sm_subject m = Some es" "sm_body m = Some eb"
  proof -
    have "24 \<le> length (entropy (t'\<lparr>entropy := drop 32 (entropy t')\<rparr>))" using env(1) t'(2) by simp
    from sealed_texts [OF laws(5) this texts(1,4) m] that show ?thesis by blast
  qed
  obtain kr ks where ky: "sm_key_recipient m = Some kr" "sm_key_sender m = Some ks" using ne by auto
  note opens = seal_mail_opens [OF laws(1-4) symk texts(6,3) m, unfolded kpk']
  have "case ref of None \<Rightarrow> sm_reply m = None
       | Some x \<Rightarrow> is_ref ref \<and> (\<exists>er. er \<noteq> [] \<and> sm_reply m = Some er \<and> decrypt_from_b64 E symk (Some er) = Ok x)"
  proof (cases ref)
    case (Some x)
    then have x: "is_ref (Some x)" using texts(7) by simp
    obtain er where er: "sm_reply m = Some er" using ne(3) Some by auto
    have "er \<noteq> []" using er m Some
      by (auto simp: seal_mail_def dest: encrypt_to_b64_ne [OF laws(1)] split: prod.splits)
    then show ?thesis using Some x er opens(3) [OF Some _ er] is_ref_clean [OF x] by simp
  qed (use opens(6) in simp)
  note p = payload_opens [OF e ky opens(1) [OF e(1), unfolded cstr_nul_free [OF texts(2)]]
      opens(2) [OF e(2), unfolded cstr_nul_free [OF texts(5)]] this]
  have "\<exists>f d. read_fields False True (Some u) j = Ok f \<and> open_detail E True (Some sk) mid j f = Ok d \<and>
         md_sender d = sdr \<and> md_recipient d = Some r \<and> md_subject d = Some subj \<and>
         md_body d = Some (text_of body) \<and> md_reply_ref d = ref"
    if "if u = sdr then sk = ksk else sk = rsk"
      and "j = mail_payload (signed_object (Some sdr) r (hex_of (sha256 E rpk)) m (snprintf 32 (show_int (clock s3))) (length body)) m sig pow"
    for u sk j
  proof -
    have "kem_decapsulate_key E (if u = sdr then ks else kr) sk = Some symk"
      using opens(4) [OF ky(1) fetched(3)] opens(5) [OF ky(2) own(2)] that(1) by (auto split: if_splits)
    from p [OF this] show ?thesis unfolding that(2) by blast
  qed
  with rq show ?thesis by blast
qed

text \<open>A run of \<open>send_mail\<close> for the witnesses: a first contact with bob.\<close>

definition send_world :: sys where
  "send_world = sys0\<lparr>files := [(''/c/kem_pk.bin'', [5, 7]), (''/c/sig_sk.bin'', [1])],
     replies := [Http 200 ''key'', Http 201 '''']\<rparr>"

definition send_provider :: ext where
  "send_provider = toy_reply (JObj [(''kem_pubkey'', JStr ''BAc='')])"

lemma send_provider_facts:
  "base64_law send_provider" "aead_law send_provider" "kem_law send_provider"
  "kem_ct_length send_provider < 2 ^ 30" "evp_chacha_seal send_provider k n a p \<noteq> None"
  "base64_bytes send_provider ''BAc='' = Ok [4, 7]"
  "kem_pair send_provider [4, 7] [4, 8]" "kem_pair send_provider [5, 7] [5, 8]"
proof -
  show laws: "base64_law send_provider" "aead_law send_provider" "kem_law send_provider"
    by (simp_all add: send_provider_def toy_reply_laws)
  show "kem_ct_length send_provider < 2 ^ 30" "evp_chacha_seal send_provider k n a p \<noteq> None"
    by (simp_all add: send_provider_def toy_reply_def toy_simps)
  have "base64_encode send_provider [4, 7] = ''BAc=''"
    by (simp add: base64_encode_def send_provider_def toy_reply_def toy_simps b64_char_def b64_alphabet_def)
  with base64_bytes_encode [OF laws(1), of "[4, 7]"] show "base64_bytes send_provider ''BAc='' = Ok [4, 7]" by simp
  have "oqs_kem_keypair send_provider c = Some ([of_nat c, 7], [of_nat c, 8])" for c
    by (simp add: send_provider_def toy_reply_def toy_simps)
  from kem_law_pair [OF laws(3) this] have "kem_pair send_provider [of_nat c, 7] [of_nat c, 8]" for c .
  from this [of 4] this [of 5] show "kem_pair send_provider [4, 7] [4, 8]" "kem_pair send_provider [5, 7] [5, 8]"
    by simp_all
qed

lemma send_world_fetch:
  "\<exists>t. fetch_recipient_pubkey send_provider ''bob'' (clear_error send_world) = (Some ''BAc='', SHYAKE_OK, t) \<and>
     entropy t = replicate 200 5 \<and> replies t = [Http 201 ''''] \<and> coins t = 0 \<and> net_step send_world t"
proof -
  obtain t where t: "fetch_recipient_pubkey send_provider ''bob'' (clear_error send_world) = (Some ''BAc='', SHYAKE_OK, t)"
    "entropy t = replicate 200 5" "replies t = [Http 201 '''']" "coins t = 0"
    by (simp add: fetch_recipient_pubkey_def http_call_def send_provider_def toy_reply_laws send_world_def)
  have "net_step send_world (clear_error send_world)" by simp
  also note net_step_fetch_pubkey [OF t(1)]
  finally show ?thesis using t by blast
qed

lemma send_provider_pow: "pow_loop send_provider 20 h 0 = Some (h 0)"
  by (simp add: pow_loop.simps send_provider_def toy_reply_def toy_simps pow_match_def list_all_iff)

lemma send_provider_simps:
  "oqs_kem_ok send_provider" "kem_pk_length send_provider = 2" "oqs_sig_ok send_provider"
  "evp_chacha_seal send_provider k n a d = Some (d, pad_to 16 k)"
  "oqs_kem_encaps send_provider c pk = Some ([of_nat c], replicate 32 (of_nat c + pk ! 0))"
  by (simp_all add: send_provider_def toy_reply_def toy_simps)

lemma send_tail:
  fixes u :: sys
  assumes "entropy u = replicate 200 5" and "replies u = [Http 201 '''']" and "username u = Some ''ann''"
    and "load_file u (key_path u ''kem_pk.bin'') = Some [5, 7]"
    and "load_sk_decrypted send_provider (key_path u ''sig_sk.bin'') u = (Some [1], u)"
  shows "\<exists>s'. send_to_key send_provider ''bob'' None (Some ''hi'') [104] [4, 7] u = (SHYAKE_OK, s')"
  using assms
  by (simp add: send_to_key_def Let_def read_urandom_def seal_mail_def encrypt_to_b64_def kem_encapsulate_key_def
      next_coin_def chacha20_poly1305_encrypt_def send_provider_simps sign_and_post_def sender_string_def
      shyake_mint_pow_def pow_rand_def send_provider_pow http_call_def)

lemma send_world_ok:
  "\<exists>s'. send_mail send_provider (Some ''bob'') None (Some ''hi'') (Some [104]) send_world = (SHYAKE_OK, s')"
proof -
  obtain t where t: "fetch_recipient_pubkey send_provider ''bob'' (clear_error send_world) = (Some ''BAc='', SHYAKE_OK, t)"
    and t': "entropy t = replicate 200 5" "replies t = [Http 201 '''']" "coins t = 0" and st: "net_step send_world t"
    using send_world_fetch by blast
  note keep = net_step_keeps [OF st]
  have k: "get_known_host send_world (config_dir send_world) ''bob'' = None"
    by (simp add: get_known_host_def host_lines_def fs_get_def send_world_def hosts_path_def)
  let ?s = "add_known_host (config_dir send_world) ''bob'' (hex_of (sha256 send_provider [4, 7])) ''BAc='' t"
  have f: "load_file ?s (key_path ?s ''kem_pk.bin'') = Some [5, 7]" "load_file ?s (key_path ?s ''sig_sk.bin'') = Some [1]"
  proof -
    have p: "key_path ?s n = ''/c/'' @ n" if "length n < 100" for n
      using keep that by (simp add: key_path_def send_world_def)
    have "fs_get ?s q = map_of [(''/c/kem_pk.bin'', [5, 7]), (''/c/sig_sk.bin'', [1])] q" if "q \<noteq> ''/c/known_hosts''" for q
    proof -
      have "fs_get ?s q = fs_get t q"
        by (rule add_known_host_keeps) (use that in \<open>simp add: hosts_path_def send_world_def\<close>)
      also have "\<dots> = map_of [(''/c/kem_pk.bin'', [5, 7]), (''/c/sig_sk.bin'', [1])] q"
        unfolding fs_get_def keep by (simp add: send_world_def)
      finally show ?thesis .
    qed
    then show "load_file ?s (key_path ?s ''kem_pk.bin'') = Some [5, 7]" "load_file ?s (key_path ?s ''sig_sk.bin'') = Some [1]"
      by (simp_all add: load_file_def p)
  qed
  have "load_sk_decrypted send_provider (key_path ?s ''sig_sk.bin'') ?s = (Some [1], ?s)"
    using f(2) by (simp add: load_sk_decrypted_def)
  then show ?thesis
    unfolding send_mail_looked_up [OF disjI1 [OF refl] t send_provider_facts(6)] Let_def k
    using send_tail [of ?s] f(1) t' keep
    by (simp add: pin_check_def send_world_def)
qed

theorem sent_mail_opens_witness:
  "\<exists>s' j f d. send_mail send_provider (Some ''bob'') None (Some ''hi'') (Some [104]) send_world = (SHYAKE_OK, s') \<and>
     rq_body (last (requests s')) = Some (cjson_print send_provider j) \<and>
     read_fields False True (Some ''bob'') j = Ok f \<and> open_detail send_provider True (Some [4, 8]) ''1'' j f = Ok d \<and>
     md_subject d = Some ''hi'' \<and> md_body d = Some (text_of [104])"
proof -
  obtain t where t: "fetch_recipient_pubkey send_provider ''bob'' (clear_error send_world) = (Some ''BAc='', SHYAKE_OK, t)"
    and e: "56 \<le> length (entropy t)" using send_world_fetch by auto
  obtain s' where s': "send_mail send_provider (Some ''bob'') None (Some ''hi'') (Some [104]) send_world = (SHYAKE_OK, s')"
    using send_world_ok by blast
  have own: "load_file send_world (key_path send_world ''kem_pk.bin'') = Some [5, 7]"
    "key_path send_world ''kem_pk.bin'' \<noteq> hosts_path (config_dir send_world)"
    by (simp_all add: load_file_def key_path_def fs_get_def send_world_def hosts_path_def)
  have nf: "nul_free (text_of [104])" by (simp add: text_of_def char_of_byte_def nul_free_def)
  have sdr: "sender_string ''bob'' send_world = Ok ''ann''" by (simp add: sender_string_def send_world_def)
  from sent_mail_opens [OF send_provider_facts(1-5) t send_provider_facts(6,7) own(1) send_provider_facts(8) own(2)
      _ _ _ _ nf _ _ e sdr s', of "''1''"]
  obtain j where "rq_body (last (requests s')) = Some (cjson_print send_provider j)"
    and o: "\<forall>u sk. (if u = ''ann'' then sk = [5, 8] else sk = [4, 8]) \<longrightarrow>
       (\<exists>f d. read_fields False True (Some u) j = Ok f \<and> open_detail send_provider True (Some sk) ''1'' j f = Ok d \<and>
         md_sender d = ''ann'' \<and> md_recipient d = Some ''bob'' \<and> md_subject d = Some ''hi'' \<and>
         md_body d = Some (text_of [104]) \<and> md_reply_ref d = None)"
    by auto
  moreover from o [rule_format, of "''bob''" "[4, 8]"] obtain f d where
    "read_fields False True (Some ''bob'') j = Ok f" "open_detail send_provider True (Some [4, 8]) ''1'' j f = Ok d"
    "md_subject d = Some ''hi''" "md_body d = Some (text_of [104])" by auto
  ultimately show ?thesis using s' by blast
qed

section \<open>Reading leaves the files alone\<close>

lemma net_step_init: "curl_init s = (b, s') \<Longrightarrow> net_step s s'"
  unfolding curl_init_def
  using net_step_queue [of s "requests s"] by (auto split: list.splits http_reply.splits)

lemma net_step_signed_call:
  assumes "signed_call E m ep s = (r, s')"
  shows "net_step s s'"
proof -
  obtain b s1 where b: "curl_init s = (b, s1)" by (metis surj_pair)
  obtain h s2 where h: "create_signed_headers E m ep (str_or_null (username s1)) s1 = (h, s2)" by (metis surj_pair)
  have s1: "net_step s s1" using b by (rule net_step_init)
  also have "net_step s1 s2" using h unfolding create_signed_headers_def by (rule net_step_headers)
  finally have s2: "net_step s s2" .
  have "net_step s t" if "http_call rq s2 = (a, t)" for rq a t
    using s2 net_step_http [OF that] by (rule net_step_trans)
  with assms s1 s2 show ?thesis
    by (auto simp: signed_call_def Let_def b h split: bool.splits option.splits prod.splits)
qed

lemma net_step_detail:
  assumes "mail_detail_of E a b c mid j s = (d, s')"
  shows "net_step s s'"
proof -
  obtain k s1 where k: "load_sk_decrypted E (key_path s ''kem_sk.bin'') s = (k, s1)" by (metis surj_pair)
  have s1: "net_step s s1" using k by (rule net_step_load_sk)
  note s1 [THEN net_step_trans, simp]
  show ?thesis using assms s1 by (auto simp: mail_detail_of_def k split: mem.splits)
qed

lemma net_step_clear: "net_step (clear_error s) s' \<Longrightarrow> net_step s s'"
  by (rule net_step_trans [OF net_step_error(2)])

lemma net_step_after_call:
  assumes "signed_call E m ep (clear_error s) = (r, t)"
  shows "net_step s t" "net_step s (set_server_error E code body t)" "net_step s (set_network_error e t)"
    "net_step s (mark_ub t)"
    "load_sk_decrypted E p t = (k, v) \<Longrightarrow> net_step s v" "load_sk_decrypted E p t = (k, v) \<Longrightarrow> net_step s (mark_ub v)"
    "mail_detail_of E a b c mid j t = (d, v) \<Longrightarrow> net_step s v"
proof -
  show t: "net_step s t" using net_step_signed_call [OF assms] by (rule net_step_clear)
  note t [THEN net_step_trans]
  from this show "net_step s (set_server_error E code body t)" "net_step s (set_network_error e t)"
    "net_step s (mark_ub t)" by simp_all
  show v: "load_sk_decrypted E p t = (k, v) \<Longrightarrow> net_step s v"
    using t net_step_load_sk by (rule net_step_trans)
  show "load_sk_decrypted E p t = (k, v) \<Longrightarrow> net_step s (mark_ub v)"
    by (rule net_step_trans [OF v]) simp_all
  show "mail_detail_of E a b c mid j t = (d, v) \<Longrightarrow> net_step s v"
    using t net_step_detail by (rule net_step_trans)
qed

lemma net_step_check: "shyake_check E ty s = (r, s') \<Longrightarrow> net_step s s'"
  by (auto simp: shyake_check_def net_step_after_call split: option.splits prod.splits http_reply.splits
      if_splits json.splits mem.splits)

lemma net_step_read_mail: "read_mail E a b mid s = (r, s') \<Longrightarrow> net_step s s'"
  by (auto simp: read_mail_def net_step_after_call split: option.splits prod.splits http_reply.splits if_splits)

lemma net_step_burn: "shyake_burn E mid s = (r, s') \<Longrightarrow> net_step s s'"
  by (auto simp: shyake_burn_def net_step_after_call split: option.splits prod.splits http_reply.splits if_splits)

lemma net_step_parse_saved: "parse_saved_json E mid b s = (r, s') \<Longrightarrow> net_step s s'"
  by (auto simp: parse_saved_json_def dest: net_step_detail split: option.splits)

lemma net_step_list_saved:
  assumes "shyake_list_saved E s = (r, s')"
  shows "net_step s s'"
proof -
  obtain k t where k: "load_sk_decrypted E (key_path (clear_error s) ''kem_sk.bin'') (clear_error s) = (k, t)" by (metis surj_pair)
  have t: "net_step s t" using net_step_load_sk [OF k] by (rule net_step_clear)
  note t [THEN net_step_trans, simp]
  show ?thesis using assms t
    by (auto simp: shyake_list_saved_def Let_def k split: if_splits mem.splits prod.splits)
qed

lemma net_step_find_box: "find_ref_in_box E ty ref s = (r, s') \<Longrightarrow> net_step s s'"
  by (auto simp: find_ref_in_box_def dest: net_step_check split: prod.splits option.splits)

lemma net_step_find_ref:
  assumes "shyake_find_ref E ref s = (r, s')"
  shows "net_step s s'"
proof -
  obtain a t where a: "find_ref_in_box E ''inbox'' (the ref) s = (a, t)" by (metis surj_pair)
  obtain b v where b: "find_ref_in_box E ''sent'' (the ref) t = (b, v)" by (metis surj_pair)
  have t: "net_step s t" using a by (rule net_step_find_box)
  have v: "net_step s v" using t net_step_find_box [OF b] by (rule net_step_trans)
  note t [THEN net_step_trans, simp] v [THEN net_step_trans, simp]
  show ?thesis using assms t v
    by (auto simp: shyake_find_ref_def a b Let_def split: if_splits option.splits)
qed

text \<open>C22. No command that only looks at mail changes a file or a setting of the context: listing a
  mailbox, fetching a mail or its head, burning a mail on the server, reading, heading and listing saved
  mail, and finding a reference, whatever the server answers.\<close>

theorem mail_reads_keep_files:
  assumes "snd (shyake_check E ty s) = s' \<or> snd (shyake_fetch E mid s) = s' \<or> snd (shyake_check_one E mid s) = s' \<or>
    snd (shyake_burn E mid s) = s' \<or> snd (shyake_read_saved E mid s) = s' \<or>
    snd (shyake_check_saved_one E mid s) = s' \<or> snd (shyake_list_saved E s) = s' \<or>
    snd (shyake_find_ref E ref s) = s'"
  shows "files s' = files s \<and> dirs s' = dirs s \<and> username s' = username s \<and> passphrase s' = passphrase s"
proof -
  have "net_step s (snd (shyake_check E ty s))" "net_step s (snd (shyake_fetch E mid s))"
    "net_step s (snd (shyake_check_one E mid s))" "net_step s (snd (shyake_burn E mid s))"
    "net_step s (snd (shyake_list_saved E s))" "net_step s (snd (shyake_find_ref E ref s))"
    unfolding shyake_fetch_def shyake_check_one_def
    by (metis prod.collapse net_step_check net_step_read_mail net_step_burn net_step_list_saved net_step_find_ref)+
  moreover have "net_step s (snd (parse_saved_json E i b (clear_error s)))" for i b
    by (rule net_step_clear, rule net_step_parse_saved) (rule prod.collapse [symmetric])
  then have "net_step s (snd (shyake_read_saved E mid s))" "net_step s (snd (shyake_check_saved_one E mid s))"
    by (simp_all add: shyake_read_saved_def shyake_check_saved_one_def split: option.split)
  ultimately have "net_step s s'" using assms by blast
  from net_step_keeps [OF this] show ?thesis by simp
qed

theorem mail_reads_keep_files_witness:
  "files (snd (shyake_check toy (Some ''inbox'') (sys0\<lparr>files := [(''x'', [1])]\<rparr>))) = [(''x'', [1])]"
  (is "files (snd ?c) = _")
proof -
  have "files (snd ?c) = files (sys0\<lparr>files := [(''x'', [1])]\<rparr>)"
    using mail_reads_keep_files [OF disjI1, OF refl, of toy "Some ''inbox''" "sys0\<lparr>files := [(''x'', [1])]\<rparr>"]
    by (rule conjunct1)
  also have "\<dots> = [(''x'', [1])]" by simp
  finally show ?thesis .
qed

lemma signed_call_reply:
  assumes "signed_call E m ep s = (Some r, s')" and "replies s = Http c b # rs"
  shows "r = Http c (cstr b)"
proof -
  obtain h s2 where h: "create_signed_headers E m ep (str_or_null (username s)) s = (h, s2)" by (metis surj_pair)
  have "replies s2 = replies s"
  proof -
    obtain k s1 where k: "load_sk_decrypted E (key_path s ''sig_sk.bin'') s = (k, s1)" by (metis surj_pair)
    obtain c' s3 where c': "next_coin s1 = (c', s3)" by (metis surj_pair)
    obtain p s4 where p: "shyake_mint_pow E (str_or_null (username s)) 20 s3 = (p, s4)" by (metis surj_pair)
    have "replies s1 = replies s" using load_sk_frame [OF k] by auto
    moreover have "replies s3 = replies s1" using c' by (auto simp: next_coin_def)
    moreover have "replies s4 = replies s3" using mint_pow_frame [OF p] by auto
    ultimately show ?thesis
      using h by (auto simp: create_signed_headers_def create_signed_headers_body_def k c' p Let_def
          split: option.splits if_splits)
  qed
  then show ?thesis
    using assms h by (auto simp: signed_call_def curl_init_def http_call_def Let_def split: option.splits prod.splits)
qed

lemma read_fields_size:
  "read_fields True b u j = Ok f \<Longrightarrow> read_fields False b u j = Ok (f\<lparr>mf_size := 0\<rparr>)"
  by (auto simp: read_fields_def)

lemma open_detail_size:
  "open_detail E b k mid j f = Ok d \<Longrightarrow> open_detail E b k mid j (f\<lparr>mf_size := n\<rparr>) = Ok (d\<lparr>md_size := n\<rparr>)"
  by (auto simp: open_detail_def)

lemma detail_cases:
  assumes "mail_detail_of E a b c mid j s = (Some d, s')"
  obtains f where "read_fields a b (username s) j = Ok f"
    and "open_detail E c (fst (load_sk_decrypted E (key_path s ''kem_sk.bin'') s)) mid j f = Ok d"
  using assms by (auto simp: mail_detail_of_def split: mem.splits prod.splits)

lemma read_mail_cases:
  assumes "read_mail E a b (Some mid) s = (Some d, s')"
  obtains body t j where "signed_call E ''GET'' (mail_endpoint mid) (clear_error s) = (Some (Http 200 body), t)"
    and "cjson_parse E body = Some j" and "mail_detail_of E a b b mid j t = (Some d, s')"
  using assms by (auto simp: read_mail_def split: prod.splits option.splits http_reply.splits if_splits)

lemma save_mail_cases:
  fixes s s' :: "'a sys_scheme"
  assumes "shyake_save_mail E (Some mid) s = (SHYAKE_OK, s')"
  obtains body n and t v :: "'a sys_scheme" where "ensure_saved_dir (clear_error s) = (True, t)"
    and "signed_call E ''GET'' (mail_endpoint mid) t = (Some (Http 200 body), v)"
    and "write_file (saved_path v mid) (bytes_of body) v = (Some n, s')"
  using assms by (auto simp: shyake_save_mail_def split: prod.splits bool.splits option.splits http_reply.splits if_splits)

lemma ensure_saved_dir_frame:
  "ensure_saved_dir s = (b, s') \<Longrightarrow> \<exists>ds. s' = s\<lparr>dirs := ds\<rparr>"
proof -
  have "\<exists>ds. s = s\<lparr>dirs := ds\<rparr>" by (rule exI [of _ "dirs s"]) simp
  moreover assume "ensure_saved_dir s = (b, s')"
  ultimately show ?thesis by (auto simp: ensure_saved_dir_def Let_def split: if_splits)
qed

lemma saved_key_paths_differ:
  assumes "length (config_dir s) < 490"
  shows "saved_path t mid = snprintf 640 (config_dir s @ ''/saved/'' @ mid @ ''.json'') \<Longrightarrow>
    key_path s ''kem_sk.bin'' \<noteq> saved_path t mid"
proof -
  assume p: "saved_path t mid = snprintf 640 (config_dir s @ ''/saved/'' @ mid @ ''.json'')"
  have "key_path s ''kem_sk.bin'' ! (length (config_dir s) + 1) = CHR ''k''"
    using assms by (simp add: key_path_def nth_append)
  moreover have "saved_path t mid ! (length (config_dir s) + 1) = CHR ''s''"
    unfolding p snprintf_def using assms by (simp add: nth_append)
  ultimately show ?thesis by auto
qed

text \<open>C24. A mail that was saved reads like the mail on the server: for the same answer of the instance,
  \<open>shyake_read_saved\<close> after \<open>shyake_save_mail\<close> gives the same sender, recipient, subject, body, time
  and references as \<open>shyake_fetch\<close> gives; only the size, which fetching does not read, may differ.\<close>

theorem saved_reads_as_fetched:
  assumes "replies s = Http 200 body # rs" and "length (config_dir s) < 490"
    and "can_store s (saved_path s mid) (length (cstr body))"
    and "shyake_save_mail E (Some mid) s = (SHYAKE_OK, s1)"
    and "shyake_fetch E (Some mid) s = (Some d, s2)"
    and "shyake_read_saved E (Some mid) s1 = (Some d', s3)"
  shows "d' = d\<lparr>md_size := md_size d'\<rparr>"
proof -
  from assms(5) obtain b t j where f: "signed_call E ''GET'' (mail_endpoint mid) (clear_error s) = (Some (Http 200 b), t)"
      "cjson_parse E b = Some j" "mail_detail_of E False True True mid j t = (Some d, s2)"
    unfolding shyake_fetch_def by (rule read_mail_cases)
  have b: "b = cstr body" using signed_call_reply [OF f(1)] assms(1) by (simp add: clear_error_def)
  note kt = net_step_keeps [OF net_step_signed_call [OF f(1)]]
  from assms(4) obtain b' n and v w :: "'a sys_scheme" where w: "ensure_saved_dir (clear_error s) = (True, v)"
      "signed_call E ''GET'' (mail_endpoint mid) v = (Some (Http 200 b'), w)"
      "write_file (saved_path w mid) (bytes_of b') w = (Some n, s1)"
    by (rule save_mail_cases)
  obtain ds where v: "v = (clear_error s)\<lparr>dirs := ds\<rparr>" using ensure_saved_dir_frame [OF w(1)] by blast
  have b': "b' = cstr body" using signed_call_reply [OF w(2)] assms(1) by (simp add: v clear_error_def)
  note kw = net_step_keeps [OF net_step_signed_call [OF w(2)]]
  have cd: "config_dir w = config_dir s" "username w = username s" "passphrase w = passphrase s" "files w = files s"
    "disk w = disk s" using kw by (simp_all add: v)
  have sp: "saved_path w mid = saved_path s mid" using cd by (simp add: saved_path_def)
  have "can_store w (saved_path s mid) (length (bytes_of b'))"
    using assms(3) cd by (simp add: can_store_def b')
  then have s1: "s1 = fs_put (saved_path s mid) (bytes_of (cstr body)) w"
    using w(3) by (simp add: write_file_ok sp b')
  let ?r = "clear_error s1"
  have "fs_get ?r (saved_path ?r mid) = Some (bytes_of (cstr body))"
    by (simp add: s1 store_simps saved_path_def cd)
  then have "mail_detail_of E True True True mid j ?r = (Some d', s3)"
    using assms(6) f(2) by (simp add: shyake_read_saved_def parse_saved_json_def b)
  then obtain g where g: "read_fields True True (username ?r) j = Ok g"
      "open_detail E True (fst (load_sk_decrypted E (key_path ?r ''kem_sk.bin'') ?r)) mid j g = Ok d'"
    by (rule detail_cases)
  from f(3) obtain h where h: "read_fields False True (username t) j = Ok h"
      "open_detail E True (fst (load_sk_decrypted E (key_path t ''kem_sk.bin'') t)) mid j h = Ok d"
    by (rule detail_cases)
  have p: "key_path ?r n = key_path s n" "key_path t n = key_path s n" for n
    using kt by (simp_all add: key_path_def s1 cd)
  have "key_path s ''kem_sk.bin'' \<noteq> saved_path s mid"
    using assms(2) by (rule saved_key_paths_differ) (simp add: saved_path_def)
  then have "fs_get ?r (key_path s ''kem_sk.bin'') = fs_get t (key_path s ''kem_sk.bin'')"
  proof -
    assume ne: "key_path s ''kem_sk.bin'' \<noteq> saved_path s mid"
    have "fs_get w q = fs_get s q" "fs_get t q = fs_get s q" for q
      using kt cd by (simp_all add: fs_get_def)
    with ne show ?thesis by (simp add: s1 store_simps)
  qed
  then have k: "fst (load_sk_decrypted E (key_path ?r ''kem_sk.bin'') ?r) = fst (load_sk_decrypted E (key_path t ''kem_sk.bin'') t)"
    unfolding p load_sk_value load_file_def using kt by (simp add: s1 cd)
  have "h = g\<lparr>mf_size := 0\<rparr>"
    using read_fields_size [OF g(1)] h(1) kt by (simp add: s1 cd)
  then have "d = d'\<lparr>md_size := 0\<rparr>"
    using open_detail_size [OF g(2), of 0] h(2) k by simp
  then show ?thesis by simp
qed

text \<open>A mail as the server returns it, and a machine that has asked for it.\<close>

definition one_mail :: json where
  "one_mail = JObj [(''sender'', JStr ''ann''), (''recipient'', JStr ''bob''), (''timestamp'', JNum 5), (''size'', JNum 1),
     (''enc_key_sender'', JStr []), (''enc_subject'', JStr []), (''enc_body'', JStr [])]"

definition mail_world :: "http_reply list \<Rightarrow> sys" where
  "mail_world rs = sys0\<lparr>files := [(''/c/sig_sk.bin'', [1])], replies := rs\<rparr>"

lemma one_mail_members:
  "get_object_item one_mail ''sender'' = Some (JStr ''ann'')" "get_object_item one_mail ''recipient'' = Some (JStr ''bob'')"
  "get_object_item one_mail ''timestamp'' = Some (JNum 5)" "get_object_item one_mail ''size'' = Some (JNum 1)"
  "get_object_item one_mail ''enc_key_sender'' = Some (JStr [])" "get_object_item one_mail ''enc_subject'' = Some (JStr [])"
  "get_object_item one_mail ''enc_body'' = Some (JStr [])" "get_object_item one_mail ''signature'' = None"
  unfolding one_mail_def by (simp_all only: get_object_item.simps find_member.simps same_nocase_def lower_names) simp_all

lemma mail_world_call:
  assumes "files s = [(''/c/sig_sk.bin'', [1])]" and "config_dir s = ''/c''" and "replies s = Http c b # rs"
    and "username s = Some ''ann''" and "entropy s = replicate 200 5"
  shows "\<exists>s'. signed_call (toy_reply j) m ep s = (Some (Http c (cstr b)), s')"
proof -
  have "load_sk_decrypted (toy_reply j) (key_path s ''sig_sk.bin'') s = (Some [1], s)"
    using assms by (simp add: load_sk_decrypted_def load_file_def fs_get_def key_path_def)
  moreover have "pow_loop (toy_reply j) 20 h 0 = Some (h 0)" for h
    by (simp add: pow_loop.simps toy_reply_def toy_simps pow_match_def list_all_iff)
  moreover have "oqs_sig_ok (toy_reply j)" by (simp add: toy_reply_def toy_simps)
  ultimately show ?thesis
    using assms by (simp add: signed_call_def curl_init_def create_signed_headers_def create_signed_headers_body_def
        next_coin_def shyake_mint_pow_def pow_rand_def read_urandom_def http_call_def Let_def)
qed

lemma one_mail_detail:
  assumes "username s = Some ''ann''" and "fst (load_sk_decrypted E (key_path s ''kem_sk.bin'') s) = None"
  shows "\<exists>s'. mail_detail_of E sz True True mid one_mail s = (Some \<lparr>md_mail_id = mid, md_sender = ''ann'',
    md_recipient = Some ''bob'', md_subject = None, md_body = None, md_timestamp = 5, md_created = 0,
    md_size = (if sz then 1 else 0), md_ref = None, md_reply_ref = None\<rparr>, s')"
proof -
  note m = one_mail_members
  have d: "deref_str one_mail k = Ok v" if "get_object_item one_mail k = Some (JStr v)" for k v
    using that by (rule deref_str_Ok)
  have i: "deref_int one_mail ''timestamp'' = Ok 5" "deref_int one_mail ''size'' = Ok 1"
    by (simp_all add: deref_int_def m INT_MAX_def INT_MIN_def)
  have f: "read_fields sz True (username s) one_mail = Ok \<lparr>mf_sender = ''ann'', mf_recipient = ''bob'',
      mf_timestamp = 5, mf_size = (if sz then 1 else 0), mf_key = Some [], mf_subject = Some [], mf_body = Some []\<rparr>"
    by (simp add: read_fields_def m(1,2,5,6,7) [THEN d] i assms(1) key_field_def)
  obtain t where "load_sk_decrypted E (key_path s ''kem_sk.bin'') s = (None, t)"
    using assms(2) by (metis prod.collapse)
  then show ?thesis
    by (simp add: mail_detail_of_def f open_detail_def mail_key_def open_text_def json_ref_def m)
qed

theorem saved_reads_as_fetched_witness:
  "\<exists>s1 s2 s3 d d'. let E = toy_reply one_mail; s = mail_world [Http 200 ''x''] in
     shyake_save_mail E (Some ''7'') s = (SHYAKE_OK, s1) \<and> shyake_fetch E (Some ''7'') s = (Some d, s2) \<and>
     shyake_read_saved E (Some ''7'') s1 = (Some d', s3) \<and> d' = d\<lparr>md_size := md_size d'\<rparr>"
proof -
  let ?E = "toy_reply one_mail" and ?s = "mail_world [Http 200 ''x'']"
  have p: "cjson_parse ?E b = Some one_mail" for b by (rule toy_reply_laws(5))
  obtain t where t: "signed_call ?E ''GET'' (mail_endpoint ''7'') (clear_error ?s) = (Some (Http 200 ''x''), t)"
    using mail_world_call [of "clear_error ?s" 200 "''x''" "[]" one_mail "''GET''" "mail_endpoint ''7''"]
    by (auto simp: mail_world_def clear_error_def)
  note kt = net_step_keeps [OF net_step_signed_call [OF t]]
  have "fst (load_sk_decrypted ?E (key_path t ''kem_sk.bin'') t) = None"
    unfolding load_sk_value load_file_def fs_get_def key_path_def using kt by (simp add: mail_world_def)
  with one_mail_detail [of t ?E False "''7''"] t p kt obtain d s2 where d: "shyake_fetch ?E (Some ''7'') ?s = (Some d, s2)"
    by (auto simp: shyake_fetch_def read_mail_def mail_world_def)
  obtain v where v: "ensure_saved_dir (clear_error ?s) = (True, v)" "files v = [(''/c/sig_sk.bin'', [1])]" "config_dir v = ''/c''"
    "replies v = [Http 200 ''x'']" "username v = Some ''ann''" "entropy v = replicate 200 5" "disk v = (\<lambda>_. Some 1000)"
    by (simp add: ensure_saved_dir_def mail_world_def Let_def fs_get_def saved_dir_def clear_error_def)
  obtain w where w: "signed_call ?E ''GET'' (mail_endpoint ''7'') v = (Some (Http 200 ''x''), w)"
    using mail_world_call [OF v(2-6), of one_mail "''GET''" "mail_endpoint ''7''"] by auto
  note kw = net_step_keeps [OF net_step_signed_call [OF w]]
  define s1 where "s1 = fs_put ''/c/saved/7.json'' (bytes_of ''x'') w"
  have s1: "shyake_save_mail ?E (Some ''7'') ?s = (SHYAKE_OK, s1)"
    using v w kw by (simp add: shyake_save_mail_def write_file_def saved_path_def s1_def bytes_of_def)
  have "fst (load_sk_decrypted ?E (key_path (clear_error s1) ''kem_sk.bin'') (clear_error s1)) = None"
    unfolding load_sk_value load_file_def key_path_def using kw v by (simp add: s1_def store_simps fs_get_def fs_put_def update_conv)
  with one_mail_detail [of "clear_error s1" ?E True "''7''"] p kw v
  obtain d' s3 where d': "shyake_read_saved ?E (Some ''7'') s1 = (Some d', s3)"
    by (auto simp: shyake_read_saved_def parse_saved_json_def s1_def store_simps saved_path_def)
  have "can_store ?s (saved_path ?s ''7'') (length (cstr ''x''))" "length (config_dir ?s) < 490"
    "replies ?s = Http 200 ''x'' # []" by (simp_all add: can_store_def mail_world_def)
  from saved_reads_as_fetched [OF this(3,2,1) s1 d d'] s1 d d' show ?thesis by (auto simp: Let_def)
qed

text \<open>C39. A listing whose items lack a member the code expects is not rejected: the missing member of the
  server's reply is dereferenced (here the mail id of the first item).\<close>

theorem check_missing_member_crashes:
  assumes "signed_call E ''GET'' (snprintf 128 (''/api/mail?type='' @ ty)) (clear_error s) = (Some (Http 200 body), t)"
    and "cjson_parse E body = Some j" and "get_object_item j ''mail'' = Some (JArr (item # items))"
    and "get_object_item item ''mail_id'' = None"
  shows "\<exists>s'. shyake_check E (Some ty) s = (None, s') \<and> ub s'"
proof -
  obtain k v where k: "load_sk_decrypted E (key_path t ''kem_sk.bin'') t = (k, v)" by (metis surj_pair)
  have "check_entry E (ty = ''sent'') k item = Ub" using assms(4) by (simp add: check_entry_def deref_str_missing)
  then show ?thesis using assms k by (simp add: shyake_check_def mark_ub_def)
qed

theorem check_missing_member_crashes_witness:
  "\<exists>s'. shyake_check (toy_reply (JObj [(''mail'', JArr [JObj []])])) (Some ''inbox'') (mail_world [Http 200 ''x'']) = (None, s') \<and> ub s'"
proof -
  let ?j = "JObj [(''mail'', JArr [JObj []])]" and ?s = "clear_error (mail_world [Http 200 ''x''])"
  obtain t where t: "signed_call (toy_reply ?j) ''GET'' (snprintf 128 (''/api/mail?type='' @ ''inbox'')) ?s
      = (Some (Http 200 ''x''), t)"
    using mail_world_call [of ?s 200 "''x''" "[]" ?j "''GET''" "snprintf 128 (''/api/mail?type='' @ ''inbox'')"]
    by (auto simp: mail_world_def clear_error_def)
  have "get_object_item ?j ''mail'' = Some (JArr (JObj [] # []))" "get_object_item (JObj []) ''mail_id'' = None"
    by simp_all
  from check_missing_member_crashes [OF t toy_reply_laws(5) this] show ?thesis .
qed

lemma json_name_strip: "json_name n \<Longrightarrow> take (length n - 5) n @ ''.json'' = n"
  unfolding json_name_def by (metis append_take_drop_id)

lemma find_ref_names_Some:
  "find_ref_names E w d ref ns = Some r \<Longrightarrow>
     r @ ''.json'' \<in> set ns \<and>
     (\<exists>raw j. load_file w (snprintf 768 (d @ ''/'' @ r @ ''.json'')) = Some raw \<and>
        cjson_parse E (text_of raw) = Some j \<and> json_ref E j = Some ref)"
proof (induction ns)
  case (Cons n ns)
  then show ?case
    using json_name_strip [of n]
    by (auto simp: Option.bind_eq_Some_conv split: if_splits option.splits)
qed simp

lemma find_ref_names_None:
  "find_ref_names E w d ref ns = None \<Longrightarrow> n \<in> set ns \<Longrightarrow> json_name n \<Longrightarrow>
     load_file w (snprintf 768 (d @ ''/'' @ n)) = Some raw \<Longrightarrow> cjson_parse E (text_of raw) = Some j \<Longrightarrow>
     json_ref E j \<noteq> Some ref"
  by (induction ns) (auto split: if_splits option.splits)

text \<open>C31. Finding the mail a reference names: an id reported as a saved copy is the name of a \<open>.json\<close> file
  in the saved directory whose signature has that reference, and when nothing is found no file there
  has it. The search leaves no error behind.\<close>

theorem find_ref_sound:
  assumes "is_ref (Some ref)" and "shyake_find_ref E (Some ref) s = ((r, saved), s')"
  shows "last_error s' = [] \<and>
     (saved \<longrightarrow> (\<exists>mid raw j. r = Some mid \<and> mid @ ''.json'' \<in> set (dir_names s (saved_dir s)) \<and>
        load_file s (snprintf 768 (saved_dir s @ ''/'' @ mid @ ''.json'')) = Some raw \<and>
        cjson_parse E (text_of raw) = Some j \<and> json_ref E j = Some ref)) \<and>
     (r = None \<and> saved_dir s \<in> set (dirs s) \<longrightarrow> (\<forall>n raw j. n \<in> set (dir_names s (saved_dir s)) \<and> json_name n \<and>
        load_file s (snprintf 768 (saved_dir s @ ''/'' @ n)) = Some raw \<and> cjson_parse E (text_of raw) = Some j
        \<longrightarrow> json_ref E j \<noteq> Some ref))"
proof -
  obtain a t where a: "find_ref_in_box E ''inbox'' ref s = (a, t)" by (metis surj_pair)
  obtain b v where b: "find_ref_in_box E ''sent'' ref t = (b, v)" by (metis surj_pair)
  note kt = net_step_keeps [OF net_step_find_box [OF a]]
  note kv = net_step_keeps [OF net_step_trans [OF net_step_find_box [OF a] net_step_find_box [OF b]]]
  have same: "find_ref_in_saved E ref v = find_ref_in_saved E ref s"
  proof -
    have d: "saved_dir v = saved_dir s" "dir_names v p = dir_names s p" for p
      using kv by (simp_all add: saved_dir_def dir_names_def)
    have "find_ref_names E v p ref ns = find_ref_names E s p ref ns" for p ns
      using kv by (induction ns) (auto simp: load_file_def fs_get_def split: option.splits)
    then show ?thesis using kv by (simp add: find_ref_in_saved_def d)
  qed
  have e: "last_error (clear_error x) = []" for x :: "'a sys_scheme" by (simp add: clear_error_def)
  have "last_error s' = [] \<and> (saved \<longrightarrow> r \<noteq> None \<and> r = find_ref_in_saved E ref s) \<and>
      (r = None \<longrightarrow> find_ref_in_saved E ref s = None)"
    using assms a b same
    by (auto simp: shyake_find_ref_def Let_def e split: if_splits option.splits) metis+
  then show ?thesis
    using find_ref_names_Some [of E s "saved_dir s" ref "dir_names s (saved_dir s)"]
      find_ref_names_None [of E s "saved_dir s" ref "dir_names s (saved_dir s)"]
    by (auto simp: find_ref_in_saved_def split: if_splits)
qed

theorem find_ref_sound_witness:
  "last_error (snd (shyake_find_ref toy (Some (replicate 64 (CHR ''a''))) sys0)) = []"
proof -
  have r: "is_ref (Some (replicate 64 (CHR ''a'')))" by (simp add: is_ref_def REF_LEN_def list_all_iff)
  obtain a b s' where f: "shyake_find_ref toy (Some (replicate 64 (CHR ''a''))) sys0 = ((a, b), s')" by (metis surj_pair)
  from find_ref_sound [OF r f] f show ?thesis by simp
qed



end
