(* ===== verification/Account.thy ===== *)
theory Account
  imports Mailbox
begin

text \<open>
  Keys and the account: \<open>shyake_generate_keys\<close> and \<open>shyake_register\<close> of \<open>libshyake.c\<close>, the block
  list, key rotation and account destruction of \<open>account.c\<close>. Proved: local keys change only after
  the server has confirmed, what is stored is then what was published, existing keys are never
  overwritten by generation; and where success is reported without it.
\<close>

section \<open>Generating keys\<close>

definition path_exists :: "'a world_scheme \<Rightarrow> string \<Rightarrow> bool" where
  "path_exists w p \<longleftrightarrow> fs_get w p \<noteq> None \<or> p \<in> set (dirs w)"

definition make_keys ::
  "ext \<Rightarrow> bool \<Rightarrow> (nat \<Rightarrow> (u8 list \<times> u8 list) option) \<Rightarrow> string \<Rightarrow> string \<Rightarrow> 'a sys_scheme \<Rightarrow> int \<times> 'a sys_scheme" where
  "make_keys E alg keypair pk_name sk_name s =
     (if path_exists s (key_path s pk_name) then (0, s)
      else if \<not> alg then (-1, s)
      else case next_coin s of (c, s) \<Rightarrow>
        (case keypair c of
           None \<Rightarrow> (-1, s)
         | Some (pk, sk) \<Rightarrow>
             (case save_file (key_path s pk_name) pk s of (_, s) \<Rightarrow>
             (case save_sk_encrypted E (key_path s sk_name) (passphrase s) sk s of (_, s) \<Rightarrow> (0, s)))))"

definition shyake_generate_keys :: "ext \<Rightarrow> 'a sys_scheme \<Rightarrow> int \<times> 'a sys_scheme" where
  "shyake_generate_keys E s =
     (case make_keys E (oqs_kem_ok E) (oqs_kem_keypair E) ''kem_pk.bin'' ''kem_sk.bin'' s of (r1, s) \<Rightarrow>
      (case make_keys E (oqs_sig_ok E) (oqs_sig_keypair E) ''sig_pk.bin'' ''sig_sk.bin'' s of (r2, s) \<Rightarrow>
        (if r1 \<noteq> 0 \<or> r2 \<noteq> 0 then -1 else 0, s)))"

section \<open>Registering\<close>

definition register_object :: "ext \<Rightarrow> string \<Rightarrow> u8 list \<Rightarrow> u8 list \<Rightarrow> string \<Rightarrow> json" where
  "register_object E user kpk spk timestamp =
     (let j = add_string (JObj []) ''username'' (Some user);
          j = add_string j ''kem_pubkey'' (Some (base64_encode E kpk));
          j = add_string j ''sig_pubkey'' (Some (base64_encode E spk))
      in add_string j ''timestamp'' (Some timestamp))"

text \<open>When \<open>curl_easy_init\<close> fails, the result stays what it was initialised to.\<close>

definition post_registration :: "ext \<Rightarrow> string \<Rightarrow> 'a sys_scheme \<Rightarrow> shyake_err \<times> 'a sys_scheme" where
  "post_registration E payload s =
     (case instance_url s of
        None \<Rightarrow> (SHYAKE_ERR_NO_INSTANCE, s)
      | Some url \<Rightarrow>
          (case http_call \<lparr>rq_method = ''POST'', rq_url = snprintf 512 (url @ ''/api/register''),
                  rq_headers = [''Content-Type: application/json''], rq_body = Some payload\<rparr> s of
             (No_curl, s) \<Rightarrow> (SHYAKE_OK, s)
           | (Curl_error m, s) \<Rightarrow> (SHYAKE_ERR_NETWORK, set_network_error m s)
           | (Http code body, s) \<Rightarrow>
               (if code = 200 \<or> code = 201 then (SHYAKE_OK, s)
                else (SHYAKE_ERR_HTTP, set_server_error E code body s))))"

definition shyake_register :: "ext \<Rightarrow> string option \<Rightarrow> 'a sys_scheme \<Rightarrow> shyake_err \<times> 'a sys_scheme" where
  "shyake_register E name s0 =
     (case name of
        None \<Rightarrow> (SHYAKE_ERR, s0)
      | Some user \<Rightarrow>
          (let s = clear_error s0;
               kpk = load_file s (key_path s ''kem_pk.bin'');
               spk = load_file s (key_path s ''sig_pk.bin'')
           in case load_sk_decrypted E (key_path s ''sig_sk.bin'') s of (ssk, s) \<Rightarrow>
             (case (kpk, spk, ssk) of
                (Some kp, Some sp, Some sk) \<Rightarrow>
                  (let root = register_object E user kp sp (snprintf 32 (show_int (clock s)))
                   in if \<not> oqs_sig_ok E then (SHYAKE_ERR, mark_ub s)
                      else case next_coin s of (c, s) \<Rightarrow>
                        (let sig_b64 = base64_encode E (oqs_sig_sign E c (bytes_of (cjson_print E root)) sk)
                         in case shyake_mint_pow E user 20 s of (pow, s) \<Rightarrow>
                              post_registration E
                                (cjson_print E (add_string (add_string root ''signature'' (Some sig_b64)) ''pow'' pow)) s))
              | _ \<Rightarrow> (SHYAKE_ERR_CRYPTO, s))))"

section \<open>Signed requests with a body\<close>

definition signed_body_call ::
  "ext \<Rightarrow> string \<Rightarrow> string \<Rightarrow> string \<Rightarrow> 'a sys_scheme \<Rightarrow> http_reply option \<times> 'a sys_scheme" where
  "signed_body_call E meth endpoint body s =
     (let url = snprintf 512 (str_or_null (instance_url s) @ endpoint)
      in case curl_init s of
           (False, s) \<Rightarrow> (None, s)
         | (True, s) \<Rightarrow>
             (case create_signed_headers_body E meth endpoint (str_or_null (username s)) (Some (bytes_of body)) s of
                (None, s) \<Rightarrow> (None, s)
              | (Some hs, s) \<Rightarrow>
                  (case http_call \<lparr>rq_method = meth, rq_url = url,
                          rq_headers = hs @ [''Content-Type: application/json''], rq_body = Some body\<rparr> s of
                     (r, s) \<Rightarrow> (Some r, s))))"

definition shyake_block :: "ext \<Rightarrow> string option \<Rightarrow> bool \<Rightarrow> 'a sys_scheme \<Rightarrow> shyake_err \<times> 'a sys_scheme" where
  "shyake_block E target unblock s0 =
     (case target of
        None \<Rightarrow> (SHYAKE_ERR, s0)
      | Some t \<Rightarrow>
          (let body = cjson_print E (add_string (JObj []) ''target'' (Some t))
           in case signed_body_call E (if unblock then ''DELETE'' else ''POST'') ''/api/block'' body (clear_error s0) of
                (Some (Http code reply), s) \<Rightarrow>
                  (if code = 200 \<or> code = 201 then (SHYAKE_OK, s)
                   else (SHYAKE_ERR_HTTP, set_signed_body_error E code reply s))
              | (Some (Curl_error m), s) \<Rightarrow> (SHYAKE_ERR_NETWORK, set_network_error m s)
              | (_, s) \<Rightarrow> (SHYAKE_ERR, s)))"

record block_entry =
  be_target :: string
  be_created :: int

text \<open>The cast of a \<open>double\<close> to a 64-bit integer, for values that have one.\<close>

definition block_entry_of :: "json \<Rightarrow> block_entry" where
  "block_entry_of item =
     \<lparr>be_target = (case get_object_item item ''blocked'' of Some (JStr t) \<Rightarrow> t | _ \<Rightarrow> []),
      be_created = (case get_object_item item ''created_at'' of Some (JNum n) \<Rightarrow> n | _ \<Rightarrow> 0)\<rparr>"

definition shyake_list_blocks :: "ext \<Rightarrow> 'a sys_scheme \<Rightarrow> block_entry list option \<times> 'a sys_scheme" where
  "shyake_list_blocks E s0 =
     (case signed_call E ''GET'' ''/api/block'' (clear_error s0) of
        (Some (Http code body), s) \<Rightarrow>
          (if code = 200 then
             (case Option.bind (cjson_parse E body) (\<lambda>j. get_object_item j ''blocks'') of
                Some (JArr items) \<Rightarrow> (Some (map block_entry_of items), s)
              | _ \<Rightarrow> (None, s))
           else (None, set_server_error E code body s))
      | (Some (Curl_error m), s) \<Rightarrow> (None, set_network_error m s)
      | (_, s) \<Rightarrow> (None, s))"

section \<open>Rotating and destroying\<close>

text \<open>The four files, written when the server has confirmed; what saving returns is not looked at.\<close>

definition save_new_keys ::
  "ext \<Rightarrow> u8 list \<times> u8 list \<Rightarrow> u8 list \<times> u8 list \<Rightarrow> 'a sys_scheme \<Rightarrow> 'a sys_scheme" where
  "save_new_keys E kem sig s =
     (let pp = new_passphrase s;
          s = snd (save_file (key_path s ''kem_pk.bin'') (fst kem) s);
          s = snd (save_sk_encrypted E (key_path s ''kem_sk.bin'') pp (snd kem) s);
          s = snd (save_file (key_path s ''sig_pk.bin'') (fst sig) s)
      in snd (save_sk_encrypted E (key_path s ''sig_sk.bin'') pp (snd sig) s))"

definition rotate_body :: "ext \<Rightarrow> u8 list \<Rightarrow> u8 list \<Rightarrow> string" where
  "rotate_body E kpk spk =
     cjson_print E (add_string (add_string (JObj []) ''new_kem_pubkey'' (Some (base64_encode E kpk)))
       ''new_sig_pubkey'' (Some (base64_encode E spk)))"

definition shyake_rotate :: "ext \<Rightarrow> 'a sys_scheme \<Rightarrow> shyake_err \<times> 'a sys_scheme" where
  "shyake_rotate E s0 =
     (let s = clear_error s0
      in if \<not> oqs_kem_ok E \<or> \<not> oqs_sig_ok E then (SHYAKE_ERR_CRYPTO, s)
         else case next_coin s of (c, s) \<Rightarrow>
           (case oqs_kem_keypair E c of
              None \<Rightarrow> (SHYAKE_ERR_CRYPTO, s)
            | Some kem \<Rightarrow>
                (case next_coin s of (c, s) \<Rightarrow>
                  (case oqs_sig_keypair E c of
                     None \<Rightarrow> (SHYAKE_ERR_CRYPTO, s)
                   | Some sig \<Rightarrow>
                       (case signed_body_call E ''POST'' ''/api/rotate'' (rotate_body E (fst kem) (fst sig)) s of
                          (Some (Http code body), s) \<Rightarrow>
                            (if code = 200 \<or> code = 201 then (SHYAKE_OK, save_new_keys E kem sig s)
                             else (SHYAKE_ERR_HTTP, set_signed_body_error E code body s))
                        | (Some (Curl_error m), s) \<Rightarrow> (SHYAKE_ERR_NETWORK, set_network_error m s)
                        | (_, s) \<Rightarrow> (SHYAKE_ERR, s))))))"

definition shyake_destroy :: "ext \<Rightarrow> 'a sys_scheme \<Rightarrow> shyake_err \<times> 'a sys_scheme" where
  "shyake_destroy E s0 =
     (case signed_call E ''DELETE'' ''/api/destroy'' (clear_error s0) of
        (Some (Http code body), s) \<Rightarrow>
          (if code = 200 then (SHYAKE_OK, s) else (SHYAKE_ERR_HTTP, set_server_error E code body s))
      | (Some (Curl_error m), s) \<Rightarrow> (SHYAKE_ERR_NETWORK, set_network_error m s)
      | (_, s) \<Rightarrow> (SHYAKE_ERR, s))"

section \<open>Lemmas\<close>

text \<open>A routine that writes files and draws randomness, and nothing else.\<close>

definition store_step :: "string set \<Rightarrow> 'a world_scheme \<Rightarrow> 'a world_scheme \<Rightarrow> bool" where
  "store_step P w w' \<longleftrightarrow>
     (\<exists>f e. w' = w\<lparr>files := f, entropy := e\<rparr>) \<and> (\<forall>q. q \<notin> P \<longrightarrow> fs_get w' q = fs_get w q)"

lemma store_stepI:
  "w' = w\<lparr>files := f, entropy := e\<rparr> \<Longrightarrow> (\<And>q. q \<notin> P \<Longrightarrow> fs_get w' q = fs_get w q) \<Longrightarrow> store_step P w w'"
  unfolding store_step_def by blast

lemma store_step_refl [simp]: "store_step P w w"
  by (rule store_stepI [where f = "files w" and e = "entropy w"]) simp_all

lemma store_step_trans:
  assumes "store_step P w v" and "store_step Q v u" and "P \<subseteq> R" and "Q \<subseteq> R"
  shows "store_step R w u"
proof -
  obtain f e where v: "v = w\<lparr>files := f, entropy := e\<rparr>" using assms(1) unfolding store_step_def by blast
  obtain g d where u: "u = v\<lparr>files := g, entropy := d\<rparr>" using assms(2) unfolding store_step_def by blast
  show ?thesis
  proof (rule store_stepI)
    show "u = w\<lparr>files := g, entropy := d\<rparr>" unfolding u v by simp
    show "q \<notin> R \<Longrightarrow> fs_get u q = fs_get w q" for q
      using assms unfolding store_step_def by (metis subsetD)
  qed
qed

lemma store_step_put: "store_step {p} w (fs_put p d w)"
  by (rule store_stepI [where f = "AList.update p d (files w)" and e = "entropy w"]) (simp add: fs_put_def, simp add: store_simps)

lemma store_step_urandom: "read_urandom n w = (r, w') \<Longrightarrow> store_step {} w w'"
  by (rule store_stepI [where f = "files w" and e = "entropy w'"]) (auto simp: read_urandom_def fs_get_def split: if_splits)

lemma store_step_write: "write_file p d w = (n, w') \<Longrightarrow> store_step {p} w w'"
  by (auto simp: write_file_def store_step_put split: option.splits)

lemma store_step_save: "save_file p d w = (n, w') \<Longrightarrow> store_step {p} w w'"
  by (auto simp: save_file_def dest: store_step_write split: prod.splits option.splits)

lemma store_step_save_sk:
  assumes "save_sk_encrypted E p pp sk w = (n, w')"
  shows "store_step {p} w w'"
proof (cases "pp = []")
  case True
  with assms show ?thesis by (auto simp: save_sk_encrypted_def dest: store_step_save)
next
  case False
  obtain a w1 where a: "read_urandom 32 w = (a, w1)" by (metis surj_pair)
  obtain b w2 where b: "read_urandom 12 w1 = (b, w2)" by (metis surj_pair)
  have s1: "store_step {p} w w1" by (rule store_step_trans [OF store_step_urandom [OF a] store_step_refl]) auto
  have s2: "store_step {p} w w2" by (rule store_step_trans [OF s1 store_step_urandom [OF b]]) auto
  have "store_step {p} w v" if "write_file p d w2 = (k, v)" for d k v
    by (rule store_step_trans [OF s2 store_step_write [OF that]]) auto
  with assms False s1 s2 show ?thesis
    by (auto simp: save_sk_encrypted_def a b Let_def split: option.splits prod.splits)
qed

lemma store_step_keeps:
  fixes s s' :: "'a sys_scheme"
  assumes "store_step P s s'"
  shows "config_dir s' = config_dir s" "passphrase s' = passphrase s" "new_passphrase s' = new_passphrase s"
    "disk s' = disk s" "dirs s' = dirs s" "coins s' = coins s" "requests s' = requests s"
    "username s' = username s" "ub s' = ub s" "key_path s' n = key_path s n"
  using assms by (auto simp: store_step_def key_path_def)

text \<open>What it takes for a secret key to be stored and come back.\<close>

definition sk_savable :: "ext \<Rightarrow> string \<Rightarrow> u8 list \<Rightarrow> string \<Rightarrow> 'a world_scheme \<Rightarrow> bool" where
  "sk_savable E pp sk path w \<longleftrightarrow>
     can_store w path (78 + length sk) \<and> 44 \<le> length (entropy w) \<and>
     (if pp = [] then \<not> prefix SK_MAGIC sk else \<forall>salt. derive_key E pp salt 65536 8 1 \<noteq> None)"

lemma save_sk_stores:
  assumes "aead_law E" and "\<And>k n a p. evp_chacha_seal E k n a p \<noteq> None" and "sk_savable E pp sk path w"
  shows "\<exists>d w'. save_sk_encrypted E path pp sk w = (0, w') \<and> fs_get w' path = Some d \<and> sk_of_file E pp d = Some sk \<and>
     length (entropy w) \<le> length (entropy w') + 44"
proof (cases "pp = []")
  case True
  have m: "prefix SK_MAGIC sk" if "\<not> length sk < 4" "take 4 sk = SK_MAGIC"
    using that by (metis take_is_prefix)
  have "save_file path sk w = (0, fs_put path sk w)"
    using assms(3) by (intro save_file_ok) (auto simp: sk_savable_def can_store_def)
  then show ?thesis
    using True assms(3) m by (auto simp: save_sk_encrypted_def store_simps sk_of_file_def sk_savable_def)
next
  case False
  let ?salt = "take 32 (entropy w)" and ?nonce = "take 12 (drop 32 (entropy w))"
  let ?h = "sk_header ?salt ?nonce 65536 8 1" and ?w = "w\<lparr>entropy := drop 44 (entropy w)\<rparr>"
  have l: "length ?salt = 32" "length ?nonce = 12" "44 \<le> length (entropy w)"
    using assms(3) by (auto simp: sk_savable_def)
  obtain k where k: "derive_key E pp ?salt 65536 8 1 = Some k" using assms(3) False by (auto simp: sk_savable_def)
  obtain ct mac where c: "chacha20_poly1305_encrypt E k ?nonce sk (Some ?h) = Some (ct, mac)"
    using assms(2) unfolding chacha20_poly1305_encrypt_def by (metis not_None_eq surj_pair)
  have "length (?h @ ct @ mac) = 78 + length sk"
    using length_sk_header [OF l(1,2)] chacha_roundtrip [OF assms(1) c] by simp
  then have "write_file path (?h @ ct @ mac) ?w = (Some (length (?h @ ct @ mac)), fs_put path (?h @ ct @ mac) ?w)"
    using assms(3) by (intro write_file_ok) (simp add: sk_savable_def can_store_def)
  then have "save_sk_encrypted E path pp sk w = (0, fs_put path (?h @ ct @ mac) ?w)"
    using False l k c by (simp add: save_sk_encrypted_def read_urandom_def Let_def)
  moreover have "sk_of_file E pp (?h @ ct @ mac) = Some sk"
    using assms(1) False l(1,2) k c by (rule sk_of_file_saved)
  ultimately show ?thesis using l by (auto simp: store_simps)
qed

lemma key_path_inject:
  assumes "length (config_dir s) < 490" and "length a < 20" and "length b < 20"
  shows "key_path s a = key_path s b \<longleftrightarrow> a = b"
  using assms by (simp add: key_path_def)

lemma net_step_signed_body_call:
  assumes "signed_body_call E m ep body s = (r, s')"
  shows "net_step s s'"
proof -
  obtain b s1 where b: "curl_init s = (b, s1)" by (metis surj_pair)
  obtain h s2 where h: "create_signed_headers_body E m ep (str_or_null (username s1)) (Some (bytes_of body)) s1 = (h, s2)"
    by (metis surj_pair)
  have s1: "net_step s s1" using b by (rule net_step_init)
  also have "net_step s1 s2" using h by (rule net_step_headers)
  finally have s2: "net_step s s2" .
  have "net_step s t" if "http_call rq s2 = (a, t)" for rq a t
    using s2 net_step_http [OF that] by (rule net_step_trans)
  with assms s1 s2 show ?thesis
    by (auto simp: signed_body_call_def Let_def b h split: bool.splits option.splits prod.splits)
qed

text \<open>A signed request with a body that was answered is the last one made, and carries that body.\<close>

lemma signed_body_call_request:
  assumes "signed_body_call E m ep body s = (Some (Http c reply), s')"
  shows "\<exists>hs. last (requests s') = \<lparr>rq_method = m, rq_url = snprintf 512 (str_or_null (instance_url s) @ ep),
      rq_headers = hs @ [''Content-Type: application/json''], rq_body = Some body\<rparr>"
  using assms
  by (auto simp: signed_body_call_def curl_init_def http_call_def Let_def
      split: list.splits http_reply.splits option.splits prod.splits bool.splits)

lemma signed_body_call_entropy:
  assumes "signed_body_call E m ep body s = (r, s')"
  shows "length (entropy s) \<le> length (entropy s') + 12"
proof -
  obtain b s1 where b: "curl_init s = (b, s1)" by (metis surj_pair)
  obtain h s2 where h: "create_signed_headers_body E m ep (str_or_null (username s1)) (Some (bytes_of body)) s1 = (h, s2)"
    by (metis surj_pair)
  have e1: "entropy s1 = entropy s" using b by (auto simp: curl_init_def split: list.splits http_reply.splits)
  obtain k t1 where k: "load_sk_decrypted E (key_path s1 ''sig_sk.bin'') s1 = (k, t1)" by (metis surj_pair)
  obtain c t2 where c: "next_coin t1 = (c, t2)" by (metis surj_pair)
  obtain p t3 where p: "shyake_mint_pow E (str_or_null (username s1)) 20 t2 = (p, t3)" by (metis surj_pair)
  have "entropy t1 = entropy s1" using load_sk_frame [OF k] by auto
  moreover have "entropy t2 = entropy t1" using c by (auto simp: next_coin_def)
  moreover have "length (entropy t2) \<le> length (entropy t3) + 12"
    using p by (auto simp: shyake_mint_pow_def pow_rand_def read_urandom_def Let_def split: if_splits)
  ultimately have "length (entropy s1) \<le> length (entropy s2) + 12"
    using h by (auto simp: create_signed_headers_body_def k c p Let_def split: option.splits if_splits)
  moreover have "entropy t = entropy s2" if "http_call rq s2 = (a, t)" for rq a t
    using http_call_keeps(4) [OF that] .
  ultimately show ?thesis
    using assms e1 by (auto simp: signed_body_call_def Let_def b h split: bool.splits option.splits prod.splits)
qed

lemma save_new_keys_stores:
  fixes s :: "'a sys_scheme"
  assumes "aead_law E" and "\<And>k n a p. evp_chacha_seal E k n a p \<noteq> None"
    and "\<And>salt. derive_key E (new_passphrase s) salt 65536 8 1 \<noteq> None" and "new_passphrase s \<noteq> []"
    and "\<And>p. can_store s p M" and "length kpk \<le> M" "length spk \<le> M" "78 + length ksk \<le> M" "78 + length ssk \<le> M"
    and "88 \<le> length (entropy s)" and "length (config_dir s) < 490"
  defines "s' \<equiv> save_new_keys E (kpk, ksk) (spk, ssk) s"
  shows "fs_get s' (key_path s ''kem_pk.bin'') = Some kpk \<and> fs_get s' (key_path s ''sig_pk.bin'') = Some spk \<and>
    Option.bind (fs_get s' (key_path s ''kem_sk.bin'')) (sk_of_file E (new_passphrase s)) = Some ksk \<and>
    Option.bind (fs_get s' (key_path s ''sig_sk.bin'')) (sk_of_file E (new_passphrase s)) = Some ssk \<and>
    store_step (key_path s ` {''kem_pk.bin'', ''kem_sk.bin'', ''sig_pk.bin'', ''sig_sk.bin''}) s s'"
proof -
  let ?pp = "new_passphrase s" and ?p = "key_path s"
  let ?K = "?p ` {''kem_pk.bin'', ''kem_sk.bin'', ''sig_pk.bin'', ''sig_sk.bin''}"
  note inj = key_path_inject [OF assms(11)]
  have cs: "can_store w p n" if "disk w = disk s" "n \<le> M" for w :: "'a sys_scheme" and p n
    using assms(5) [of p] that by (auto simp: can_store_def)
  define s1 where "s1 = fs_put (?p ''kem_pk.bin'') kpk s"
  have 1: "save_file (?p ''kem_pk.bin'') kpk s = (0, s1)" unfolding s1_def using assms(6) by (intro save_file_ok cs) auto
  have s1: "store_step ?K s s1" unfolding s1_def by (rule store_step_trans [OF store_step_put store_step_refl]) auto
  note k1 = store_step_keeps [OF s1]
  have "sk_savable E ?pp ksk (?p ''kem_sk.bin'') s1"
    using assms(3,4,8,10) cs [OF k1(4)] by (simp add: sk_savable_def s1_def)
  from save_sk_stores [OF assms(1,2) this] obtain d s2 where
    2: "save_sk_encrypted E (?p ''kem_sk.bin'') ?pp ksk s1 = (0, s2)" and d: "fs_get s2 (?p ''kem_sk.bin'') = Some d"
      "sk_of_file E ?pp d = Some ksk" and e: "length (entropy s1) \<le> length (entropy s2) + 44" by blast
  note t2 = store_step_save_sk [OF 2]
  have s2: "store_step ?K s s2" by (rule store_step_trans [OF s1 t2]) auto
  note k2 = store_step_keeps [OF s2]
  define s3 where "s3 = fs_put (?p ''sig_pk.bin'') spk s2"
  have 3: "save_file (?p ''sig_pk.bin'') spk s2 = (0, s3)"
    unfolding s3_def using assms(7) by (intro save_file_ok cs k2)
  have t3: "store_step {?p ''sig_pk.bin''} s2 s3" unfolding s3_def by (rule store_step_put)
  have s3: "store_step ?K s s3" by (rule store_step_trans [OF s2 t3]) auto
  note k3 = store_step_keeps [OF s3]
  have "sk_savable E ?pp ssk (?p ''sig_sk.bin'') s3"
    using assms(3,4,9,10) cs [OF k3(4)] e by (simp add: sk_savable_def s3_def s1_def)
  from save_sk_stores [OF assms(1,2) this] obtain f s4 where
    4: "save_sk_encrypted E (?p ''sig_sk.bin'') ?pp ssk s3 = (0, s4)" and f: "fs_get s4 (?p ''sig_sk.bin'') = Some f"
      "sk_of_file E ?pp f = Some ssk" by blast
  note t4 = store_step_save_sk [OF 4]
  have s4: "store_step ?K s s4" by (rule store_step_trans [OF s3 t4]) auto
  have s': "s' = s4" unfolding s'_def save_new_keys_def Let_def by (simp add: 1 k1 2 k2 3 k3 4)
  have u: "fs_get s4 q = fs_get s3 q" if "q \<noteq> ?p ''sig_sk.bin''" for q using t4 that by (simp add: store_step_def)
  have v: "fs_get s2 q = fs_get s1 q" if "q \<noteq> ?p ''kem_sk.bin''" for q using t2 that by (simp add: store_step_def)
  show ?thesis
    using d f s4 unfolding s' by (simp add: u v s3_def s1_def store_simps inj)
qed

section \<open>Properties\<close>

text \<open>C3. Rotating the keys never loses the old ones before the server has the new ones: when
  \<open>shyake_rotate\<close> does not report success, no local file has changed.\<close>

theorem rotate_failure_keeps_keys:
  assumes "shyake_rotate E s = (e, s')" and "e \<noteq> SHYAKE_OK"
  shows "files s' = files s"
proof -
  obtain c s1 where c: "next_coin (clear_error s) = (c, s1)" by (metis surj_pair)
  obtain c' s2 where c': "next_coin s1 = (c', s2)" by (metis surj_pair)
  have s1: "net_step s s1" using net_step_coin [OF c] by (rule net_step_clear)
  have s2: "net_step s s2" using s1 net_step_coin [OF c'] by (rule net_step_trans)
  have t: "net_step s t" if "signed_body_call E m ep b s2 = (r, t)" for m ep b r t
    using s2 net_step_signed_body_call [OF that] by (rule net_step_trans)
  have "net_step s s'"
    using assms s1 s2
    by (auto simp: shyake_rotate_def Let_def c c' t net_step_trans [OF t]
        split: if_splits option.splits prod.splits http_reply.splits)
  then show ?thesis using net_step_keeps(1) by blast
qed

theorem rotate_failure_keeps_keys_witness:
  "files (snd (shyake_rotate toy (sys0\<lparr>files := [(''/c/kem_sk.bin'', [1])]\<rparr>))) = [(''/c/kem_sk.bin'', [1])]"
proof -
  let ?s = "sys0\<lparr>files := [(''/c/kem_sk.bin'', [1])]\<rparr>"
  have "fst (shyake_rotate toy ?s) = SHYAKE_ERR"
    by (simp add: shyake_rotate_def toy_simps next_coin_def signed_body_call_def curl_init_def clear_error_def
        create_signed_headers_body_def load_sk_decrypted_def load_file_def fs_get_def key_path_def)
  then obtain s' where "shyake_rotate toy ?s = (SHYAKE_ERR, s')" by (metis prod.collapse)
  from rotate_failure_keeps_keys [OF this] this show ?thesis by simp
qed

lemma rotate_OK_cases:
  fixes s s' :: "'a sys_scheme"
  assumes "shyake_rotate E s = (SHYAKE_OK, s')"
  obtains kpk ksk spk ssk code reply and t v :: "'a sys_scheme" where
    "oqs_kem_keypair E (coins s) = Some (kpk, ksk)" and "oqs_sig_keypair E (Suc (coins s)) = Some (spk, ssk)"
    and "v = (clear_error s)\<lparr>coins := Suc (Suc (coins s))\<rparr>"
    and "signed_body_call E ''POST'' ''/api/rotate'' (rotate_body E kpk spk) v = (Some (Http code reply), t)"
    and "code = 200 \<or> code = 201" and "s' = save_new_keys E (kpk, ksk) (spk, ssk) t"
  using assms
  by (auto simp: shyake_rotate_def Let_def next_coin_def clear_error_def
      split: if_splits option.splits prod.splits http_reply.splits)


text \<open>C38. Rotating does not look at what saving returns: once the server has confirmed, \<open>shyake_rotate\<close>
  reports success even when not one of the four files can be written, and the old keys, which the
  server no longer accepts, are all that is left on disk.\<close>

theorem rotate_reports_unsaved_keys:
  assumes "signed_body_call E ''POST'' ''/api/rotate'' (rotate_body E kpk spk)
      ((clear_error s)\<lparr>coins := Suc (Suc (coins s))\<rparr>) = (Some (Http 200 reply), t)"
    and "oqs_kem_ok E" and "oqs_sig_ok E" and "oqs_kem_keypair E (coins s) = Some (kpk, ksk)"
    and "oqs_sig_keypair E (Suc (coins s)) = Some (spk, ssk)" and "disk s = (\<lambda>_. None)"
  shows "\<exists>s'. shyake_rotate E s = (SHYAKE_OK, s') \<and> files s' = files s"
proof -
  note kt = net_step_keeps [OF net_step_signed_body_call [OF assms(1)]]
  have sf: "save_file p d w = (-1, w)" if "disk w = (\<lambda>_. None)" for p d and w :: "'a sys_scheme"
    using that by (simp add: save_file_def write_file_def)
  have sk: "\<exists>n e. save_sk_encrypted E p pp k w = (n, w\<lparr>entropy := e\<rparr>)" if d: "disk w = (\<lambda>_. None)"
    for p pp k and w :: "'a sys_scheme"
  proof -
    have e: "\<exists>e. w = w\<lparr>entropy := e\<rparr>" by (rule exI [of _ "entropy w"]) simp
    then show ?thesis using d
      by (auto simp: save_sk_encrypted_def sf read_urandom_def write_file_def Let_def split: option.split)
  qed
  have "disk t = (\<lambda>_. None)" "files t = files s" using kt assms(6) by simp_all
  moreover have "files (save_new_keys E (kpk, ksk) (spk, ssk) w) = files w" if d: "disk w = (\<lambda>_. None)" for w :: "'a sys_scheme"
  proof -
    obtain n e where 1: "save_sk_encrypted E (key_path w ''kem_sk.bin'') (new_passphrase w) ksk w = (n, w\<lparr>entropy := e\<rparr>)"
      using sk [OF d] by blast
    let ?w = "w\<lparr>entropy := e\<rparr>"
    obtain m f where 2: "save_sk_encrypted E (key_path ?w ''sig_sk.bin'') (new_passphrase w) ssk ?w = (m, ?w\<lparr>entropy := f\<rparr>)"
    proof -
      have "disk ?w = (\<lambda>_. None)" using d by simp
      from sk [OF this, of "key_path ?w ''sig_sk.bin''" "new_passphrase w" ssk] that show ?thesis by blast
    qed
    show ?thesis using d 1 2 by (simp add: save_new_keys_def sf)
  qed
  ultimately show ?thesis using assms by (simp add: shyake_rotate_def next_coin_def clear_error_def)
qed

text \<open>When libcurl cannot be initialised, \<open>shyake_register\<close> reports success although it has sent
  nothing: the result keeps its initial value.\<close>

theorem register_without_curl:
  assumes "load_file s (key_path s ''kem_pk.bin'') = Some kpk" and "load_file s (key_path s ''sig_pk.bin'') = Some spk"
    and "fst (load_sk_decrypted E (key_path s ''sig_sk.bin'') s) = Some ssk"
    and "oqs_sig_ok E" and "instance_url s = Some url" and "replies s = No_curl # rs"
  shows "\<exists>s'. shyake_register E (Some user) s = (SHYAKE_OK, s') \<and> requests s' = requests s"
proof -
  have k: "key_path (clear_error s) n = key_path s n" for n by (simp add: key_path_def)
  obtain pow v where p: "shyake_mint_pow E user 20 ((clear_error s)\<lparr>coins := Suc (coins s)\<rparr>) = (pow, v)"
    by (metis surj_pair)
  have "fst (load_sk_decrypted E (key_path s ''sig_sk.bin'') (clear_error s)) = Some ssk"
    using assms(3) load_sk_same [of "clear_error s" s E] by simp
  then have sk: "load_sk_decrypted E (key_path s ''sig_sk.bin'') (clear_error s) = (Some ssk, clear_error s)"
    using load_sk_ok_frame by (metis prod.collapse)
  have v: "requests v = requests s" "instance_url v = Some url" "replies v = No_curl # rs"
    using mint_pow_frame [OF p] assms(5,6) by (auto simp: clear_error_def)
  have l: "load_file (clear_error s) q = load_file s q" for q by (simp add: load_file_def)
  show ?thesis
    using assms v by (simp add: shyake_register_def k l sk Let_def next_coin_def p post_registration_def http_call_def)
qed

theorem register_without_curl_witness:
  "\<exists>s'. shyake_register toy (Some ''ann'') (sys0\<lparr>files := [(''/c/kem_pk.bin'', [5, 7]), (''/c/sig_pk.bin'', [5, 9]),
      (''/c/sig_sk.bin'', [5, 10])], replies := [No_curl]\<rparr>) = (SHYAKE_OK, s') \<and> requests s' = []"
proof -
  let ?s = "sys0\<lparr>files := [(''/c/kem_pk.bin'', [5, 7]), (''/c/sig_pk.bin'', [5, 9]), (''/c/sig_sk.bin'', [5, 10])],
      replies := [No_curl]\<rparr>"
  have f: "load_file ?s (key_path ?s ''kem_pk.bin'') = Some [5, 7]" "load_file ?s (key_path ?s ''sig_pk.bin'') = Some [5, 9]"
    "fst (load_sk_decrypted toy (key_path ?s ''sig_sk.bin'') ?s) = Some [5, 10]"
    by (simp_all add: load_file_def fs_get_def key_path_def load_sk_decrypted_def)
  from register_without_curl [OF f, of "''http://h''" "[]" "''ann''"] show ?thesis by (simp add: toy_simps)
qed

lemma make_keys_step:
  "make_keys E a kp pn sn s = (r, s') \<Longrightarrow>
     (path_exists s (key_path s pn) \<longrightarrow> r = 0 \<and> s' = s) \<and>
     (\<exists>c. store_step {key_path s pn, key_path s sn} (s\<lparr>coins := c\<rparr>) s')"
proof -
  assume m: "make_keys E a kp pn sn s = (r, s')"
  have same: "s = s\<lparr>coins := coins s\<rparr>" by simp
  have k: "key_path (s\<lparr>coins := c\<rparr>) n = key_path s n" for c n by (simp add: key_path_def)
  have "\<exists>c. store_step {key_path s pn, key_path s sn} (s\<lparr>coins := c\<rparr>) s'"
  proof (cases "path_exists s (key_path s pn) \<or> \<not> a \<or> kp (coins s) = None")
    case True
    with m show ?thesis
      by (auto simp: make_keys_def next_coin_def split: if_splits intro: exI [of _ "coins s"] exI [of _ "Suc (coins s)"])
  next
    case False
    then obtain pk sk where p: "kp (coins s) = Some (pk, sk)" by auto
    let ?s = "s\<lparr>coins := Suc (coins s)\<rparr>"
    obtain x t where x: "save_file (key_path ?s pn) pk ?s = (x, t)" by (metis surj_pair)
    obtain y v where y: "save_sk_encrypted E (key_path t sn) (passphrase t) sk t = (y, v)" by (metis surj_pair)
    note t = store_step_save [OF x]
    have "store_step {key_path s pn, key_path s sn} ?s v"
      using store_step_keeps(10) [OF t] by (intro store_step_trans [OF t store_step_save_sk [OF y]]) (auto simp: k)
    moreover have "s' = v" using m False p x y by (simp add: make_keys_def next_coin_def)
    ultimately show ?thesis by blast
  qed
  then show ?thesis using m by (auto simp: make_keys_def)
qed

text \<open>C23. Generating keys never overwrites any: a key pair whose public key file is there is left
  alone, both files of it, whatever happens to the other pair.\<close>

theorem generate_keeps_keys:
  assumes "shyake_generate_keys E s = (r, s')" and "length (config_dir s) < 490"
    and "(pn, sn) \<in> {(''kem_pk.bin'', ''kem_sk.bin''), (''sig_pk.bin'', ''sig_sk.bin'')}"
    and "fs_get s (key_path s pn) \<noteq> None"
  shows "fs_get s' (key_path s pn) = fs_get s (key_path s pn) \<and> fs_get s' (key_path s sn) = fs_get s (key_path s sn)"
proof -
  obtain r1 t where a: "make_keys E (oqs_kem_ok E) (oqs_kem_keypair E) ''kem_pk.bin'' ''kem_sk.bin'' s = (r1, t)"
    by (metis surj_pair)
  obtain r2 v where b: "make_keys E (oqs_sig_ok E) (oqs_sig_keypair E) ''sig_pk.bin'' ''sig_sk.bin'' t = (r2, v)"
    by (metis surj_pair)
  have s': "s' = v" using assms(1) by (simp add: shyake_generate_keys_def a b split: if_splits)
  from make_keys_step [OF a] obtain c where t: "store_step {key_path s ''kem_pk.bin'', key_path s ''kem_sk.bin''} (s\<lparr>coins := c\<rparr>) t"
    and ka: "path_exists s (key_path s ''kem_pk.bin'') \<longrightarrow> t = s" by blast
  from make_keys_step [OF b] obtain d where u: "store_step {key_path t ''sig_pk.bin'', key_path t ''sig_sk.bin''} (t\<lparr>coins := d\<rparr>) v"
    and kb: "path_exists t (key_path t ''sig_pk.bin'') \<longrightarrow> v = t" by blast
  have kt: "key_path t n = key_path s n" for n using store_step_keeps(1) [OF t] by (simp add: key_path_def)
  note inj = key_path_inject [OF assms(2)]
  have kem: "fs_get v (key_path s n) = fs_get t (key_path s n)" if "n = ''kem_pk.bin'' \<or> n = ''kem_sk.bin''" for n
    using u that unfolding store_step_def by (auto simp: kt inj fs_get_def)
  have sig: "fs_get t (key_path s n) = fs_get s (key_path s n)" if "n = ''sig_pk.bin'' \<or> n = ''sig_sk.bin''" for n
    using t that unfolding store_step_def by (auto simp: inj fs_get_def)
  show ?thesis
    using assms(3,4) ka kb kem sig by (auto simp: s' path_exists_def kt)
qed

theorem generate_keeps_keys_witness:
  "fs_get (snd (shyake_generate_keys toy (sys0\<lparr>files := [(''/c/kem_pk.bin'', [1]), (''/c/kem_sk.bin'', [2])]\<rparr>))) ''/c/kem_sk.bin''
     = Some [2]"
proof -
  let ?s = "sys0\<lparr>files := [(''/c/kem_pk.bin'', [1]), (''/c/kem_sk.bin'', [2])]\<rparr>"
  obtain r s' where g: "shyake_generate_keys toy ?s = (r, s')" by (metis surj_pair)
  have "fs_get s' (key_path ?s ''kem_sk.bin'') = fs_get ?s (key_path ?s ''kem_sk.bin'')"
    using generate_keeps_keys [OF g, of "''kem_pk.bin''" "''kem_sk.bin''"] by (simp add: fs_get_def key_path_def)
  then show ?thesis using g by (simp add: key_path_def fs_get_def)
qed

text \<open>A rotation on the toy provider.\<close>

definition rotate_world :: sys where
  "rotate_world = sys0\<lparr>files := [(''/c/sig_sk.bin'', [1])], new_passphrase := ''pw'', replies := [Http 200 '''']\<rparr>"

lemma toy_pow: "pow_loop toy 20 h 0 = Some (h 0)"
  by (simp add: pow_loop.simps toy_simps pow_match_def list_all_iff)

lemma rotate_world_call:
  assumes "disk s = d" and "files s = [(''/c/sig_sk.bin'', [1])]" and "config_dir s = ''/c''"
    and "replies s = [Http 200 '''']" and "entropy s = replicate 200 5" and "username s = Some ''ann''"
  shows "\<exists>t. signed_body_call toy ''POST'' ''/api/rotate'' body s = (Some (Http 200 ''''), t)"
proof -
  have "load_sk_decrypted toy (key_path s ''sig_sk.bin'') s = (Some [1], s)"
    using assms by (simp add: load_sk_decrypted_def load_file_def fs_get_def key_path_def)
  then show ?thesis
    using assms by (simp add: signed_body_call_def curl_init_def create_signed_headers_body_def toy_simps
        next_coin_def shyake_mint_pow_def pow_rand_def read_urandom_def http_call_def Let_def toy_pow)
qed


theorem rotate_reports_unsaved_keys_witness:
  "\<exists>s'. shyake_rotate toy (rotate_world\<lparr>disk := (\<lambda>_. None)\<rparr>) = (SHYAKE_OK, s') \<and> files s' = [(''/c/sig_sk.bin'', [1])]"
proof -
  let ?s = "rotate_world\<lparr>disk := (\<lambda>_. None)\<rparr>"
  obtain t where t: "signed_body_call toy ''POST'' ''/api/rotate'' (rotate_body toy [0, 7] [1, 9])
      ((clear_error ?s)\<lparr>coins := Suc (Suc (coins ?s))\<rparr>) = (Some (Http 200 ''''), t)"
    using rotate_world_call [of "(clear_error ?s)\<lparr>coins := Suc (Suc (coins ?s))\<rparr>" _ "rotate_body toy [0, 7] [1, 9]"]
    by (auto simp: rotate_world_def clear_error_def)
  have f: "files ?s = [(''/c/sig_sk.bin'', [1])]" by (simp add: rotate_world_def)
  from rotate_reports_unsaved_keys [OF t, of "[0, 8]" "[1, 10]"] show ?thesis
    unfolding f by (simp add: toy_simps rotate_world_def)
qed

end
