(* ===== verification/Drafts.thy ===== *)
theory Drafts
  imports Account
begin

text \<open>
  \<open>cli/drafts.c\<close>: the local encrypted drafts of the command line client, a file per draft under
  \<open>drafts/\<close>. Proved: a saved draft reads back as it was written, a new draft takes a fresh id and
  touches no other file, an overwritten one keeps its creation time, and the list is sorted by id.
\<close>

section \<open>State and helpers\<close>

text \<open>The static buffer \<open>drafts_error[256]\<close> beside the context.\<close>

record cli = sys +
  drafts_error :: string

definition drafts_set_error :: "string \<Rightarrow> 'a cli_scheme \<Rightarrow> 'a cli_scheme" where
  "drafts_set_error msg s = s\<lparr>drafts_error := snprintf 256 msg\<rparr>"

definition drafts_clear_error :: "'a cli_scheme \<Rightarrow> 'a cli_scheme" where
  "drafts_clear_error s = s\<lparr>drafts_error := []\<rparr>"

definition cli_drafts_last_error :: "'a cli_scheme \<Rightarrow> string" where
  "cli_drafts_last_error s = drafts_error s"

definition drafts_dir :: "string \<Rightarrow> string" where
  "drafts_dir cfg = snprintf 512 (cfg @ ''/drafts'')"

definition draft_path :: "string \<Rightarrow> string \<Rightarrow> string" where
  "draft_path cfg draft_id = snprintf 640 (cfg @ ''/drafts/'' @ draft_id @ ''.json'')"

definition ensure_drafts_dir :: "string \<Rightarrow> 'a world_scheme \<Rightarrow> int \<times> 'a world_scheme" where
  "ensure_drafts_dir cfg w =
     (let path = drafts_dir cfg
      in if path_exists w path then (0, w)
         else if mkdir_ok w path then (0, w\<lparr>dirs := dirs w @ [path]\<rparr>)
         else (-1, w))"

definition numeric_draft_id :: "string \<Rightarrow> int" where
  "numeric_draft_id name =
     (if \<not> json_name name then -1
      else if list_all is_digit (take (length name - 5) name) then atol name else -1)"

definition max_draft_id :: "string \<Rightarrow> 'a world_scheme \<Rightarrow> int" where
  "max_draft_id cfg w =
     (if drafts_dir cfg \<notin> set (dirs w) then 0
      else foldl (\<lambda>m n. if numeric_draft_id n > m then numeric_draft_id n else m) 0 (dir_names w (drafts_dir cfg)))"

text \<open>The whole file as a C string.\<close>

definition read_text_file :: "'a world_scheme \<Rightarrow> string \<Rightarrow> string option" where
  "read_text_file w path = map_option (\<lambda>raw. cstr (text_of raw)) (fs_get w path)"

definition decrypt_field :: "ext \<Rightarrow> u8 list \<Rightarrow> string option \<Rightarrow> string option mem" where
  "decrypt_field E symk enc =
     (case enc of
        None \<Rightarrow> Ok (Some [])
      | Some t \<Rightarrow> if t = [] then Ok (Some []) else nullable (shyake_unseal_b64 E symk (Some t)))"

definition member_string :: "json \<Rightarrow> string \<Rightarrow> string option" where
  "member_string j k = Option.bind (get_object_item j k) valuestring"

definition member_double :: "json \<Rightarrow> string \<Rightarrow> int" where
  "member_double j k = (case get_object_item j k of None \<Rightarrow> 0 | Some v \<Rightarrow> valuedouble v)"

definition member_int :: "json \<Rightarrow> string \<Rightarrow> int" where
  "member_int j k = (case get_object_item j k of None \<Rightarrow> 0 | Some v \<Rightarrow> valueint v)"

section \<open>Saving\<close>

text \<open>The creation time to write: that of the draft overwritten, when it has one; None when the draft
  named does not exist.\<close>

definition draft_created :: "ext \<Rightarrow> string \<Rightarrow> string option \<Rightarrow> 'a world_scheme \<Rightarrow> int option" where
  "draft_created E cfg draft_id w =
     (case draft_id of
        None \<Rightarrow> Some (clock w)
      | Some i \<Rightarrow>
          (case read_text_file w (draft_path cfg i) of
             None \<Rightarrow> None
           | Some raw \<Rightarrow>
               (case Option.bind (cjson_parse E raw) (\<lambda>old. get_object_item old ''created'') of
                  None \<Rightarrow> Some (clock w)
                | Some c \<Rightarrow> Some (valuedouble c))))"

record sealed_draft =
  dr_recipient :: "string option"
  dr_subject :: "string option"
  dr_reply :: "string option"
  dr_body :: "string option"

text \<open>Empty fields are not sealed.\<close>

definition seal_field :: "ext \<Rightarrow> u8 list \<Rightarrow> string option \<Rightarrow> 'a world_scheme \<Rightarrow> string option \<times> 'a world_scheme" where
  "seal_field E symk t w =
     (if t = None \<or> t = Some [] then (None, w) else shyake_seal_b64 E symk (bytes_of (the t)) w)"

definition seal_draft ::
  "ext \<Rightarrow> u8 list \<Rightarrow> string option \<Rightarrow> string option \<Rightarrow> string option \<Rightarrow> u8 list \<Rightarrow> 'a world_scheme
     \<Rightarrow> sealed_draft option \<times> 'a world_scheme" where
  "seal_draft E symk recipient subject reply_ref body w =
     (case seal_field E symk recipient w of (r, w) \<Rightarrow>
      (case seal_field E symk subject w of (sb, w) \<Rightarrow>
      (case (case reply_ref of None \<Rightarrow> (None, w) | Some t \<Rightarrow> shyake_seal_b64 E symk (bytes_of t) w) of (re, w) \<Rightarrow>
      (case shyake_seal_b64 E symk body w of (b, w) \<Rightarrow>
        if b = None \<or> (recipient \<noteq> None \<and> recipient \<noteq> Some [] \<and> r = None) \<or>
           (subject \<noteq> None \<and> subject \<noteq> Some [] \<and> sb = None) \<or> (reply_ref \<noteq> None \<and> re = None)
        then (None, w)
        else (Some \<lparr>dr_recipient = r, dr_subject = sb, dr_reply = re, dr_body = b\<rparr>, w)))))"

text \<open>
  At most 100 ids are tried, from one more than the highest in use; each is created with \<open>O_EXCL\<close>,
  so only an id whose file does not exist is taken. \<open>long\<close> overflows past \<open>LONG_MAX\<close>.
\<close>

fun try_ids :: "string \<Rightarrow> 'a world_scheme \<Rightarrow> nat \<Rightarrow> int \<Rightarrow> string mem" where
  "try_ids cfg w 0 i = (if i > LONG_MAX then Ub else Null)"
| "try_ids cfg w (Suc n) i =
     (if i > LONG_MAX then Ub
      else if path_exists w (draft_path cfg (show_int i)) then try_ids cfg w n (i + 1)
      else if disk w (draft_path cfg (show_int i)) = None then Null
      else Ok (show_int i))"

text \<open>The id whose file is open; an existing draft is opened with \<open>O_TRUNC\<close>.\<close>

definition open_draft_file :: "string \<Rightarrow> string option \<Rightarrow> 'a world_scheme \<Rightarrow> string mem" where
  "open_draft_file cfg draft_id w =
     (case draft_id of
        Some i \<Rightarrow>
          (if fs_get w (draft_path cfg i) = None \<or> disk w (draft_path cfg i) = None then Null else Ok i)
      | None \<Rightarrow> try_ids cfg w 100 (max_draft_id cfg w + 1))"

definition draft_object :: "string \<Rightarrow> int \<Rightarrow> int \<Rightarrow> nat \<Rightarrow> string \<Rightarrow> sealed_draft \<Rightarrow> json" where
  "draft_object id_buf created now body_len enc_key d =
     (let j = add_number (JObj []) ''version'' 1;
          j = add_string j ''draft_id'' (Some id_buf);
          j = add_number j ''created'' created;
          j = add_number j ''modified'' now;
          j = add_number j ''size'' (int body_len);
          j = add_string j ''enc_key'' (Some enc_key);
          j = add_string j ''enc_recipient'' (Some (case dr_recipient d of None \<Rightarrow> [] | Some t \<Rightarrow> t));
          j = add_string j ''enc_subject'' (Some (case dr_subject d of None \<Rightarrow> [] | Some t \<Rightarrow> t));
          j = add_string j ''enc_body'' (dr_body d)
      in add_string j ''enc_reply_to'' (dr_reply d))"

text \<open>What \<open>fputs\<close> returns is not looked at.\<close>

definition write_draft ::
  "ext \<Rightarrow> string \<Rightarrow> string option \<Rightarrow> int \<Rightarrow> nat \<Rightarrow> string \<Rightarrow> sealed_draft \<Rightarrow> 'a cli_scheme
     \<Rightarrow> shyake_err \<times> string option \<times> 'a cli_scheme" where
  "write_draft E cfg draft_id created body_len enc_key d s =
     (case open_draft_file cfg draft_id s of
        Null \<Rightarrow> (SHYAKE_ERR, None, s)
      | Ub \<Rightarrow> (SHYAKE_ERR, None, mark_ub s)
      | Ok i \<Rightarrow>
          (let id_buf = snprintf 32 i;
               payload = cjson_print E (draft_object id_buf created (clock s) body_len enc_key d)
           in (SHYAKE_OK, Some id_buf, snd (write_file (draft_path cfg i) (bytes_of payload) s))))"

definition cli_save_draft ::
  "ext \<Rightarrow> string option \<Rightarrow> string option \<Rightarrow> string option \<Rightarrow> string option \<Rightarrow> u8 list option \<Rightarrow> string option
     \<Rightarrow> 'a cli_scheme \<Rightarrow> shyake_err \<times> string option \<times> 'a cli_scheme" where
  "cli_save_draft E dir recipient subject reply_ref body draft_id s0 =
     (let s = drafts_clear_error s0
      in if dir = None \<or> body = None \<or> body = Some [] then (SHYAKE_ERR, None, s)
         else
           (let cfg = the dir
            in case ensure_drafts_dir cfg s of (rc, s) \<Rightarrow>
              if rc \<noteq> 0 then (SHYAKE_ERR, None, drafts_set_error ''Cannot create the drafts directory.'' s)
              else
                (case draft_created E cfg draft_id s of
                   None \<Rightarrow> (SHYAKE_ERR_NOT_FOUND, None, s)
                 | Some created \<Rightarrow>
                     (case shyake_selfenc_begin E s of
                        (None, s) \<Rightarrow>
                          (SHYAKE_ERR_CRYPTO, None,
                           drafts_set_error (''Cannot load kem_pk.bin. Run '' @ [APOS] @ ''shyake init'' @ [APOS] @ ''.'') s)
                      | (Some (symk, enc_key), s) \<Rightarrow>
                          (case seal_draft E symk recipient subject reply_ref (the body) s of
                             (None, s) \<Rightarrow> (SHYAKE_ERR_CRYPTO, None, s)
                           | (Some d, s) \<Rightarrow>
                               write_draft E cfg draft_id created (length (the body)) enc_key d s)))))"

section \<open>Reading\<close>

text \<open>The texts of a draft under its key, and what is missing for it to be usable.\<close>

record draft_texts =
  dt_recipient :: "string option"
  dt_subject :: "string option"
  dt_reply :: "string option"
  dt_body :: "string option"

definition sealed_reply :: "json \<Rightarrow> string option" where
  "sealed_reply j =
     (case get_object_item j ''enc_reply_to'' of
        Some (JStr t) \<Rightarrow> if t = [] then None else Some t
      | _ \<Rightarrow> None)"

definition open_draft :: "ext \<Rightarrow> bool \<Rightarrow> u8 list \<Rightarrow> json \<Rightarrow> draft_texts mem" where
  "open_draft E decrypt_body symk j =
     mem_bind (decrypt_field E symk (member_string j ''enc_recipient'')) (\<lambda>r.
     mem_bind (decrypt_field E symk (member_string j ''enc_subject'')) (\<lambda>sb.
     mem_bind (case sealed_reply j of None \<Rightarrow> Ok None | Some t \<Rightarrow> nullable (shyake_unseal_b64 E symk (Some t))) (\<lambda>re.
     mem_bind (if decrypt_body then nullable (shyake_unseal_b64 E symk (member_string j ''enc_body'')) else Ok None) (\<lambda>b.
       Ok \<lparr>dt_recipient = r, dt_subject = sb, dt_reply = re, dt_body = b\<rparr>))))"

definition self_name :: "string option \<Rightarrow> string" where
  "self_name user = (case user of None \<Rightarrow> ''(me)'' | Some u \<Rightarrow> if u = [] then ''(me)'' else u)"

definition draft_detail :: "string option \<Rightarrow> string \<Rightarrow> json \<Rightarrow> draft_texts \<Rightarrow> mail_detail" where
  "draft_detail user draft_id j t =
     \<lparr>md_mail_id = draft_id, md_sender = self_name user, md_recipient = dt_recipient t,
      md_subject = dt_subject t, md_body = dt_body t, md_timestamp = member_double j ''modified'',
      md_created = member_double j ''created'', md_size = member_int j ''size'', md_ref = None,
      md_reply_ref = dt_reply t\<rparr>"

definition unlock_error :: "'a cli_scheme \<Rightarrow> 'a cli_scheme" where
  "unlock_error s =
     drafts_set_error (if last_error s = [] then ''Cannot unlock the secret key.'' else last_error s) s"

definition parse_draft_json ::
  "ext \<Rightarrow> string \<Rightarrow> string option \<Rightarrow> string \<Rightarrow> bool \<Rightarrow> 'a cli_scheme \<Rightarrow> mail_detail option \<times> 'a cli_scheme" where
  "parse_draft_json E cfg user draft_id decrypt_body s =
     (case read_text_file s (draft_path cfg draft_id) of
        None \<Rightarrow> (None, drafts_set_error (''Draft '' @ draft_id @ '' not found.'') s)
      | Some raw \<Rightarrow>
          (case cjson_parse E raw of
             None \<Rightarrow> (None, drafts_set_error (''Draft '' @ draft_id @ '' is corrupt.'') s)
           | Some j \<Rightarrow>
               if member_string j ''enc_key'' = None \<or> member_string j ''enc_body'' = None
               then (None, drafts_set_error (''Draft '' @ draft_id @ '' is corrupt.'') s)
               else
                 (case shyake_selfdec_new E s of
                    (None, s) \<Rightarrow> (None, unlock_error s)
                  | (Some sd, s) \<Rightarrow>
                      (case shyake_selfdec_key E (Some sd) (member_string j ''enc_key'') of
                         (SHYAKE_OK, Some symk) \<Rightarrow>
                           (case open_draft E decrypt_body symk j of
                              Ok t \<Rightarrow>
                                (if (decrypt_body \<and> dt_body t = None) \<or> (sealed_reply j \<noteq> None \<and> dt_reply t = None)
                                 then (None, drafts_set_error (''Cannot decrypt draft '' @ draft_id @ ''.'') s)
                                 else (Some (draft_detail user draft_id j t), s))
                            | _ \<Rightarrow> (None, mark_ub s))
                       | _ \<Rightarrow> (None, drafts_set_error (''Cannot decrypt draft '' @ draft_id @ ''.'') s)))))"

definition cli_read_draft ::
  "ext \<Rightarrow> string option \<Rightarrow> string option \<Rightarrow> string option \<Rightarrow> 'a cli_scheme \<Rightarrow> mail_detail option \<times> 'a cli_scheme" where
  "cli_read_draft E dir user draft_id s0 =
     (let s = drafts_clear_error s0
      in case (dir, draft_id) of
           (Some cfg, Some i) \<Rightarrow> parse_draft_json E cfg user i True s
         | _ \<Rightarrow> (None, s))"

section \<open>Listing and deleting\<close>

definition draft_entry :: "ext \<Rightarrow> shyake_selfdec \<Rightarrow> string \<Rightarrow> int \<Rightarrow> json \<Rightarrow> string \<Rightarrow> saved_entry mem" where
  "draft_entry E sd self i j enc_key =
     mem_bind
       (case shyake_selfdec_key E (Some sd) (Some enc_key) of
          (SHYAKE_OK, Some symk) \<Rightarrow>
            mem_bind (decrypt_field E symk (member_string j ''enc_recipient'')) (\<lambda>r.
            mem_bind (decrypt_field E symk (member_string j ''enc_subject'')) (\<lambda>sb. Ok (r, sb)))
        | _ \<Rightarrow> Ok (None, None))
       (\<lambda>(r, sb).
          Ok \<lparr>se_mail_id = snprintf 32 (show_int i), se_sender = self,
              se_recipient = (case r of Some t \<Rightarrow> t | None \<Rightarrow> ''(decryption failed)''),
              se_subject = (case sb of Some t \<Rightarrow> t | None \<Rightarrow> ''(decryption failed)''),
              se_timestamp = member_double j ''modified'', se_created = member_double j ''created'',
              se_size = member_int j ''size''\<rparr>)"

fun draft_entries ::
  "ext \<Rightarrow> shyake_selfdec \<Rightarrow> string \<Rightarrow> string \<Rightarrow> 'a world_scheme \<Rightarrow> string list \<Rightarrow> saved_entry list mem" where
  "draft_entries E sd self d w [] = Ok []"
| "draft_entries E sd self d w (n # ns) =
     (case Option.bind (read_text_file w (snprintf 768 (d @ ''/'' @ n))) (cjson_parse E) of
        None \<Rightarrow> draft_entries E sd self d w ns
      | Some j \<Rightarrow>
          (case member_string j ''enc_key'' of
             None \<Rightarrow> draft_entries E sd self d w ns
           | Some k \<Rightarrow>
               mem_bind (draft_entry E sd self (numeric_draft_id n) j k) (\<lambda>e.
               mem_bind (draft_entries E sd self d w ns) (\<lambda>es. Ok (e # es)))))"

text \<open>\<open>qsort\<close> with \<open>draft_entry_cmp\<close>, which compares the ids as numbers.\<close>

definition draft_key :: "saved_entry \<Rightarrow> int" where
  "draft_key e = atol (se_mail_id e)"

definition draft_entry_cmp :: "saved_entry \<Rightarrow> saved_entry \<Rightarrow> int" where
  "draft_entry_cmp a b =
     (if draft_key a > draft_key b then 1 else 0) - (if draft_key a < draft_key b then 1 else 0)"

definition cli_list_drafts ::
  "ext \<Rightarrow> string option \<Rightarrow> string option \<Rightarrow> 'a cli_scheme \<Rightarrow> saved_entry list option \<times> 'a cli_scheme" where
  "cli_list_drafts E dir user s0 =
     (let s = drafts_clear_error s0
      in case dir of
           None \<Rightarrow> (None, s)
         | Some cfg \<Rightarrow>
             (let d = drafts_dir cfg
              in if d \<notin> set (dirs s) then (Some [], s)
                 else
                   (let names = filter (\<lambda>n. numeric_draft_id n \<ge> 0) (dir_names s d)
                    in if names = [] then (Some [], s)
                       else
                         (case shyake_selfdec_new E s of
                            (None, s) \<Rightarrow> (None, unlock_error s)
                          | (Some sd, s) \<Rightarrow>
                              (case draft_entries E sd (self_name user) d s names of
                                 Ok es \<Rightarrow> (Some (sort_key draft_key es), s)
                               | _ \<Rightarrow> (None, mark_ub s))))))"

definition cli_delete_draft ::
  "string option \<Rightarrow> string option \<Rightarrow> 'a cli_scheme \<Rightarrow> shyake_err \<times> 'a cli_scheme" where
  "cli_delete_draft dir draft_id s0 =
     (let s = drafts_clear_error s0
      in case (dir, draft_id) of
           (Some cfg, Some i) \<Rightarrow>
             (let path = draft_path cfg i
              in if fs_get s path \<noteq> None then (SHYAKE_OK, fs_del path s)
                 else if path \<in> set (dirs s) then (SHYAKE_ERR, s)
                 else (SHYAKE_ERR_NOT_FOUND, s))
         | _ \<Rightarrow> (SHYAKE_ERR, s))"

section \<open>Lemmas\<close>

text \<open>A routine that changes no file: directories, randomness and the error text only.\<close>

definition quiet :: "'a cli_scheme \<Rightarrow> 'a cli_scheme \<Rightarrow> bool" where
  "quiet s t \<longleftrightarrow>
     (\<exists>ds e c d. t = s\<lparr>dirs := ds, entropy := e, coins := c, drafts_error := d\<rparr> \<and> set (dirs s) \<subseteq> set ds)"

lemma quietI:
  "t = s\<lparr>dirs := ds, entropy := e, coins := c, drafts_error := d\<rparr> \<Longrightarrow> set (dirs s) \<subseteq> set ds \<Longrightarrow> quiet s t"
  unfolding quiet_def by blast

lemma quiet_refl [simp]: "quiet s s"
  by (rule quietI [where ds = "dirs s" and e = "entropy s" and c = "coins s" and d = "drafts_error s"]) simp_all

lemma quiet_trans [trans]: "quiet s t \<Longrightarrow> quiet t u \<Longrightarrow> quiet s u"
  unfolding quiet_def by (elim exE conjE) (simp, blast)

lemma quiet_keeps:
  assumes "quiet s t"
  shows "files t = files s" "disk t = disk s" "clock t = clock s" "config_dir t = config_dir s"
    "passphrase t = passphrase s" "username t = username s" "fs_get t p = fs_get s p" "key_path t n = key_path s n"
    "last_error t = last_error s" "ub t = ub s" "set (dirs s) \<subseteq> set (dirs t)"
  using assms by (auto simp: quiet_def fs_get_def key_path_def)

lemma quiet_clear [simp]: "quiet s (drafts_clear_error s)"
  by (rule quietI [where ds = "dirs s" and e = "entropy s" and c = "coins s"]) (simp_all add: drafts_clear_error_def)

lemma quiet_set [simp]: "quiet s (drafts_set_error m s)"
  by (rule quietI [where ds = "dirs s" and e = "entropy s" and c = "coins s"]) (simp_all add: drafts_set_error_def)

lemma quiet_entropy: "t = s\<lparr>entropy := e\<rparr> \<Longrightarrow> quiet s t"
  by (rule quietI [where ds = "dirs s" and c = "coins s" and d = "drafts_error s"]) simp_all

lemma quiet_ensure: "ensure_drafts_dir cfg s = (rc, t) \<Longrightarrow> quiet s t"
  by (rule quietI [where ds = "dirs t" and e = "entropy s" and c = "coins s" and d = "drafts_error s"])
    (auto simp: ensure_drafts_dir_def Let_def split: if_splits)

lemma quiet_selfenc:
  fixes s t :: "'a cli_scheme"
  assumes "shyake_selfenc_begin E s = (r, t)"
  shows "quiet s t"
proof -
  have u: "quiet v w" if "read_urandom 32 v = (x, w)" for x and v w :: "'a cli_scheme"
    using that by (intro quiet_entropy [where e = "entropy w"]) (auto simp: read_urandom_def split: if_splits)
  have k: "quiet v w" if h: "kem_encapsulate_key E pk symk v = (x, w)" for pk symk x and v w :: "'a cli_scheme"
  proof -
    obtain c where "w = v\<lparr>coins := c\<rparr>" using kem_encapsulate_frame [OF h] by blast
    then show ?thesis
      by (intro quietI [where ds = "dirs v" and e = "entropy v" and c = c and d = "drafts_error v"]) simp_all
  qed
  show ?thesis
    using assms by (auto simp: shyake_selfenc_begin_def dest: u k intro: quiet_trans split: option.splits prod.splits)
qed

lemma quiet_seal: "shyake_seal_b64 E k x s = (r, t) \<Longrightarrow> quiet s t"
  using encrypt_to_b64_frame [of E k x s r t] by (auto simp: shyake_seal_b64_def intro: quiet_entropy)

lemma quiet_seal_field: "seal_field E k x s = (r, t) \<Longrightarrow> quiet s t"
  by (auto simp: seal_field_def split: if_splits dest: quiet_seal)

lemma seal_draft_cases:
  fixes s t :: "'a cli_scheme"
  assumes "seal_draft E k recipient subject reply body s = (d, t)"
  obtains r sb re b and s1 s2 s3 :: "'a cli_scheme" where "seal_field E k recipient s = (r, s1)"
    and "seal_field E k subject s1 = (sb, s2)"
    and "(case reply of None \<Rightarrow> (None, s2) | Some x \<Rightarrow> shyake_seal_b64 E k (bytes_of x) s2) = (re, s3)"
    and "shyake_seal_b64 E k body s3 = (b, t)"
    and "d = (if b = None \<or> (recipient \<noteq> None \<and> recipient \<noteq> Some [] \<and> r = None) \<or>
           (subject \<noteq> None \<and> subject \<noteq> Some [] \<and> sb = None) \<or> (reply \<noteq> None \<and> re = None) then None
         else Some \<lparr>dr_recipient = r, dr_subject = sb, dr_reply = re, dr_body = b\<rparr>)"
  using assms that unfolding seal_draft_def by (auto split: prod.splits if_splits)

lemma quiet_seal_draft:
  assumes "seal_draft E k recipient subject reply body s = (d, t)"
  shows "quiet s t"
proof -
  from assms obtain r sb re b s1 s2 s3 where f: "seal_field E k recipient s = (r, s1)" "seal_field E k subject s1 = (sb, s2)"
    and g: "(case reply of None \<Rightarrow> (None, s2) | Some x \<Rightarrow> shyake_seal_b64 E k (bytes_of x) s2) = (re, s3)"
    and h: "shyake_seal_b64 E k body s3 = (b, t)"
    by (rule seal_draft_cases)
  have "quiet s2 s3" using g by (cases reply) (auto dest: quiet_seal)
  then show ?thesis using quiet_seal_field [OF f(1)] quiet_seal_field [OF f(2)] quiet_seal [OF h] quiet_trans by blast
qed

lemma draft_created_quiet:
  assumes "quiet s t"
  shows "draft_created E cfg did t = draft_created E cfg did s"
  by (auto simp: draft_created_def read_text_file_def quiet_keeps [OF assms] split: option.splits)

text \<open>The two ways a save can end.\<close>

lemma save_draft_cases:
  fixes s s' :: "'a cli_scheme"
  assumes "cli_save_draft E dir recipient subject reply body did s = (e, out, s')"
  obtains (failed) t where "e \<noteq> SHYAKE_OK" and "out = None" and "quiet s t" and "s' = t \<or> s' = mark_ub t"
  | (saved) cfg b created symk enc d i and t u v :: "'a cli_scheme" where "dir = Some cfg" and "body = Some b" and "b \<noteq> []"
    and "draft_created E cfg did s = Some created" and "quiet s t" and "quiet s v"
    and "shyake_selfenc_begin E t = (Some (symk, enc), u)"
    and "seal_draft E symk recipient subject reply b u = (Some d, v)"
    and "open_draft_file cfg did v = Ok i" and "e = SHYAKE_OK" and "out = Some (snprintf 32 i)"
    and "s' = snd (write_file (draft_path cfg i)
           (bytes_of (cjson_print E (draft_object (snprintf 32 i) created (clock s) (length b) enc d))) v)"
proof (cases "dir = None \<or> body = None \<or> body = Some []")
  case True
  with assms failed [of "drafts_clear_error s"] show thesis by (auto simp: cli_save_draft_def)
next
  case False
  then obtain cfg b where in': "dir = Some cfg" "body = Some b" "b \<noteq> []" by auto
  obtain rc t where t: "ensure_drafts_dir cfg (drafts_clear_error s) = (rc, t)" by (metis surj_pair)
  have qt: "quiet s t" using quiet_clear quiet_ensure [OF t] by (rule quiet_trans)
  note x = assms [unfolded cli_save_draft_def Let_def in'(1,2) option.sel, unfolded t prod.case, simplified in'(3),
      simplified, unfolded draft_created_quiet [OF qt]]
  show thesis
  proof (cases "rc \<noteq> 0 \<or> draft_created E cfg did s = None")
    case True
    with x in' qt quiet_trans [OF qt quiet_set] failed show thesis by (auto split: if_splits)
  next
    case False
    then obtain created where c: "rc = 0" "draft_created E cfg did s = Some created" by auto
    obtain k u where k: "shyake_selfenc_begin E t = (k, u)" by (metis surj_pair)
    have qu: "quiet s u" using qt quiet_selfenc [OF k] by (rule quiet_trans)
    show thesis
    proof (cases k)
      case None
      with x in' c k quiet_trans [OF qu quiet_set] failed show thesis by auto
    next
      case (Some ke)
      then obtain symk enc where ke: "k = Some (symk, enc)" by (cases ke) auto
      obtain d v where d: "seal_draft E symk recipient subject reply b u = (d, v)" by (metis surj_pair)
      have qv: "quiet s v" using qu quiet_seal_draft [OF d] by (rule quiet_trans)
      have y: "(case d of None \<Rightarrow> (SHYAKE_ERR_CRYPTO, None, v)
          | Some dd \<Rightarrow> write_draft E cfg did created (length b) enc dd v) = (e, out, s')"
        using x in'(3) by (simp add: c k ke d)
      show thesis
      proof (cases "\<exists>dd i. d = Some dd \<and> open_draft_file cfg did v = Ok i")
        case True
        then obtain dd i where "d = Some dd" "open_draft_file cfg did v = Ok i" by blast
        with y in' qv saved [OF in' c(2) qt qv k [unfolded ke] d [unfolded \<open>d = Some dd\<close>]] show thesis
          by (auto simp: write_draft_def Let_def quiet_keeps [OF qv])
      next
        case False
        with y in' qv failed show thesis
          by (cases d; cases "open_draft_file cfg did v") (auto simp: write_draft_def Let_def)
      qed
    qed
  qed
qed

text \<open>A text that can be stored, and what a field that may be missing reads as.\<close>

definition draft_text :: "string option \<Rightarrow> bool" where
  "draft_text t = (case t of None \<Rightarrow> True | Some x \<Rightarrow> nul_free x \<and> length x < 2 ^ 30)"

definition or_empty :: "string option \<Rightarrow> string" where
  "or_empty t = (case t of None \<Rightarrow> [] | Some x \<Rightarrow> x)"

lemma base64_nul_free: "base64_law E \<Longrightarrow> nul_free (base64_encode E d)"
  using base64_encode_clean unfolding nul_free_def list_all_iff by blast

lemma seal_nul_free: "base64_law E \<Longrightarrow> shyake_seal_b64 E k x w = (Some b, w') \<Longrightarrow> nul_free b \<and> b \<noteq> []"
  using base64_nul_free encrypt_to_b64_ne by (auto simp: shyake_seal_b64_def elim!: encrypt_to_b64_cases)

lemma seal_field_opens:
  assumes "base64_law E" and "aead_law E" and "draft_text x"
    and "seal_field E k x w = (r, w')" and "x = None \<or> x = Some [] \<or> r \<noteq> None"
  shows "decrypt_field E k (Some (or_empty r)) = Ok (Some (or_empty x))" and "nul_free (or_empty r)"
proof -
  have "decrypt_field E k (Some (or_empty r)) = Ok (Some (or_empty x)) \<and> nul_free (or_empty r)"
  proof (cases "x = None \<or> x = Some []")
    case True
    then have "r = None" and "or_empty x = []" using assms(4) by (auto simp: seal_field_def or_empty_def)
    then show ?thesis by (simp add: or_empty_def decrypt_field_def)
  next
    case False
    then obtain y b where x: "x = Some y" and r: "r = Some b" using assms(5) by auto
    have b: "shyake_seal_b64 E k (bytes_of y) w = (Some b, w')" using assms(4) False x r by (simp add: seal_field_def)
    have y: "length (bytes_of y) < 2 ^ 30" "cstr (text_of (bytes_of y)) = y" using assms(3) x by (simp_all add: draft_text_def)
    have "shyake_unseal_b64 E k (Some b) = Ok y"
      unfolding shyake_unseal_b64_def using decrypt_encrypt [OF assms(1,2) y(1)] b y(2) by (simp add: shyake_seal_b64_def)
    then show ?thesis using seal_nul_free [OF assms(1) b] by (simp add: x r or_empty_def decrypt_field_def)
  qed
  then show "decrypt_field E k (Some (or_empty r)) = Ok (Some (or_empty x))" and "nul_free (or_empty r)" by auto
qed

lemma seal_draft_opens:
  fixes s t :: "'a cli_scheme"
  assumes "base64_law E" and "aead_law E" and "draft_text recipient" and "draft_text subject" and "draft_text reply"
    and "draft_text (Some (text_of body))" and "seal_draft E k recipient subject reply body s = (Some d, t)"
  shows "decrypt_field E k (Some (or_empty (dr_recipient d))) = Ok (Some (or_empty recipient))"
    and "decrypt_field E k (Some (or_empty (dr_subject d))) = Ok (Some (or_empty subject))"
    and "\<exists>b. dr_body d = Some b \<and> nul_free b \<and> shyake_unseal_b64 E k (Some b) = Ok (text_of body)"
    and "case reply of None \<Rightarrow> dr_reply d = None
         | Some x \<Rightarrow> \<exists>b. dr_reply d = Some b \<and> b \<noteq> [] \<and> nul_free b \<and> shyake_unseal_b64 E k (Some b) = Ok x"
    and "nul_free (or_empty (dr_recipient d))" and "nul_free (or_empty (dr_subject d))"
proof -
  from assms(7) obtain r sb re b s1 s2 s3 where f: "seal_field E k recipient s = (r, s1)" "seal_field E k subject s1 = (sb, s2)"
    and g: "(case reply of None \<Rightarrow> (None, s2) | Some x \<Rightarrow> shyake_seal_b64 E k (bytes_of x) s2) = (re, s3)"
    and h: "shyake_seal_b64 E k body s3 = (b, t)"
    and d: "d = \<lparr>dr_recipient = r, dr_subject = sb, dr_reply = re, dr_body = b\<rparr>" "b \<noteq> None"
      "recipient = None \<or> recipient = Some [] \<or> r \<noteq> None" "subject = None \<or> subject = Some [] \<or> sb \<noteq> None"
      "reply = None \<or> re \<noteq> None"
    by (rule seal_draft_cases) (auto split: if_splits)
  note rr = seal_field_opens [OF assms(1,2,3) f(1) d(3)] and ss = seal_field_opens [OF assms(1,2,4) f(2) d(4)]
  show "decrypt_field E k (Some (or_empty (dr_recipient d))) = Ok (Some (or_empty recipient))"
    "decrypt_field E k (Some (or_empty (dr_subject d))) = Ok (Some (or_empty subject))"
    "nul_free (or_empty (dr_recipient d))" "nul_free (or_empty (dr_subject d))"
    using rr ss by (simp_all add: d(1))
  have opn: "nul_free q \<and> q \<noteq> [] \<and> shyake_unseal_b64 E k (Some q) = Ok (text_of p)"
    if "draft_text (Some (text_of p))" and q: "shyake_seal_b64 E k p w = (Some q, w')" for p q and w w' :: "'a cli_scheme"
  proof -
    have "length p < 2 ^ 30" "cstr (text_of p) = text_of p" using that(1) by (simp_all add: draft_text_def text_of_def)
    then show ?thesis
      using decrypt_encrypt [OF assms(1,2), of p k w q w'] seal_nul_free [OF assms(1) q] q
      by (simp add: shyake_unseal_b64_def shyake_seal_b64_def)
  qed
  show "\<exists>b. dr_body d = Some b \<and> nul_free b \<and> shyake_unseal_b64 E k (Some b) = Ok (text_of body)"
    using opn [OF assms(6)] h d(2) by (auto simp: d(1))
  show "case reply of None \<Rightarrow> dr_reply d = None
         | Some x \<Rightarrow> \<exists>b. dr_reply d = Some b \<and> b \<noteq> [] \<and> nul_free b \<and> shyake_unseal_b64 E k (Some b) = Ok x"
    using g d(5) assms(5) opn [of "bytes_of (the reply)"] by (cases reply) (auto simp: d(1))
qed

lemma lower_draft_names:
  "map lower_c ''version'' = ''version''" "map lower_c ''draft_id'' = ''draft_id''"
  "map lower_c ''created'' = ''created''" "map lower_c ''modified'' = ''modified''"
  "map lower_c ''enc_key'' = ''enc_key''" "map lower_c ''enc_recipient'' = ''enc_recipient''"
  by (simp_all add: lower_c_def)

lemma draft_members:
  fixes key i :: string and created now :: int and n :: nat
  assumes "dr_body d = Some b"
  defines "j \<equiv> draft_object i created now n key d"
  shows "member_string j ''enc_key'' = Some key" and "member_string j ''enc_body'' = Some b"
    and "member_string j ''enc_recipient'' = Some (or_empty (dr_recipient d))"
    and "member_string j ''enc_subject'' = Some (or_empty (dr_subject d))"
    and "get_object_item j ''enc_reply_to'' = map_option JStr (dr_reply d)"
    and "member_double j ''created'' = created" and "member_double j ''modified'' = now"
    and "member_int j ''size'' = valueint (JNum (int n))"
  unfolding j_def draft_object_def Let_def assms(1) option.case member_string_def member_double_def member_int_def or_empty_def
  by (cases "dr_reply d";
      simp only: add_string.simps add_number.simps append.simps get_object_item.simps find_member.simps
        same_nocase_def lower_names lower_draft_names option.map; simp)+

lemma draft_plain:
  fixes key :: string and n :: nat
  assumes "nul_free i" and "\<bar>created\<bar> < 10 ^ 15" and "\<bar>now\<bar> < 10 ^ 15" and "n < 10 ^ 15" and "nul_free key"
    and "nul_free (or_empty (dr_recipient d))" and "nul_free (or_empty (dr_subject d))"
    and "dr_body d = Some b" and "nul_free b" and "\<And>x. dr_reply d = Some x \<Longrightarrow> nul_free x"
  shows "json_plain (draft_object i created now n key d)"
  using assms unfolding or_empty_def
  by (cases "dr_reply d") (simp_all add: draft_object_def nul_free_def)

lemma try_ids_Ok:
  "try_ids cfg w n i = Ok x \<Longrightarrow>
     \<exists>k. i \<le> k \<and> k \<le> LONG_MAX \<and> x = show_int k \<and> \<not> path_exists w (draft_path cfg x) \<and> disk w (draft_path cfg x) \<noteq> None"
proof (induction n arbitrary: i)
  case (Suc n)
  show ?case
  proof (cases "path_exists w (draft_path cfg (show_int i))")
    case True
    with Suc.prems have "try_ids cfg w n (i + 1) = Ok x" by (simp split: if_splits)
    from Suc.IH [OF this] obtain k where "i + 1 \<le> k" "k \<le> LONG_MAX \<and> x = show_int k \<and>
        \<not> path_exists w (draft_path cfg x) \<and> disk w (draft_path cfg x) \<noteq> None" by blast
    then show ?thesis by (intro exI [of _ k]) auto
  next
    case False
    with Suc.prems show ?thesis by (intro exI [of _ i]) (simp split: if_splits)
  qed
qed (simp split: if_splits)

lemma foldl_max:
  fixes f :: "'b \<Rightarrow> int"
  shows "m \<le> foldl (\<lambda>m n. if f n > m then f n else m) m ns \<and>
    (\<forall>n\<in>set ns. f n \<le> foldl (\<lambda>m n. if f n > m then f n else m) m ns)"
proof (induction ns arbitrary: m)
  case (Cons a ns)
  from this [of "if f a > m then f a else m"] show ?case by (auto split: if_splits)
qed simp

lemma max_draft_id_bounds:
  "0 \<le> max_draft_id cfg w"
  "drafts_dir cfg \<in> set (dirs w) \<Longrightarrow> n \<in> set (dir_names w (drafts_dir cfg)) \<Longrightarrow> numeric_draft_id n \<le> max_draft_id cfg w"
  using foldl_max [of 0 numeric_draft_id "dir_names w (drafts_dir cfg)"] by (auto simp: max_draft_id_def)

lemma show_id:
  assumes "0 \<le> k" and "k \<le> LONG_MAX"
  shows "nul_free (show_int k)" and "atol (show_int k) = k"
proof -
  have k: "show_int k = show_nat (nat k)" "int (nat k) = k" using assms by (simp_all add: show_int_def)
  show "nul_free (show_int k)" unfolding k(1) by (rule show_nat_nul_free)
  show "atol (show_int k) = k" unfolding k(1) using atol_show_nat [of "nat k"] assms k(2) by simp
qed

lemma digits_below: "0 < k \<Longrightarrow> n < 10 ^ k \<Longrightarrow> length (show_nat n) \<le> k"
proof (induction k arbitrary: n)
  case (Suc k)
  show ?case
  proof (cases "n < 10")
    case False
    then have "n div 10 < 10 ^ k" "0 < k" using Suc.prems by (auto simp: less_mult_imp_div_less intro: gr0I)
    with Suc.IH [of "n div 10"] False show ?thesis by (subst show_nat.simps) simp
  qed (subst show_nat.simps, simp)
qed simp

lemma show_id_short:
  assumes "0 \<le> k" and "k \<le> LONG_MAX"
  shows "length (show_int k) < 32"
proof -
  have "nat k < 10 ^ 19" using assms by (simp add: LONG_MAX_def nat_less_iff)
  with digits_below [of 19 "nat k"] have "length (show_nat (nat k)) \<le> 19" by simp
  with assms(1) show ?thesis by (simp add: show_int_def)
qed

text \<open>What a save without an error has opened.\<close>

lemma open_draft_file_Ok:
  assumes "open_draft_file cfg did w = Ok i"
  shows "case did of Some x \<Rightarrow> i = x \<and> fs_get w (draft_path cfg i) \<noteq> None
     | None \<Rightarrow> nul_free i \<and> length i < 32 \<and> max_draft_id cfg w < atol i \<and> \<not> path_exists w (draft_path cfg i)"
proof (cases did)
  case None
  with assms obtain k where k: "max_draft_id cfg w + 1 \<le> k" "k \<le> LONG_MAX" "i = show_int k"
    "\<not> path_exists w (draft_path cfg i)"
    by (auto simp: open_draft_file_def dest: try_ids_Ok)
  then have "0 \<le> k" using max_draft_id_bounds(1) [of cfg w] by simp
  with k show ?thesis using show_id [of k] show_id_short [of k] by (simp add: None)
qed (use assms in \<open>auto simp: open_draft_file_def split: if_splits\<close>)

lemma draft_key_paths_differ:
  assumes "length cfg < 490"
  shows "snprintf 512 (cfg @ ''/kem_sk.bin'') \<noteq> draft_path cfg i"
proof -
  have "snprintf 512 (cfg @ ''/kem_sk.bin'') ! (length cfg + 1) = CHR ''k''" using assms by (simp add: nth_append)
  moreover have "draft_path cfg i ! (length cfg + 1) = CHR ''d''"
    unfolding draft_path_def snprintf_def using assms by (simp add: nth_append)
  ultimately show ?thesis by auto
qed

lemma write_file_full:
  assumes "fs_get (snd (write_file p d w)) p = Some raw" and "disk w p = Some cap" and "length raw < cap"
  shows "snd (write_file p d w) = fs_put p d w" and "raw = d"
  using assms by (auto simp: write_file_def store_simps)

lemma cleared_put:
  assumes "quiet s v"
  shows "key_path (drafts_clear_error (fs_put p d v)) n = key_path s n"
    "passphrase (drafts_clear_error (fs_put p d v)) = passphrase s"
    "fs_get (drafts_clear_error (fs_put p d v)) x = (if x = p then Some d else fs_get s x)"
proof -
  have "fs_get (drafts_clear_error w) x = fs_get w x" for w :: "'a cli_scheme"
    by (simp add: drafts_clear_error_def fs_get_def)
  then show "fs_get (drafts_clear_error (fs_put p d v)) x = (if x = p then Some d else fs_get s x)"
    using quiet_keeps [OF assms] by (simp add: store_simps)
qed (use quiet_keeps [OF assms] in \<open>simp_all add: drafts_clear_error_def key_path_def\<close>)

lemma selfenc_begin_opens:
  fixes t u :: "'a cli_scheme"
  assumes "base64_law E" and "kem_law E" and "kem_ct_length E < 2 ^ 30"
    and "load_file t (key_path t ''kem_pk.bin'') = Some kpk" and "kem_pair E kpk ksk"
    and "shyake_selfenc_begin E t = (Some (symk, enc), u)"
  shows "length symk = 32" and "kem_decapsulate_key E enc ksk = Some symk" and "nul_free enc"
proof -
  from assms(6) obtain kpk' and w w' :: "'a cli_scheme" where w: "load_file t (key_path t ''kem_pk.bin'') = Some kpk'"
    "length symk = 32" "kem_encapsulate_key E kpk' symk w = (Some enc, w')"
    by (rule selfenc_begin_cases)
  with assms(4) have "kem_encapsulate_key E kpk symk w = (Some enc, w')" by simp
  from decapsulate_encapsulate [OF assms(1,2,5) w(2) assms(3) this]
  show "length symk = 32" "kem_decapsulate_key E enc ksk = Some symk" using w(2) by auto
  show "nul_free enc" using w(3) base64_nul_free [OF assms(1)] by (auto elim: kem_encapsulate_cases)
qed

text \<open>Reading a draft whose file holds the object that was written.\<close>

lemma parse_draft_object:
  fixes s :: "'a cli_scheme"
  assumes "read_text_file s (draft_path cfg i) = Some raw" and "cjson_parse E raw = Some j"
    and "member_string j ''enc_key'' = Some key" and "member_string j ''enc_body'' \<noteq> None"
    and "fst (load_sk_decrypted E (key_path s ''kem_sk.bin'') s) = Some ksk"
    and "kem_decapsulate_key E key ksk = Some symk" and "length symk = 32"
    and "open_draft E True symk j = Ok t" and "dt_body t \<noteq> None" and "sealed_reply j = None \<or> dt_reply t \<noteq> None"
  shows "parse_draft_json E cfg user i True s = (Some (draft_detail user i j t), s)"
proof -
  obtain s1 where "load_sk_decrypted E (key_path s ''kem_sk.bin'') s = (Some ksk, s1)"
    using assms(5) by (metis prod.collapse)
  then have "load_sk_decrypted E (key_path s ''kem_sk.bin'') s = (Some ksk, s)" using load_sk_ok_frame by metis
  then have new: "shyake_selfdec_new E s = (Some \<lparr>sd_ksk = ksk\<rparr>, s)" by (simp add: shyake_selfdec_new_def)
  have "shyake_selfdec_key E (Some \<lparr>sd_ksk = ksk\<rparr>) (Some key) = (SHYAKE_OK, Some symk)"
    using assms(6,7) by (simp add: shyake_selfdec_key_def)
  then show ?thesis using assms(1-4,8-10) by (auto simp: parse_draft_json_def new)
qed

lemma draft_entries_in:
  "draft_entries E sd self d w ns = Ok es \<Longrightarrow> e \<in> set es \<Longrightarrow>
     \<exists>n\<in>set ns. \<exists>raw j k. read_text_file w (snprintf 768 (d @ ''/'' @ n)) = Some raw \<and> cjson_parse E raw = Some j \<and>
       member_string j ''enc_key'' = Some k \<and> draft_entry E sd self (numeric_draft_id n) j k = Ok e"
proof (induction ns arbitrary: es)
  case (Cons n ns)
  show ?case
  proof (cases "\<exists>raw j k. read_text_file w (snprintf 768 (d @ ''/'' @ n)) = Some raw \<and> cjson_parse E raw = Some j \<and>
       member_string j ''enc_key'' = Some k")
    case True
    then obtain raw j k where r: "read_text_file w (snprintf 768 (d @ ''/'' @ n)) = Some raw" "cjson_parse E raw = Some j"
      "member_string j ''enc_key'' = Some k" by blast
    with Cons.prems(1) obtain e' es' where "draft_entry E sd self (numeric_draft_id n) j k = Ok e'"
      "draft_entries E sd self d w ns = Ok es'" "es = e' # es'" by auto
    with r Cons.IH [of es'] Cons.prems(2) show ?thesis by auto
  next
    case False
    with Cons.prems(1) have "draft_entries E sd self d w ns = Ok es" by (auto split: option.splits bind_splits)
    from Cons.IH [OF this Cons.prems(2)] show ?thesis by auto
  qed
qed simp

text \<open>What a list shows of a field, and an entry against the draft as it is read.\<close>

definition shown :: "string option \<Rightarrow> string" where
  "shown t = (case t of Some x \<Rightarrow> x | None \<Rightarrow> ''(decryption failed)'')"

definition entry_shows :: "saved_entry \<Rightarrow> mail_detail \<Rightarrow> bool" where
  "entry_shows e d \<longleftrightarrow>
     se_mail_id e = md_mail_id d \<and> se_sender e = md_sender d \<and> se_recipient e = shown (md_recipient d) \<and>
     se_subject e = shown (md_subject d) \<and> se_timestamp e = md_timestamp d \<and> se_created e = md_created d \<and>
     se_size e = md_size d"

lemma draft_entry_shows:
  assumes "draft_entry E sd (self_name user) n j k = Ok e" and "member_string j ''enc_key'' = Some k"
    and "shyake_selfdec_new E s = (Some sd, s1)" and "read_text_file s (draft_path cfg i) = Some raw"
    and "cjson_parse E raw = Some j" and "i = se_mail_id e"
    and "parse_draft_json E cfg user i True s = (Some d, t)"
  shows "entry_shows e d"
proof -
  obtain symk where k: "shyake_selfdec_key E (Some sd) (Some k) = (SHYAKE_OK, Some symk)"
    using assms(2-5,7) by (auto simp: parse_draft_json_def split: prod.splits option.splits shyake_err.splits if_splits)
  obtain r sb where r: "decrypt_field E symk (member_string j ''enc_recipient'') = Ok r"
    "decrypt_field E symk (member_string j ''enc_subject'') = Ok sb"
    and e: "se_sender e = self_name user" "se_recipient e = shown r" "se_subject e = shown sb"
      "se_timestamp e = member_double j ''modified''" "se_created e = member_double j ''created''"
      "se_size e = member_int j ''size''"
    using assms(1) by (auto simp: draft_entry_def k shown_def)
  obtain x where x: "open_draft E True symk j = Ok x" "d = draft_detail user i j x"
    using assms(2-5,7) k by (auto simp: parse_draft_json_def split: mem.splits if_splits)
  then have "dt_recipient x = r" "dt_subject x = sb" using r by (auto simp: open_draft_def)
  with x(2) e assms(6) show ?thesis by (simp add: entry_shows_def draft_detail_def)
qed

lemma draft_entry_id: "draft_entry E sd self n j k = Ok e \<Longrightarrow> se_mail_id e = snprintf 32 (show_int n)"
  by (auto simp: draft_entry_def split: prod.splits)

section \<open>Properties\<close>

text \<open>C6. A draft that was saved reads back: in the state after the save, with the secret key of the own
  public key, \<open>cli_read_draft\<close> gives the recipient, subject, reply reference and body that were
  written, the time of the save, and the creation time, which is kept when a draft is overwritten.
  The texts hold no NUL, the disk took the whole file, and the times have at most 15 digits.\<close>

theorem draft_reads_back:
  fixes s s' :: "'a cli_scheme"
  assumes laws: "base64_law E" "aead_law E" "kem_law E" "json_law E" "kem_ct_length E < 2 ^ 30"
    and keys: "load_file s (key_path s ''kem_pk.bin'') = Some kpk" "kem_pair E kpk ksk"
      "fst (load_sk_decrypted E (key_path s ''kem_sk.bin'') s) = Some ksk"
    and texts: "draft_text recipient" "draft_text subject" "draft_text reply" "draft_text (Some (text_of body))"
    and times: "\<bar>clock s\<bar> < 10 ^ 15" "draft_created E (config_dir s) did s = Some created" "\<bar>created\<bar> < 10 ^ 15"
    and names: "length (config_dir s) < 490" "case did of None \<Rightarrow> True | Some x \<Rightarrow> nul_free x \<and> length x < 32"
    and saved: "cli_save_draft E (Some (config_dir s)) recipient subject reply (Some body) did s = (SHYAKE_OK, Some i, s')"
    and stored: "fs_get s' (draft_path (config_dir s) i) = Some raw"
      "disk s (draft_path (config_dir s) i) = Some cap" "length raw < cap"
  shows "\<exists>d. cli_read_draft E (Some (config_dir s)) user (Some i) s' = (Some d, drafts_clear_error s') \<and>
     md_recipient d = Some (or_empty recipient) \<and> md_subject d = Some (or_empty subject) \<and>
     md_body d = Some (text_of body) \<and> md_reply_ref d = reply \<and>
     md_timestamp d = clock s \<and> md_created d = created \<and> md_size d = valueint (JNum (int (length body)))"
proof -
  obtain symk enc d i' and t u v :: "'a cli_scheme" where q: "quiet s t" "quiet s v"
    and k: "shyake_selfenc_begin E t = (Some (symk, enc), u)"
    and d: "seal_draft E symk recipient subject reply body u = (Some d, v)"
    and f: "open_draft_file (config_dir s) did v = Ok i'" and i: "i = snprintf 32 i'"
    and s': "s' = snd (write_file (draft_path (config_dir s) i')
           (bytes_of (cjson_print E (draft_object (snprintf 32 i') created (clock s) (length body) enc d))) v)"
    using saved times(2) by (rule_tac save_draft_cases [OF saved]) auto
  note qs = quiet_keeps [OF q(2)] and opn = seal_draft_opens [OF laws(1,2) texts d]
  have i': "i' = i" "nul_free i" using open_draft_file_Ok [OF f] names(2) i by (auto split: option.splits)
  define j where "j = draft_object i created (clock s) (length body) enc d"
  obtain b where b: "dr_body d = Some b" "nul_free b" "shyake_unseal_b64 E symk (Some b) = Ok (text_of body)"
    using opn(3) by blast
  note mem = draft_members [OF b(1), of i created "clock s" "length body" enc, folded j_def]
  have "load_file t (key_path t ''kem_pk.bin'') = Some kpk" using keys(1) quiet_keeps [OF q(1)] by (simp add: load_file_def)
  note enc = selfenc_begin_opens [OF laws(1,3,5) this keys(2) k]
  have plain: "json_plain j"
    unfolding j_def using i'(2) times(3,1) texts(4) enc(3) opn(5,6) b(1,2) opn(4)
    by (intro draft_plain [where b = b]) (auto simp: draft_text_def text_of_def split: option.splits)
  define p where "p = draft_path (config_dir s) i"
  have w: "s' = snd (write_file p (bytes_of (cjson_print E j)) v)" by (rule s' [folded i, unfolded i'(1), folded j_def p_def])
  have dv: "disk v p = Some cap" using stored(2) qs(2) by (simp add: p_def)
  note full = write_file_full [OF stored(1) [folded p_def, unfolded w] dv stored(3)]
  have st: "s' = fs_put p (bytes_of (cjson_print E j)) v" using w full(1) by simp
  define r where "r = drafts_clear_error s'"
  note kp = cleared_put [OF q(2), of p "bytes_of (cjson_print E j)", folded st, folded r_def]
  have content: "read_text_file r (draft_path (config_dir s) i) = Some (cjson_print E j)" "cjson_parse E (cjson_print E j) = Some j"
    using laws(4) plain by (simp_all add: read_text_file_def kp p_def json_law_def)
  have "key_path s ''kem_sk.bin'' \<noteq> p"
    using draft_key_paths_differ [OF names(1)] by (simp add: key_path_def p_def)
  then have sk: "fst (load_sk_decrypted E (key_path r ''kem_sk.bin'') r) = Some ksk"
    using keys(3) unfolding load_sk_value load_file_def kp by simp
  have sr: "sealed_reply j = dr_reply d" using opn(4) mem(5) by (cases reply) (auto simp: sealed_reply_def)
  have op: "open_draft E True symk j = Ok \<lparr>dt_recipient = Some (or_empty recipient), dt_subject = Some (or_empty subject),
      dt_reply = reply, dt_body = Some (text_of body)\<rparr>"
    using opn(1,2,4) b(3) by (cases reply) (auto simp: open_draft_def mem(2-4) sr)
  have "sealed_reply j = None \<or> reply \<noteq> None" using sr opn(4) by (cases reply) auto
  then have "parse_draft_json E (config_dir s) user i True r = (Some (draft_detail user i j
      \<lparr>dt_recipient = Some (or_empty recipient), dt_subject = Some (or_empty subject), dt_reply = reply,
       dt_body = Some (text_of body)\<rparr>), r)"
    using parse_draft_object [OF content mem(1) _ sk enc(2,1) op, of user] mem(2) by simp
  then show ?thesis
    using mem(6-8) by (simp add: cli_read_draft_def Let_def r_def draft_detail_def)
qed

text \<open>A machine for the witnesses: the own keys, and a disk that takes \<open>n\<close> bytes.\<close>

definition draft_world :: "nat \<Rightarrow> cli" where
  "draft_world n = sys.extend (sys0\<lparr>files := [(''/c/kem_pk.bin'', [5, 7]), (''/c/kem_sk.bin'', [5, 8])],
     disk := (\<lambda>_. Some n)\<rparr>) (cli.fields [])"

lemma draft_world_sel [simp]:
  "files (draft_world n) = [(''/c/kem_pk.bin'', [5, 7]), (''/c/kem_sk.bin'', [5, 8])]"
  "disk (draft_world n) = (\<lambda>_. Some n)" "entropy (draft_world n) = replicate 200 5" "coins (draft_world n) = 0"
  "config_dir (draft_world n) = ''/c''" "clock (draft_world n) = 1700000000" "dirs (draft_world n) = []"
  "mkdir_ok (draft_world n) = (\<lambda>_. True)" "passphrase (draft_world n) = []"
  by (simp_all add: draft_world_def sys.defs cli.defs)

lemma try_first:
  assumes "\<not> path_exists w (draft_path cfg ''1'')" and "disk w (draft_path cfg ''1'') \<noteq> None"
  shows "try_ids cfg w 100 1 = Ok ''1''"
proof -
  have "show_int 1 = ''1''" by (simp add: show_int_def show_nat.simps)
  then show ?thesis using assms try_ids.simps(2) [of cfg w 99 1] by (auto simp: LONG_MAX_def)
qed

lemma draft_world_save:
  "\<exists>pl. \<forall>n. \<exists>w. cli_save_draft toy_json (Some ''/c'') (Some ''bob'') None None (Some [104]) None (draft_world n)
     = (SHYAKE_OK, Some ''1'', fs_put ''/c/drafts/1.json'' (take n pl) w)"
proof -
  have id: "try_ids ''/c'' (draft_world n\<lparr>drafts_error := [], dirs := [''/c/drafts''], coins := Suc 0, entropy := r\<rparr>)
     100 1 = Ok ''1''" for n r
    by (rule try_first) (simp_all add: path_exists_def fs_get_def draft_path_def)
  have p: "draft_path ''/c'' ''1'' = ''/c/drafts/1.json''" by (simp add: draft_path_def)
  define d where "d = \<lparr>dr_recipient = Some (base64_encode toy_json (replicate 12 5 @ bytes_of ''bob'' @ pad_to 16 (replicate 32 5))),
     dr_subject = None, dr_reply = None,
     dr_body = Some (base64_encode toy_json (replicate 12 5 @ 104 # pad_to 16 (replicate 32 5)))\<rparr>"
  show ?thesis
    by (rule exI, rule allI, rule exI)
     (simp add: cli_save_draft_def Let_def drafts_clear_error_def ensure_drafts_dir_def drafts_dir_def path_exists_def
       fs_get_def draft_created_def shyake_selfenc_begin_def load_file_def key_path_def read_urandom_def
       kem_encapsulate_key_def toy_json_simps next_coin_def seal_draft_def seal_field_def shyake_seal_b64_def
       encrypt_to_b64_def chacha20_poly1305_encrypt_def write_draft_def open_draft_file_def max_draft_id_def
       dir_names_def id p d_def [symmetric] write_file_def)
qed

theorem draft_reads_back_witness:
  "\<exists>n s' d. cli_save_draft toy_json (Some ''/c'') (Some ''bob'') None None (Some [104]) None (draft_world n)
      = (SHYAKE_OK, Some ''1'', s') \<and>
     cli_read_draft toy_json (Some ''/c'') None (Some ''1'') s' = (Some d, drafts_clear_error s') \<and>
     md_recipient d = Some ''bob'' \<and> md_subject d = Some [] \<and> md_body d = Some ''h'' \<and> md_reply_ref d = None"
proof -
  from draft_world_save obtain pl where pl: "\<forall>n. \<exists>w. cli_save_draft toy_json (Some ''/c'') (Some ''bob'') None None
      (Some [104]) None (draft_world n) = (SHYAKE_OK, Some ''1'', fs_put ''/c/drafts/1.json'' (take n pl) w)" by blast
  define n where "n = Suc (length pl)"
  from pl obtain w where w: "cli_save_draft toy_json (Some (config_dir (draft_world n))) (Some ''bob'') None None
      (Some [104]) None (draft_world n) = (SHYAKE_OK, Some ''1'', fs_put ''/c/drafts/1.json'' (take n pl) w)"
    by fastforce
  have l: "fst (load_sk_decrypted toy_json (key_path (draft_world n) ''kem_sk.bin'') (draft_world n)) = Some [5, 8]"
    by (simp add: load_sk_value load_file_def fs_get_def key_path_def sk_of_file_def)
  have p: "kem_pair toy_json [5, 7] [5, 8]"
    by (rule kem_law_pair [OF toy_json_laws(4), of 5]) (simp add: toy_json_simps)
  have f: "fs_get (fs_put ''/c/drafts/1.json'' (take n pl) w) (draft_path (config_dir (draft_world n)) ''1'') = Some pl"
    by (simp add: draft_path_def store_simps n_def)
  have c: "draft_created toy_json (config_dir (draft_world n)) None (draft_world n) = Some 1700000000"
    by (simp add: draft_created_def)
  have k: "load_file (draft_world n) (key_path (draft_world n) ''kem_pk.bin'') = Some [5, 7]"
    by (simp add: load_file_def fs_get_def key_path_def)
  from draft_reads_back [OF toy_json_laws(1,3,4,5) _ k p l _ _ _ _ _ c _ _ _ w f, of "Suc (length pl)" None] w
  show ?thesis
    by (auto simp: toy_json_simps draft_text_def or_empty_def n_def text_of_def char_of_byte_def)
qed



text \<open>C30. The draft list is ordered by \<open>draft_entry_cmp\<close>, that is by number; listing changes no file; every
  entry comes from a draft file of the directory, and for a file that is named by its id the entry
  shows what \<open>cli_read_draft\<close> reads from it.\<close>

theorem list_drafts_sorted:
  fixes s s' :: "'a cli_scheme"
  assumes "cli_list_drafts E (Some cfg) user s = (Some es, s')" and "length cfg < 490"
  shows "sorted_wrt (\<lambda>a b. draft_entry_cmp a b \<le> 0) es \<and> files s' = files s \<and>
     (\<forall>e \<in> set es. \<exists>n \<in> set (dir_names s (drafts_dir cfg)).
        0 \<le> numeric_draft_id n \<and> se_mail_id e = snprintf 32 (show_int (numeric_draft_id n)) \<and>
        (\<forall>d t. n = se_mail_id e @ ''.json'' \<longrightarrow>
           cli_read_draft E (Some cfg) user (Some (se_mail_id e)) s = (Some d, t) \<longrightarrow> entry_shows e d))"
proof (cases "es = []")
  case True
  have "files u = files v" if "shyake_selfdec_new E v = (Some sd, u)" for sd and u v :: "'a cli_scheme"
    using that load_sk_ok_frame by (fastforce simp: shyake_selfdec_new_def split: prod.splits option.splits)
  with True assms(1) show ?thesis
    by (auto simp: cli_list_drafts_def Let_def drafts_clear_error_def split: if_splits option.splits prod.splits mem.splits)
next
  case False
  define c where "c = drafts_clear_error s"
  define d where "d = drafts_dir cfg"
  have dn: "dir_names c d = dir_names s d" by (simp add: c_def dir_names_def drafts_clear_error_def)
  obtain sd fs where sd: "shyake_selfdec_new E c = (Some sd, s')"
    and fs: "draft_entries E sd (self_name user) d s' (filter (\<lambda>n. numeric_draft_id n \<ge> 0) (dir_names c d)) = Ok fs"
    and es: "es = sort_key draft_key fs"
    using assms(1) False
    by (auto simp: cli_list_drafts_def Let_def c_def d_def split: if_splits option.splits prod.splits mem.splits)
  have c: "s' = c" using sd load_sk_ok_frame by (auto simp: shyake_selfdec_new_def split: prod.splits option.splits)
  have "sorted (map draft_key es)" unfolding es by simp
  then have "sorted_wrt (\<lambda>a b. draft_entry_cmp a b \<le> 0) es"
    unfolding sorted_map by (rule sorted_wrt_mono_rel [rotated]) (simp add: draft_entry_cmp_def)
  moreover have "files s' = files s" by (simp add: c c_def drafts_clear_error_def)
  moreover have "\<exists>n \<in> set (dir_names s d). 0 \<le> numeric_draft_id n \<and>
      se_mail_id e = snprintf 32 (show_int (numeric_draft_id n)) \<and>
      (\<forall>m t. n = se_mail_id e @ ''.json'' \<longrightarrow>
         cli_read_draft E (Some cfg) user (Some (se_mail_id e)) s = (Some m, t) \<longrightarrow> entry_shows e m)"
    if e: "e \<in> set es" for e
  proof -
    have "e \<in> set fs" using e by (simp add: es)
    from draft_entries_in [OF fs this] obtain n raw j k where n: "n \<in> set (dir_names s d)" "0 \<le> numeric_draft_id n"
      and r: "read_text_file c (snprintf 768 (d @ ''/'' @ n)) = Some raw" "cjson_parse E raw = Some j"
        "member_string j ''enc_key'' = Some k" "draft_entry E sd (self_name user) (numeric_draft_id n) j k = Ok e"
      by (auto simp: c dn)
    have i: "se_mail_id e = snprintf 32 (show_int (numeric_draft_id n))" by (rule draft_entry_id [OF r(4)])
    have "entry_shows e m"
      if h: "n = se_mail_id e @ ''.json''" and m: "cli_read_draft E (Some cfg) user (Some (se_mail_id e)) s = (Some m, t)" for m t
    proof -
      have "length (se_mail_id e) < 32" unfolding i by (simp add: length_snprintf)
      then have "snprintf 768 (d @ ''/'' @ n) = draft_path cfg (se_mail_id e)"
        using assms(2) by (simp add: d_def drafts_dir_def draft_path_def h)
      with r(1) have "read_text_file c (draft_path cfg (se_mail_id e)) = Some raw" by simp
      from draft_entry_shows [OF r(4,3) sd this r(2) refl] m show ?thesis
        by (simp add: cli_read_draft_def Let_def c_def)
    qed
    with n i show ?thesis by blast
  qed
  ultimately show ?thesis by (simp add: d_def)
qed

text \<open>Two drafts whose names are out of order in the directory.\<close>

definition list_world :: cli where
  "list_world = sys.extend (sys0\<lparr>dirs := [''/c/drafts''],
     files := [(''/c/kem_sk.bin'', [5, 8]), (''/c/drafts/10.json'', [49]), (''/c/drafts/9.json'', [49])]\<rparr>) (cli.fields [])"

definition list_provider :: ext where
  "list_provider = toy_reply (JObj [(''enc_key'', JStr []), (''enc_body'', JStr []), (''modified'', JNum 7)])"

theorem list_drafts_sorted_witness:
  "\<exists>es s'. cli_list_drafts list_provider (Some ''/c'') None list_world = (Some es, s') \<and>
     map se_mail_id es = [''9'', ''10''] \<and> files s' = files list_world"
proof -
  have sel: "files list_world = [(''/c/kem_sk.bin'', [5, 8]), (''/c/drafts/10.json'', [49]), (''/c/drafts/9.json'', [49])]"
    "config_dir list_world = ''/c''" "dirs list_world = [''/c/drafts'']"
    by (simp_all add: list_world_def sys.defs cli.defs)
  let ?c = "drafts_clear_error list_world"
  have cl: "files ?c = files list_world" "dirs ?c = dirs list_world" "config_dir ?c = config_dir list_world"
    by (simp_all add: drafts_clear_error_def)
  have dd: "drafts_dir ''/c'' = ''/c/drafts''" by (simp add: drafts_dir_def)
  have nm: "dir_names ?c ''/c/drafts'' = [''10.json'', ''9.json'']" by (simp add: dir_names_def cl sel)
  have nu: "numeric_draft_id ''10.json'' = 10" "numeric_draft_id ''9.json'' = 9"
    by (simp_all add: numeric_draft_id_def json_name_def is_digit_def atol_def read_nat_def digit_val_def is_space_def
        char_consts LONG_MAX_def)
  have sh: "show_int 10 = ''10''" "show_int 9 = ''9''" by (simp_all add: show_int_def show_nat.simps)
  obtain sd where sd: "shyake_selfdec_new list_provider ?c = (Some sd, ?c)"
    by (simp add: shyake_selfdec_new_def load_sk_decrypted_def load_file_def fs_get_def key_path_def cl sel)
  have dk: "shyake_selfdec_key list_provider (Some sd) (Some []) = (SHYAKE_ERR_CRYPTO, None)"
    by (simp add: shyake_selfdec_key_def kem_decapsulate_key_def base64_decode_def list_provider_def toy_reply_def toy_def
        b64_dec_block_def b64_trim_def strip_tail_def b64_padding_def)
  define j where "j = JObj [(''enc_key'', JStr []), (''enc_body'', JStr []), (''modified'', JNum 7)]"
  have j: "cjson_parse list_provider t = Some j" "member_string j ''enc_key'' = Some []" for t
    by (simp_all add: list_provider_def j_def toy_reply_laws member_string_def)
  have rd: "read_text_file ?c ''/c/drafts/10.json'' \<noteq> None" "read_text_file ?c ''/c/drafts/9.json'' \<noteq> None"
    by (simp_all add: read_text_file_def fs_get_def cl sel)
  have en: "\<exists>e. draft_entry list_provider sd self i j [] = Ok e \<and> se_mail_id e = snprintf 32 (show_int i)" for self i
    by (simp add: draft_entry_def dk)
  obtain a b where ab: "draft_entry list_provider sd ''(me)'' 10 j [] = Ok a" "se_mail_id a = ''10''"
    "draft_entry list_provider sd ''(me)'' 9 j [] = Ok b" "se_mail_id b = ''9''"
    using en [of "''(me)''" 10] en [of "''(me)''" 9] by (auto simp: sh)
  have ke: "draft_key a = 10" "draft_key b = 9"
    by (simp_all add: draft_key_def ab atol_def read_nat_def digit_val_def is_digit_def is_space_def char_consts LONG_MAX_def)
  have "draft_entries list_provider sd ''(me)'' ''/c/drafts'' ?c [''10.json'', ''9.json''] = Ok [a, b]"
    using rd by (auto simp: j nu ab)
  then obtain es s' where r: "cli_list_drafts list_provider (Some ''/c'') None list_world = (Some es, s')"
      "map se_mail_id es = [''9'', ''10'']"
    by (simp add: cli_list_drafts_def Let_def dd cl sel nm nu sd self_name_def ab ke)
  from list_drafts_sorted [OF r(1)] r show ?thesis by auto
qed

lemma atol_le: "atol x \<le> LONG_MAX"
proof -
  have "LONG_MIN \<le> LONG_MAX" "0 \<le> LONG_MAX" by (simp_all add: LONG_MIN_def LONG_MAX_def)
  then show ?thesis by (auto simp: atol_def split: list.splits)
qed

lemma max_draft_id_le: "max_draft_id cfg w \<le> LONG_MAX"
proof -
  have le: "numeric_draft_id n \<le> LONG_MAX" for n
    using atol_le [of n] by (simp add: numeric_draft_id_def LONG_MAX_def)
  have "m \<le> LONG_MAX \<Longrightarrow> foldl (\<lambda>m n. if numeric_draft_id n > m then numeric_draft_id n else m) m ns \<le> LONG_MAX" for m ns
    by (induction ns arbitrary: m) (simp_all add: le)
  then show ?thesis by (simp add: max_draft_id_def LONG_MAX_def)
qed

text \<open>C40. A file in the drafts directory whose name is \<open>LONG_MAX\<close> (or any longer number, which \<open>atol\<close> cuts
  to it) stops every new draft: the next id is computed by adding 1 to a \<open>long\<close> that cannot hold it,
  which is undefined, and no such save reports success in the model.\<close>

theorem draft_id_overflow:
  fixes s s' :: "'a cli_scheme"
  assumes "drafts_dir cfg \<in> set (dirs s)" and "n \<in> set (dir_names s (drafts_dir cfg))"
    and "numeric_draft_id n = LONG_MAX"
    and "cli_save_draft E (Some cfg) recipient subject reply body None s = (e, out, s')"
  shows "open_draft_file cfg None s = Ub \<and> e \<noteq> SHYAKE_OK"
proof -
  have ub: "open_draft_file cfg None w = Ub" if "dirs w = ds" "drafts_dir cfg \<in> set ds" "files w = files s"
    for ds and w :: "'a cli_scheme"
  proof -
    have "n \<in> set (dir_names w (drafts_dir cfg))" using assms(2) that(3) by (simp add: dir_names_def)
    then have "max_draft_id cfg w = LONG_MAX"
      using max_draft_id_bounds(2) [of cfg w n] max_draft_id_le [of cfg w] assms(3) that by simp
    then show ?thesis using try_ids.simps(2) [of cfg w 99 "LONG_MAX + 1"] by (simp add: open_draft_file_def)
  qed
  from assms(4) have "e \<noteq> SHYAKE_OK"
  proof (cases rule: save_draft_cases)
    case (saved cfg' b created symk enc d i t u v)
    then have "open_draft_file cfg None v = Ub"
      using quiet_keeps(1,11) [OF saved(6)] assms(1) by (intro ub [where ds = "dirs v"]) auto
    with saved show ?thesis by simp
  qed simp
  with ub [of s "dirs s"] assms(1) show ?thesis by simp
qed

theorem draft_id_overflow_witness:
  "open_draft_file ''/c'' None (list_world\<lparr>files := [(''/c/drafts/9223372036854775807.json'', [])]\<rparr>) = Ub"
proof -
  let ?s = "list_world\<lparr>files := [(''/c/drafts/9223372036854775807.json'', [])]\<rparr>"
  have dd: "drafts_dir ''/c'' = ''/c/drafts''" by (simp add: drafts_dir_def)
  have "numeric_draft_id ''9223372036854775807.json'' = LONG_MAX"
    by (simp add: numeric_draft_id_def json_name_def is_digit_def atol_def read_nat_def digit_val_def is_space_def
        char_consts LONG_MAX_def)
  moreover have "drafts_dir ''/c'' \<in> set (dirs ?s)" by (simp add: dd list_world_def sys.defs cli.defs)
  moreover have "''9223372036854775807.json'' \<in> set (dir_names ?s (drafts_dir ''/c''))" by (simp add: dd dir_names_def)
  moreover obtain e out s' where "cli_save_draft toy (Some ''/c'') None None None None None ?s = (e, out, s')"
    by (metis surj_pair)
  ultimately show ?thesis using draft_id_overflow [of "''/c''" ?s "''9223372036854775807.json''"] by blast
qed

end
