(* ===== verification/Host.thy ===== *)
theory Host
  imports Drafts
begin

text \<open>
  What the command line client uses of the machine beyond files and network: environment variables,
  the terminal and \<open>/dev/tty\<close>, standard input, the shell, and the platform it was built for. A shell
  command is a parameter: a function of the files that gives the new files and the exit status; the
  commands that were run are logged.
\<close>

datatype platform = Darwin_arm64 | Darwin_x86_64 | Linux_aarch64 | Linux_x86_64

record host = cli +
  platform :: platform
  env_vars :: "(string \<times> string) list"
  home_dir :: string                     \<comment> \<open>\<open>getpwuid\<close>\<close>
  tty_lines :: "string option list option"  \<comment> \<open>None: no \<open>/dev/tty\<close>; else what each \<open>fgets\<close> of it gives\<close>
  tty_out :: "string list"
  stdin_tty :: bool
  stdin_data :: "u8 list"
  stdout_tty :: bool
  winsize :: "nat option"
  pager_ok :: bool
  paging :: bool                         \<comment> \<open>\<open>saved_stdout >= 0\<close>\<close>
  shell :: "string \<Rightarrow> (string \<times> u8 list) list \<Rightarrow> (string \<times> u8 list) list \<times> int"
  shell_log :: "string list"
  self_exe :: string
  which_shyake :: string
  temp_name :: "string \<Rightarrow> string option" \<comment> \<open>what \<open>mkstemp\<close> makes of a template\<close>
  mkdir_strerror :: string               \<comment> \<open>\<open>strerror(errno)\<close> of a refused \<open>mkdir\<close>\<close>
  client_version :: string               \<comment> \<open>\<open>SHYAKE_VERSION\<close>\<close>
  getopt_long :: "string \<Rightarrow> (string \<times> bool \<times> char) list \<Rightarrow> string list \<Rightarrow> (char \<times> string option) list \<times> string list"

definition getenv :: "string \<Rightarrow> 'a host_scheme \<Rightarrow> string option" where
  "getenv k s = map_of (env_vars s) k"

text \<open>\<open>system\<close>: the exit status, with the files as the command left them.\<close>

definition run_shell :: "string \<Rightarrow> 'a host_scheme \<Rightarrow> int \<times> 'a host_scheme" where
  "run_shell cmd s =
     (case shell s cmd (files s) of (fs, st) \<Rightarrow> (st, s\<lparr>files := fs, shell_log := shell_log s @ [cmd]\<rparr>))"

lemma run_shell_log: "run_shell cmd s = (st, s') \<Longrightarrow> shell_log s' = shell_log s @ [cmd]"
  by (auto simp: run_shell_def split: prod.splits)

lemma shell_log_frame [simp]:
  fixes s :: "'a host_scheme"
  shows "shell_log (print_out m s) = shell_log s" "shell_log (print_err m s) = shell_log s"
    "shell_log (fs_put p d s) = shell_log s" "shell_log (fs_del p s) = shell_log s" "shell_log (mark_ub s) = shell_log s"
  by (simp_all add: print_out_def print_err_def fs_put_def fs_del_def mark_ub_def)

lemma fs_get_print [simp]: "fs_get (print_out m w) p = fs_get w p" "fs_get (print_err m w) p = fs_get w p"
  by (simp_all add: print_out_def print_err_def fs_get_def)

section \<open>Comparison functions\<close>

text \<open>
  What \<open>qsort\<close> and every caller of a comparison function relies on: the sign tells the order, and
  it is a total preorder.
\<close>

locale comparison =
  fixes cmp :: "'a \<Rightarrow> 'a \<Rightarrow> int"
    and good :: "'a \<Rightarrow> bool"
    and key :: "'a \<Rightarrow> 'k :: linorder"
  assumes cmp_key: "good a \<Longrightarrow> good b \<Longrightarrow> sgn (cmp a b) = (if key a < key b then -1 else if key a = key b then 0 else 1)"
begin

lemma cmp_gt: "good a \<Longrightarrow> good b \<Longrightarrow> cmp a b > 0 \<longleftrightarrow> key b < key a"
  using cmp_key [of a b] by (auto simp: sgn_if split: if_splits)

lemma cmp_zero: "good a \<Longrightarrow> good b \<Longrightarrow> cmp a b = 0 \<longleftrightarrow> key a = key b"
  using cmp_key [of a b] by (auto simp: sgn_if split: if_splits)

lemma cmp_le: "good a \<Longrightarrow> good b \<Longrightarrow> cmp a b \<le> 0 \<longleftrightarrow> key a \<le> key b"
  using cmp_gt [of a b] by auto

lemma cmp_swap: "good a \<Longrightarrow> good b \<Longrightarrow> sgn (cmp b a) = - sgn (cmp a b)"
  using cmp_key [of a b] cmp_key [of b a] by auto

lemma cmp_trans: "good a \<Longrightarrow> good b \<Longrightarrow> good c \<Longrightarrow> cmp a b \<le> 0 \<Longrightarrow> cmp b c \<le> 0 \<Longrightarrow> cmp a c \<le> 0"
  using cmp_le by (meson order_trans)

end

interpretation draft_order: comparison draft_entry_cmp "\<lambda>_. True" draft_key
  by unfold_locales (auto simp: draft_entry_cmp_def)

end
