(* ===== verification/Display.thy ===== *)
theory Display
  imports Host
begin

text \<open>
  \<open>cli/display.c\<close>: UTF-8 and display widths, word wrap, timestamps, parties and sizes, fingerprints
  with their random art, and the rendering of lists and mails as table, JSON, CSV or text. The
  terminal width and whether output is a terminal come from \<open>host\<close>; a pager shows what it is given.
\<close>

unbundle bit_operations_syntax

section \<open>UTF-8\<close>

definition byte_int :: "char \<Rightarrow> int" where
  "byte_int c = of_char c"

text \<open>The continuation bytes of a sequence: None when one of them is not.\<close>

fun utf8_rest :: "int \<Rightarrow> nat \<Rightarrow> string \<Rightarrow> (int \<times> string) option" where
  "utf8_rest cp 0 s = Some (cp, s)"
| "utf8_rest cp (Suc n) [] = None"
| "utf8_rest cp (Suc n) (c # s) =
     (if byte_int c AND 0xC0 \<noteq> 0x80 then None
      else utf8_rest (push_bit 6 cp OR (byte_int c AND 0x3F)) n s)"

text \<open>The next code point and what follows; an invalid byte is passed over as code point 0.\<close>

fun utf8_next :: "string \<Rightarrow> int \<times> string" where
  "utf8_next [] = (-1, [])"
| "utf8_next (c # s) =
     (let b = byte_int c
      in if b < 0x80 then (b, s)
         else if b < 0xC2 then (0, s)
         else
           (case (if b < 0xE0 then utf8_rest (b AND 0x1F) 1 s
                  else if b < 0xF0 then utf8_rest (b AND 0x0F) 2 s
                  else if b < 0xF8 then utf8_rest (b AND 0x07) 3 s
                  else None) of
              None \<Rightarrow> (0, s)
            | Some r \<Rightarrow> r))"

definition wide_ranges :: "(int \<times> int) list" where
  "wide_ranges =
     [(0x1100, 0x115F), (0x2329, 0x232A), (0x2E80, 0x303E), (0x3040, 0x33FF), (0x3400, 0x4DBF), (0x4E00, 0xA4CF),
      (0xA960, 0xA97F), (0xAC00, 0xD7FF), (0xF900, 0xFAFF), (0xFE10, 0xFE1F), (0xFE30, 0xFE6F), (0xFF00, 0xFF60),
      (0xFFE0, 0xFFE6), (0x1B000, 0x1B0FF), (0x1F004, 0x1F0CF), (0x1F300, 0x1F9FF), (0x20000, 0x2FFFD),
      (0x30000, 0x3FFFD)]"

definition cp_width :: "int \<Rightarrow> int" where
  "cp_width cp = (if cp \<le> 0 then 0 else if list_ex (\<lambda>(a, b). a \<le> cp \<and> cp \<le> b) wide_ranges then 2 else 1)"

lemma utf8_rest_Some: "utf8_rest cp n s = Some (x, r) \<Longrightarrow> \<exists>p. s = p @ r \<and> length p = n"
proof (induction cp n s rule: utf8_rest.induct)
  case (3 cp n c s)
  then obtain p where "s = p @ r" "length p = n" by (auto split: if_splits)
  then show ?case by (intro exI [of _ "c # p"]) simp
qed simp_all

lemma utf8_next_split:
  assumes "s \<noteq> []"
  obtains p where "s = p @ snd (utf8_next s)" and "p \<noteq> []"
proof -
  obtain c t where s: "s = c # t" using assms by (cases s) auto
  have "\<exists>p. t = p @ snd (utf8_next s)"
    by (auto simp: s Let_def split: option.splits prod.splits dest: utf8_rest_Some)
  then obtain p where "t = p @ snd (utf8_next s)" by blast
  with s that [of "c # p"] show thesis by simp
qed

lemma utf8_next_shorter: "s \<noteq> [] \<Longrightarrow> length (snd (utf8_next s)) < length s"
  by (rule utf8_next_split [of s]) (simp, metis length_append length_greater_0_conv less_add_same_cancel2)

text \<open>\<open>utf8_next\<close> gives a code point above 0 only; the others have no width.\<close>

definition next_width :: "string \<Rightarrow> int" where
  "next_width s = (let cp = fst (utf8_next s) in if cp > 0 then cp_width cp else 0)"

lemma next_width_bounds: "0 \<le> next_width s" "next_width s \<le> 2"
  by (simp_all add: next_width_def cp_width_def Let_def)

function utf8_display_width :: "string \<Rightarrow> int" where
  "utf8_display_width s =
     (if s = [] then 0 else next_width s + utf8_display_width (snd (utf8_next s)))"
  by pat_completeness auto
termination by (relation "measure length") (auto dest: utf8_next_shorter)

declare utf8_display_width.simps [simp del]

text \<open>How many bytes fit into \<open>limit\<close> columns, and the columns they take.\<close>

function fit_head :: "int \<Rightarrow> int \<Rightarrow> string \<Rightarrow> nat \<times> int" where
  "fit_head limit accum s =
     (if s = [] then (0, accum)
      else if accum + next_width s > limit then (0, accum)
      else (case fit_head limit (accum + next_width s) (snd (utf8_next s)) of
              (n, a) \<Rightarrow> (length s - length (snd (utf8_next s)) + n, a)))"
  by pat_completeness auto
termination by (relation "measure (\<lambda>(l, a, s). length s)") (auto dest: utf8_next_shorter)

declare fit_head.simps [simp del]

definition utf8_truncate :: "string \<Rightarrow> int \<Rightarrow> int \<Rightarrow> string \<times> int" where
  "utf8_truncate src buf_sz max_w =
     (if max_w < 3 then ([], 0)
      else
        (let total_w = utf8_display_width src
         in if total_w \<le> max_w then
              (take (nat (if int (length src) \<ge> buf_sz then buf_sz - 1 else int (length src))) src, total_w)
            else
              (case fit_head (max_w - 3) 0 src of
                 (n, accum) \<Rightarrow>
                   (let head = (if int n + 3 \<ge> buf_sz then buf_sz - 3 - 1 else int n)
                    in (take (nat head) src @ ''...'', accum + 3)))))"

section \<open>Terminal and pager\<close>

text \<open>The width is asked of stdout, which is a pipe while the pager runs: then it is 80.\<close>

definition cli_get_terminal_width :: "'a host_scheme \<Rightarrow> int" where
  "cli_get_terminal_width s =
     (if paging s then 80
      else case winsize s of Some c \<Rightarrow> if c > 0 then int c else 80 | None \<Rightarrow> 80)"

definition cli_setup_pager :: "bool \<Rightarrow> 'a host_scheme \<Rightarrow> 'a host_scheme" where
  "cli_setup_pager disable s = (if disable \<or> \<not> stdout_tty s \<or> \<not> pager_ok s then s else s\<lparr>paging := True\<rparr>)"

definition cli_wait_pager :: "'a host_scheme \<Rightarrow> 'a host_scheme" where
  "cli_wait_pager s = s\<lparr>paging := False\<rparr>"

section \<open>Word wrap\<close>

text \<open>
  One line: \<open>n\<close> is the offset of \<open>safe_cut\<close>, \<open>sp\<close> that of \<open>last_space\<close>; the flag says that the text
  ended.
\<close>

function scan_line :: "int \<Rightarrow> int \<Rightarrow> nat option \<Rightarrow> nat \<Rightarrow> string \<Rightarrow> nat \<times> nat option \<times> bool" where
  "scan_line avail accum sp n s =
     (if s = [] then (n, sp, True)
      else
        (let sp' = (if fst (utf8_next s) = 32 then Some n else sp)
         in if accum + next_width s > avail then (n, sp', False)
            else scan_line avail (accum + next_width s) sp' (n + (length s - length (snd (utf8_next s))))
                   (snd (utf8_next s))))"
  by pat_completeness auto
termination by (relation "measure (\<lambda>(l, a, p, n, s). length s)") (auto dest: utf8_next_shorter)

declare scan_line.simps [simp del]

definition wrap_avail :: "int \<Rightarrow> int \<Rightarrow> int" where
  "wrap_avail indent width = (if width - indent < 20 then 20 else width - indent)"

lemma wrap_avail_ge: "20 \<le> wrap_avail indent width"
  by (simp add: wrap_avail_def)

lemma scan_line_mono: "scan_line avail accum sp n s = (m, sp', e) \<Longrightarrow> n \<le> m"
proof (induction avail accum sp n s rule: scan_line.induct)
  case (1 avail accum sp n s)
  then show ?case by (subst (asm) (2) scan_line.simps) (fastforce simp: Let_def split: if_splits)
qed

lemma scan_line_progress:
  assumes "s \<noteq> []" and "2 \<le> avail" and "scan_line avail 0 None 0 s = (m, sp, e)"
  shows "0 < m"
proof -
  have "\<not> 0 + next_width s > avail" using next_width_bounds(2) [of s] assms(2) by simp
  with assms(1,3) have "\<exists>a q. scan_line avail a q (0 + (length s - length (snd (utf8_next s)))) (snd (utf8_next s)) = (m, sp, e)"
    by (subst (asm) scan_line.simps) (auto simp: Let_def split: if_splits)
  then have "length s - length (snd (utf8_next s)) \<le> m" using scan_line_mono by fastforce
  with utf8_next_shorter [OF assms(1)] show ?thesis by simp
qed

text \<open>The lines that are printed. Every round takes at least one byte, so the loop ends.\<close>

function wrap_lines :: "int \<Rightarrow> int \<Rightarrow> string \<Rightarrow> string list" where
  "wrap_lines indent width s =
     (if s = [] then []
      else
        (case scan_line (wrap_avail indent width) 0 None 0 s of
           (n, sp, True) \<Rightarrow> [take n s]
         | (n, sp, False) \<Rightarrow>
             (if sp \<noteq> None \<and> 0 < the sp
              then take (the sp) s # wrap_lines indent width (dropWhile (\<lambda>c. c = CHR '' '') (drop (the sp) s))
              else take n s # wrap_lines indent width (drop n s))))"
  by pat_completeness auto
termination
proof (relation "measure (\<lambda>(i, w, s). length s)", goal_cases)
  case (2 indent width s n y sp b)
  then have "length (drop (the sp) s) < length s" by simp
  then show ?case using length_dropWhile_le [of "\<lambda>c. c = CHR '' ''" "drop (the sp) s"] by simp
next
  case (3 indent width s n y sp b)
  then have "0 < n"
    using scan_line_progress [of s "wrap_avail indent width" n sp b] wrap_avail_ge [of indent width] by simp
  with 3 show ?case by simp
qed simp

declare wrap_lines.simps [simp del]

definition word_wrap :: "int \<Rightarrow> int \<Rightarrow> string \<Rightarrow> string" where
  "word_wrap indent width t =
     (case wrap_lines indent width t of
        [] \<Rightarrow> [NL]
      | l # ls \<Rightarrow> l @ concat (map (\<lambda>x. NL # replicate (nat indent) (CHR '' '') @ x) ls) @ [NL])"

definition cli_print_word_wrap :: "string \<Rightarrow> int \<Rightarrow> int \<Rightarrow> 'a world_scheme \<Rightarrow> 'a world_scheme" where
  "cli_print_word_wrap t indent width w = print_out (word_wrap indent width t) w"

subsection \<open>What the wrapped text is\<close>

text \<open>A tail that cannot continue a code point.\<close>

definition fresh_tail :: "string \<Rightarrow> bool" where
  "fresh_tail t \<longleftrightarrow> t = [] \<or> byte_int (hd t) AND 0xC0 \<noteq> 0x80"

lemma utf8_rest_take:
  "utf8_rest cp n s = Some (x, r) \<Longrightarrow> n \<le> m \<Longrightarrow> utf8_rest cp n (take m s @ t) = Some (x, take (m - n) r @ t)"
proof (induction cp n s arbitrary: m rule: utf8_rest.induct)
  case (3 cp n c s)
  then show ?case by (cases m) (auto split: if_splits)
qed simp_all

lemma utf8_rest_fresh: "fresh_tail t \<Longrightarrow> utf8_rest cp (Suc n) t = None"
  by (cases t) (simp_all add: fresh_tail_def)

lemma utf8_rest_take_None:
  "fresh_tail t \<Longrightarrow> utf8_rest cp n s = None \<Longrightarrow> utf8_rest cp n (take m s @ t) = None"
proof (induction cp n s arbitrary: m rule: utf8_rest.induct)
  case (3 cp n c s)
  then show ?case by (cases m) (auto simp: utf8_rest_fresh split: if_splits)
qed (simp_all add: utf8_rest_fresh)

text \<open>A cut behind a whole code point does not change how it is read.\<close>

lemma utf8_next_take:
  assumes "s \<noteq> []" and "length s - length (snd (utf8_next s)) \<le> m" and t: "fresh_tail t"
  shows "utf8_next (take m s @ t)
    = (fst (utf8_next s), take (m - (length s - length (snd (utf8_next s)))) (snd (utf8_next s)) @ t)"
proof -
  obtain c u where s: "s = c # u" using assms(1) by (cases s) auto
  have "0 < m" using assms utf8_next_shorter [of s] by simp
  then obtain k where m: "m = Suc k" by (cases m) auto
  have rest: "(case utf8_rest a n (take k u @ t) of None \<Rightarrow> (0, take k u @ t) | Some r \<Rightarrow> r)
      = (fst (case utf8_rest a n u of None \<Rightarrow> (0, u) | Some r \<Rightarrow> r),
         take (m - (length s - length (snd (case utf8_rest a n u of None \<Rightarrow> (0, u) | Some r \<Rightarrow> r))))
           (snd (case utf8_rest a n u of None \<Rightarrow> (0, u) | Some r \<Rightarrow> r)) @ t)"
    if le: "length s - length (snd (case utf8_rest a n u of None \<Rightarrow> (0, u) | Some r \<Rightarrow> r)) \<le> m" for a n
  proof (cases "utf8_rest a n u")
    case None
    then show ?thesis by (simp add: utf8_rest_take_None [OF t] s m)
  next
    case (Some z)
    then obtain x r where z: "utf8_rest a n u = Some (x, r)" by (cases z) auto
    then obtain p where p: "u = p @ r" "length p = n" by (auto dest: utf8_rest_Some)
    with le z have "n \<le> k" by (simp add: s m)
    then have "utf8_rest a n (take k u @ t) = Some (x, take (k - n) r @ t)" by (rule utf8_rest_take [OF z])
    with z p show ?thesis by (simp add: s m)
  qed
  consider "byte_int c < 0x80" | "0x80 \<le> byte_int c" "byte_int c < 0xC2" | "0xC2 \<le> byte_int c" "byte_int c < 0xE0"
    | "0xE0 \<le> byte_int c" "byte_int c < 0xF0" | "0xF0 \<le> byte_int c" "byte_int c < 0xF8" | "0xF8 \<le> byte_int c"
    by linarith
  then show ?thesis
    using assms(2) rest by cases (simp_all add: s m Let_def)
qed

lemma utf8_next_shrinks: "length (snd (utf8_next s)) \<le> length s"
  by (cases "s = []") (auto dest: utf8_next_shorter)

lemma display_width_step: "s \<noteq> [] \<Longrightarrow> utf8_display_width s = next_width s + utf8_display_width (snd (utf8_next s))"
  by (subst utf8_display_width.simps) simp

lemma display_width_Nil [simp]: "utf8_display_width [] = 0"
  by (subst utf8_display_width.simps) simp

text \<open>\<open>cut_at m a s\<close>: reading \<open>s\<close> code point by code point reaches offset \<open>m\<close> with width \<open>a\<close>.\<close>

inductive cut_at :: "nat \<Rightarrow> int \<Rightarrow> string \<Rightarrow> bool" where
  here: "cut_at 0 0 s"
| step: "s \<noteq> [] \<Longrightarrow> cut_at m a (snd (utf8_next s)) \<Longrightarrow>
    cut_at (length s - length (snd (utf8_next s)) + m) (next_width s + a) s"

inductive_cases cut_at_NilE: "cut_at m a []"

lemma cut_at_width_tail:
  "cut_at m a s \<Longrightarrow> fresh_tail t \<Longrightarrow> utf8_display_width (take m s @ t) = a + utf8_display_width t"
proof (induction rule: cut_at.induct)
  case (step s m a)
  let ?d = "length s - length (snd (utf8_next s))"
  have "0 < ?d" using utf8_next_shorter [OF step.hyps(1)] by simp
  with step.hyps(1) have ne: "take (?d + m) s @ t \<noteq> []" by simp
  have "utf8_next (take (?d + m) s @ t) = (fst (utf8_next s), take m (snd (utf8_next s)) @ t)"
    using utf8_next_take [OF step.hyps(1) _ step.prems, of "?d + m"] by simp
  with ne step.IH [OF step.prems] show ?case by (simp add: display_width_step next_width_def)
qed simp

lemma cut_at_width: "cut_at m a s \<Longrightarrow> utf8_display_width (take m s) = a"
  using cut_at_width_tail [of m a s "[]"] by (simp add: fresh_tail_def)

lemma cut_at_snoc:
  "cut_at m a s \<Longrightarrow> drop m s \<noteq> [] \<Longrightarrow>
     cut_at (m + (length (drop m s) - length (snd (utf8_next (drop m s))))) (a + next_width (drop m s)) s"
proof (induction rule: cut_at.induct)
  case (here s)
  then show ?case using cut_at.step [OF _ cut_at.here, of s] by simp
next
  case (step s m a)
  let ?t = "snd (utf8_next s)"
  obtain p where p: "s = p @ ?t" using utf8_next_split [OF step.hyps(1)] by blast
  then have d: "drop (length s - length ?t + m) s = drop m ?t"
    by (metis add.commute append_eq_conv_conj diff_add_inverse2 drop_drop length_append)
  with step.prems have "drop m ?t \<noteq> []" by simp
  from cut_at.step [OF step.hyps(1) step.IH [OF this]] show ?case
    unfolding d by (simp add: add.assoc)
qed

lemma scan_line_cuts:
  assumes "scan_line avail accum sp n t = (m, sp', e)" and "t = drop n s" and "n \<le> length s"
    and "cut_at n accum s" and "accum \<le> avail"
    and "\<And>q. sp = Some q \<Longrightarrow> q \<le> length s \<and> (\<exists>a\<le>avail. cut_at q a s)"
  shows "m \<le> length s \<and> (\<exists>a\<le>avail. cut_at m a s) \<and> (e \<longrightarrow> m = length s)
     \<and> (\<forall>q. sp' = Some q \<longrightarrow> q \<le> length s \<and> (\<exists>a\<le>avail. cut_at q a s))"
  using assms
proof (induction avail accum sp n t rule: scan_line.induct)
  case (1 avail accum sp n t)
  note pr = "1.prems"(1) [unfolded "1.prems"(2)] "1.prems"(3-6)
  show ?case
  proof (cases "drop n s = []")
    case True
    then have "scan_line avail accum sp n (drop n s) = (n, sp, True)" by (simp add: scan_line.simps)
    with True pr show ?thesis by auto
  next
    case ne: False
    let ?r = "snd (utf8_next (drop n s))"
    let ?sp = "if fst (utf8_next (drop n s)) = 32 then Some n else sp"
    have sp: "q \<le> length s \<and> (\<exists>a\<le>avail. cut_at q a s)" if "?sp = Some q" for q
      using that pr by (auto split: if_splits)
    show ?thesis
    proof (cases "accum + next_width (drop n s) > avail")
      case True
      then have "scan_line avail accum sp n (drop n s) = (n, ?sp, False)"
        using ne by (simp add: scan_line.simps Let_def)
      with pr sp show ?thesis by auto
    next
      case False
      let ?d = "length (drop n s) - length ?r"
      obtain p where p: "drop n s = p @ ?r" using utf8_next_split [OF ne] by blast
      have len: "length p = ?d" using arg_cong [OF p, of length] by simp
      have r: "?r = drop (n + ?d) s"
        by (metis p len append_eq_conv_conj add.commute drop_drop)
      have le: "n + ?d \<le> length s" using pr(2) by simp
      have eq: "scan_line avail (accum + next_width (drop n s)) ?sp (n + ?d) (drop (n + ?d) s) = (m, sp', e)"
        using pr(1) ne False r by (simp add: scan_line.simps [of avail accum sp n "drop n s"] Let_def)
      show ?thesis
        by (rule "1.IH" [unfolded "1.prems"(2), OF ne refl False eq [folded r] r le])
          (use cut_at_snoc [OF pr(3) ne] False sp in auto)
    qed
  qed
qed

lemma cut_at_pos: "cut_at m a s \<Longrightarrow> 0 < m \<Longrightarrow> s \<noteq> []"
  by (induction rule: cut_at.induct) auto

lemma cut_fits:
  assumes "m \<le> length s" and "0 < m" and "\<exists>a\<le>avail. cut_at m a s"
  shows "take m s \<noteq> [] \<and> utf8_display_width (take m s) \<le> avail"
  using assms by (auto dest: cut_at_width)

text \<open>The spaces that a break drops are all that is lost.\<close>

definition spaced :: "string list \<Rightarrow> nat list \<Rightarrow> string" where
  "spaced ls ks = concat (map2 (\<lambda>l k. l @ replicate k (CHR '' '')) ls ks)"

lemma spaced_simps [simp]: "spaced [] [] = []" "spaced (l # ls) (k # ks) = l @ replicate k (CHR '' '') @ spaced ls ks"
  by (simp_all add: spaced_def)

lemma wrap_lines_Nil [simp]: "wrap_lines indent width [] = []"
  by (simp add: wrap_lines.simps)

lemma takeWhile_replicate: "takeWhile (\<lambda>c. c = x) s = replicate (length (takeWhile (\<lambda>c. c = x) s)) x"
  by (induction s) auto

lemma wrap_lines_ok:
  "list_all (\<lambda>l. l \<noteq> [] \<and> utf8_display_width l \<le> wrap_avail indent width) (wrap_lines indent width s)
   \<and> (\<exists>ks. length ks = length (wrap_lines indent width s) \<and> spaced (wrap_lines indent width s) ks = s)"
proof (induction indent width s rule: wrap_lines.induct)
  case (1 indent width s)
  let ?w = "wrap_avail indent width"
  show ?case
  proof (cases "s = []")
    case True
    then show ?thesis by (auto intro: exI [of _ "[]"])
  next
    case ne: False
    obtain n sp e where sc: "scan_line ?w 0 None 0 s = (n, sp, e)" by (metis prod_cases3)
    have cuts: "n \<le> length s \<and> (\<exists>a\<le>?w. cut_at n a s) \<and> (e \<longrightarrow> n = length s)
        \<and> (\<forall>q. sp = Some q \<longrightarrow> q \<le> length s \<and> (\<exists>a\<le>?w. cut_at q a s))"
      using scan_line_cuts [of ?w 0 None 0 s n sp e] sc cut_at.here [of s] wrap_avail_ge [of indent width] by simp
    have pos: "0 < n" using scan_line_progress [OF ne _ sc] wrap_avail_ge [of indent width] by simp
    note fits = cut_fits [of _ s ?w]
    consider "e" | "\<not> e" "\<not> (sp \<noteq> None \<and> 0 < the sp)" | q where "\<not> e" "sp = Some q" "0 < q" by (cases sp) auto
    then show ?thesis
    proof cases
      case 1
      with cuts ne sc fits [of n] pos show ?thesis
        by (auto simp: wrap_lines.simps [of indent width s] intro!: exI [of _ "[0]"])
    next
      case 2
      then have "e = False" by simp
      then have eq: "wrap_lines indent width s = take n s # wrap_lines indent width (drop n s)"
        using ne sc by (subst wrap_lines.simps) (simp only: sc prod.case bool.case if_False if_not_P [OF 2(2)])
      note IH = "1.IH"(2) [OF ne sc [symmetric] refl]
      from IH [OF _ 2(2)] 2(1)
      obtain ks where "length ks = length (wrap_lines indent width (drop n s))"
        "spaced (wrap_lines indent width (drop n s)) ks = drop n s"
        "list_all (\<lambda>l. l \<noteq> [] \<and> utf8_display_width l \<le> ?w) (wrap_lines indent width (drop n s))" by auto
      with cuts fits [of n] pos show ?thesis by (auto simp: eq intro!: exI [of _ "0 # ks"])
    next
      case 3
      let ?r = "dropWhile (\<lambda>c. c = CHR '' '') (drop q s)"
      let ?g = "takeWhile (\<lambda>c. c = CHR '' '') (drop q s)"
      have eq: "wrap_lines indent width s = take q s # wrap_lines indent width ?r"
        using 3 ne sc by (simp add: wrap_lines.simps [of indent width s])
      from "1.IH"(1) [OF ne sc [symmetric] refl] 3
      obtain ks where ks: "length ks = length (wrap_lines indent width ?r)" "spaced (wrap_lines indent width ?r) ks = ?r"
        "list_all (\<lambda>l. l \<noteq> [] \<and> utf8_display_width l \<le> ?w) (wrap_lines indent width ?r)" by auto
      have "take q s @ replicate (length ?g) (CHR '' '') @ ?r = s"
        using takeWhile_replicate [of "CHR '' ''" "drop q s"]
        by (metis append_take_drop_id takeWhile_dropWhile_id)
      with ks cuts 3 fits [of q] show ?thesis by (auto simp: eq intro!: exI [of _ "length ?g # ks"])
    qed
  qed
qed


subsection \<open>What is left of a truncated text\<close>

lemma fit_head_cut:
  "accum \<le> limit \<Longrightarrow> fit_head limit accum s = (n, a) \<Longrightarrow> cut_at n (a - accum) s \<and> a \<le> limit \<and> n \<le> length s"
proof (induction limit accum s arbitrary: n a rule: fit_head.induct)
  case (1 limit accum s)
  show ?case
  proof (cases "s = [] \<or> accum + next_width s > limit")
    case True
    then have "fit_head limit accum s = (0, accum)" by (subst fit_head.simps) auto
    with "1.prems" have "n = 0 \<and> a = accum" by simp
    with "1.prems"(1) show ?thesis by (simp add: cut_at.here)
  next
    case False
    let ?r = "snd (utf8_next s)"
    obtain n' a' where f: "fit_head limit (accum + next_width s) ?r = (n', a')" by fastforce
    with False "1.prems"(2) have n: "n = length s - length ?r + n'" and a: "a = a'"
      by (auto simp: fit_head.simps [of limit accum s])
    from False f have "cut_at n' (a' - (accum + next_width s)) ?r \<and> a' \<le> limit \<and> n' \<le> length ?r"
      by (intro "1.IH") auto
    moreover from this False have "cut_at n (next_width s + (a' - (accum + next_width s))) s"
      unfolding n by (intro cut_at.step) auto
    moreover from calculation have "n \<le> length s" using utf8_next_shrinks [of s] unfolding n by linarith
    ultimately show ?thesis by (simp add: n a)
  qed
qed

lemma dots: "fresh_tail ''...'' \<and> utf8_display_width ''...'' = 3"
  by (simp add: fresh_tail_def byte_int_def display_width_step next_width_def cp_width_def wide_ranges_def)

text \<open>C17. \<open>utf8_truncate\<close> never leaves its buffer, and when the buffer is large enough for the text
  its result has exactly the display width it returns, which is at most the width asked for: the cut
  falls behind a whole code point, so a table cell padded by the difference is aligned.
\<close>

theorem utf8_truncate_fits:
  assumes "4 \<le> buf_sz"
  shows "int (length (fst (utf8_truncate src buf_sz max_w))) < buf_sz
     \<and> (buf_sz \<le> int (length src) + 3 \<or>
        utf8_display_width (fst (utf8_truncate src buf_sz max_w)) = snd (utf8_truncate src buf_sz max_w)
        \<and> snd (utf8_truncate src buf_sz max_w) \<le> max 0 max_w)"
proof (cases "max_w < 3 \<or> utf8_display_width src \<le> max_w")
  case True
  with assms show ?thesis by (auto simp: utf8_truncate_def Let_def)
next
  case False
  obtain n a where f: "fit_head (max_w - 3) 0 src = (n, a)" by fastforce
  with False have "cut_at n a src" "a \<le> max_w - 3" "n \<le> length src"
    using fit_head_cut [of 0 "max_w - 3" src n a] by auto
  then show ?thesis
    using assms False f dots cut_at_width_tail [of n a src "''...''"] by (auto simp: utf8_truncate_def Let_def)
qed

theorem utf8_truncate_fits_witness:
  "int (length (fst (utf8_truncate ''hello'' 512 4))) < 512
     \<and> (512 \<le> int (length ''hello'') + 3 \<or>
        utf8_display_width (fst (utf8_truncate ''hello'' 512 4)) = snd (utf8_truncate ''hello'' 512 4)
        \<and> snd (utf8_truncate ''hello'' 512 4) \<le> max 0 4)"
  by (rule utf8_truncate_fits) simp

section \<open>Timestamps, parties, sizes\<close>

definition TZ_AUTO :: int where
  "TZ_AUTO = 0x7FFFFFFF"

definition in_long :: "int \<Rightarrow> bool" where
  "in_long i \<longleftrightarrow> LONG_MIN \<le> i \<and> i \<le> LONG_MAX"

text \<open>
  \<open>Ub\<close>: a \<open>time_t\<close> overflows, or \<open>strftime\<close> does not fit the buffer and leaves it undefined.
\<close>

definition cli_format_timestamp ::
    "ext \<Rightarrow> int \<Rightarrow> int \<Rightarrow> string option \<Rightarrow> string option \<Rightarrow> nat \<Rightarrow> 'a world_scheme \<Rightarrow> string mem" where
  "cli_format_timestamp E ts tz_hours fmt fmt_recent buf_len w =
     (let f = (case fmt of Some x \<Rightarrow> x | None \<Rightarrow> ''%Y-%m-%d %H:%M'');
          shifted = ts + tz_hours * 3600
      in if tz_hours \<noteq> TZ_AUTO \<and> \<not> in_long shifted then Ub
         else if \<not> (if tz_hours = TZ_AUTO then localtime_ok E ts else gmtime_ok E shifted) then Ok (snprintf buf_len ''?'')
         else if fmt_recent \<noteq> None \<and> \<not> in_long (clock w - ts) then Ub
         else
           (let g = (case fmt_recent of
                       Some r \<Rightarrow> if clock w - ts < 180 * 24 * 3600 then r else f
                     | None \<Rightarrow> f);
                out = (if tz_hours = TZ_AUTO then strftime_local E g ts else strftime_utc E g shifted)
            in if length out < buf_len then Ok out else Ub))"

definition cli_format_party :: "string \<Rightarrow> nat \<Rightarrow> string" where
  "cli_format_party party buf_len =
     (case split_at (CHR ''@'') party of
        (name, Some _) \<Rightarrow> snprintf buf_len (name @ ''@'')
      | (_, None) \<Rightarrow> snprintf buf_len party)"

definition cli_format_size :: "int \<Rightarrow> nat \<Rightarrow> string" where
  "cli_format_size n buf_len = snprintf buf_len (if n \<ge> 1024 then show_int (n div 1024) @ ''K'' else show_int n)"

section \<open>Fingerprints\<close>

definition upper_digit :: "nat \<Rightarrow> char" where
  "upper_digit n = ''0123456789ABCDEF'' ! n"

definition upper_byte :: "u8 \<Rightarrow> string" where
  "upper_byte b = [upper_digit (unat b div 16), upper_digit (unat b mod 16)]"

definition hex_separator :: "nat \<Rightarrow> string" where
  "hex_separator i =
     (if i = 7 then [NL] else if i = 15 then [NL] else if i = 3 \<or> i = 11 then ''  '' else '' '')"

definition fingerprint_hex :: "u8 list \<Rightarrow> string" where
  "fingerprint_hex fp =
     concat (map (\<lambda>i. upper_byte (fp ! (i * 2)) @ upper_byte (fp ! (i * 2 + 1)) @ hex_separator i) [0..<16])"

definition cli_print_fingerprint_hex :: "u8 list \<Rightarrow> 'a world_scheme \<Rightarrow> 'a world_scheme" where
  "cli_print_fingerprint_hex fp w = print_out (fingerprint_hex fp) w"

text \<open>The random art: a walk over 17 by 9 cells, two bits of the fingerprint a step.\<close>

type_synonym grid = "int \<times> int \<Rightarrow> int"

definition clamp :: "int \<Rightarrow> int \<Rightarrow> int" where
  "clamp hi v = (let v = (if v < 0 then 0 else v) in if v > hi then hi else v)"

fun art_step :: "int \<times> int \<times> grid \<Rightarrow> int \<Rightarrow> int \<times> int \<times> grid" where
  "art_step (x, y, g) dir =
     (let x' = clamp 16 (x + (if dir AND 1 \<noteq> 0 then 1 else -1));
          y' = clamp 8 (y + (if dir AND 2 \<noteq> 0 then 1 else -1))
      in (x', y', g((x', y') := g (x', y') + 1)))"

definition art_dirs :: "u8 list \<Rightarrow> int list" where
  "art_dirs fp = concat (map (\<lambda>b. map (\<lambda>j. uint (drop_bit (j * 2) b AND 3)) [0..<4]) fp)"

definition art_walk :: "u8 list \<Rightarrow> int \<times> int \<times> grid" where
  "art_walk fp = foldl art_step (8, 4, \<lambda>_. 0) (art_dirs fp)"

definition art_cell :: "int \<times> int \<times> grid \<Rightarrow> int \<Rightarrow> int \<Rightarrow> char" where
  "art_cell r i j =
     (case r of (x, y, g) \<Rightarrow>
        if i = 8 \<and> j = 4 then CHR ''S''
        else if i = x \<and> j = y then CHR ''E''
        else '' .o+=*BOX@%&#/^'' ! nat (if g (i, j) > 14 then 14 else g (i, j)))"

definition art_frame :: string where
  "art_frame = ''+-----------------+'' @ [NL]"

definition randomart :: "u8 list \<Rightarrow> string" where
  "randomart fp =
     (let r = art_walk fp
      in art_frame
         @ concat (map (\<lambda>j. ''|'' @ map (\<lambda>i. art_cell r i j) [0..16] @ ''|'' @ [NL]) [0..8])
         @ art_frame)"

definition cli_print_randomart :: "u8 list \<Rightarrow> 'a world_scheme \<Rightarrow> 'a world_scheme" where
  "cli_print_randomart fp w = print_out (randomart fp) w"

definition mismatch_note :: string where
  "mismatch_note =
     [NL] @ ''Status: MISMATCH (WARNING: Key has changed)'' @ [NL, NL]
     @ ''Please verify the new fingerprint in a secondary, trusted out-of-band channel'' @ [NL]
     @ ''before running the update command (''@ [APOS] @ ''shyake fingerprint <username> --update'' @ [APOS] @ '').'' @ [NL]"

definition match_note :: string where
  "match_note = [NL] @ ''Status: MATCH'' @ [NL]"

definition new_host_note :: string where
  "new_host_note = [NL] @ ''Status: NEW HOST (No local key found)'' @ [NL]"

definition print_fp :: "u8 list \<Rightarrow> 'a world_scheme \<Rightarrow> 'a world_scheme" where
  "print_fp fp w = cli_print_randomart fp (cli_print_fingerprint_hex fp w)"

definition cli_render_fingerprint :: "fp_result \<Rightarrow> bool \<Rightarrow> 'a world_scheme \<Rightarrow> 'a world_scheme" where
  "cli_render_fingerprint r is_self w =
     (if is_self then print_fp (remote_fp r) w
      else if has_local r then
        print_out (if fp_match r \<noteq> 0 then match_note else mismatch_note)
          (print_fp (remote_fp r)
            (print_out ([NL] @ ''[Remote server]'' @ [NL])
              (print_fp (local_fp r) (print_out ([NL] @ ''[Local known_hosts]'' @ [NL]) w))))
      else
        print_out new_host_note
          (print_fp (remote_fp r) (print_out ([NL] @ ''[Remote server]'' @ [NL]) w)))"

subsection \<open>What the picture and the digits show\<close>

lemma clamp_range: "0 \<le> hi \<Longrightarrow> 0 \<le> clamp hi v \<and> clamp hi v \<le> hi"
  by (auto simp: clamp_def Let_def)

definition art_cells :: "(int \<times> int) set" where
  "art_cells = {0..16} \<times> {0..8}"

definition art_ok :: "nat \<Rightarrow> int \<times> int \<times> grid \<Rightarrow> bool" where
  "art_ok n r \<longleftrightarrow>
     (case r of (x, y, g) \<Rightarrow>
        (x, y) \<in> art_cells \<and> (\<forall>c. 0 \<le> g c) \<and> (\<forall>c. c \<notin> art_cells \<longrightarrow> g c = 0) \<and> sum g art_cells = int n)"

lemma finite_art_cells [simp]: "finite art_cells"
  by (simp add: art_cells_def)

lemma art_step_ok: "art_ok n r \<Longrightarrow> art_ok (Suc n) (art_step r dir)"
proof -
  assume ok: "art_ok n r"
  obtain x y g where r: "r = (x, y, g)" by (metis prod_cases3)
  obtain x' y' where s: "art_step (x, y, g) dir = (x', y', g((x', y') := g (x', y') + 1))" and "x' \<in> {0..16}" "y' \<in> {0..8}"
    using clamp_range [of 16] clamp_range [of 8] by (simp add: Let_def)
  then have c: "(x', y') \<in> art_cells" by (simp add: art_cells_def)
  then have sm: "sum (g((x', y') := g (x', y') + 1)) art_cells = sum g art_cells + 1"
    by (simp add: sum.remove [of _ "(x', y')"])
  have "art_ok (Suc n) (x', y', g((x', y') := g (x', y') + 1))"
    using ok c unfolding art_ok_def r prod.case sm by auto
  then show ?thesis unfolding r s .
qed

lemma art_walk_ok: "art_ok (length ds + n) (foldl art_step r ds)" if "art_ok n r"
  using that
proof (induction ds arbitrary: n r)
  case (Cons d ds)
  from Cons.IH [OF art_step_ok [OF Cons.prems]] show ?case by simp
qed simp

lemma length_art_dirs: "length (art_dirs fp) = 4 * length fp"
  by (induction fp) (auto simp: art_dirs_def)

lemma art_start: "art_ok 0 (8, 4, \<lambda>_. 0)"
  by (simp add: art_ok_def art_cells_def)

text \<open>
  The random-art walk stays on the board: wherever the fingerprint sends it, the final position
  lies in the 17 by 9 grid, no cell outside it is ever counted (so the array is never indexed out of
  bounds), the counts add up to the four steps per byte, and every character printed is one of the
  board's: the index into the fifteen characters never leaves them.
\<close>

theorem randomart_stays_on_board:
  "(case art_walk fp of (x, y, g) \<Rightarrow>
      0 \<le> x \<and> x \<le> 16 \<and> 0 \<le> y \<and> y \<le> 8 \<and> {c. g c \<noteq> 0} \<subseteq> {0..16} \<times> {0..8}
      \<and> sum g ({0..16} \<times> {0..8}) = 4 * int (length fp))
   \<and> art_cell (art_walk fp) i j \<in> set ''SE .o+=*BOX@%&#/^''"
proof
  obtain x y g where w: "art_walk fp = (x, y, g)" by (metis prod_cases3)
  have ok: "art_ok (4 * length fp) (x, y, g)"
    using art_walk_ok [OF art_start, of "art_dirs fp"] by (simp add: length_art_dirs w art_walk_def [symmetric])
  then show "case art_walk fp of (x, y, g) \<Rightarrow>
      0 \<le> x \<and> x \<le> 16 \<and> 0 \<le> y \<and> y \<le> 8 \<and> {c. g c \<noteq> 0} \<subseteq> {0..16} \<times> {0..8}
      \<and> sum g ({0..16} \<times> {0..8}) = 4 * int (length fp)"
    unfolding w art_ok_def art_cells_def prod.case by force
  have "length '' .o+=*BOX@%&#/^'' = 15" by simp
  moreover have "nat (if g (i, j) > 14 then 14 else g (i, j)) < 15" by (cases "g (i, j) > 14") simp_all
  ultimately have "nat (if g (i, j) > 14 then 14 else g (i, j)) < length '' .o+=*BOX@%&#/^''" by (simp only:)
  from nth_mem [OF this] show "art_cell (art_walk fp) i j \<in> set ''SE .o+=*BOX@%&#/^''"
    by (simp add: art_cell_def w del: nth_mem)
qed

lemma upper_digit_in: "n < 16 \<Longrightarrow> upper_digit n \<in> set ''0123456789ABCDEF''"
  unfolding upper_digit_def by (rule nth_mem) simp

lemma upper_digit_inject: "m < 16 \<Longrightarrow> n < 16 \<Longrightarrow> upper_digit m = upper_digit n \<longleftrightarrow> m = n"
  unfolding upper_digit_def by (rule nth_eq_iff_index_eq) simp_all

lemma upper_byte_inject: "upper_byte a = upper_byte b \<longleftrightarrow> a = b"
proof
  assume eq: "upper_byte a = upper_byte b"
  have "unat a div 16 = unat b div 16 \<and> unat a mod 16 = unat b mod 16"
    using eq unat_byte_bound [of a] unat_byte_bound [of b] by (simp add: upper_byte_def upper_digit_inject)
  then have "unat a = unat b" using div_mult_mod_eq by metis
  then show "a = b" by (simp only: word_unat_eq_iff)
qed simp

definition not_blank :: "char \<Rightarrow> bool" where
  "not_blank c \<longleftrightarrow> c \<noteq> CHR '' '' \<and> c \<noteq> NL"

lemma filter_upper_byte: "filter not_blank (upper_byte b) = upper_byte b"
proof -
  have nb: "not_blank c" if "c \<in> set ''0123456789ABCDEF''" for c using that by (auto simp: not_blank_def NL_def)
  have "not_blank (upper_digit n)" if "n < 16" for n by (rule nb [OF upper_digit_in [OF that]])
  then show ?thesis using unat_byte_bound [of b] by (simp add: upper_byte_def)
qed

lemma filter_separator: "filter not_blank (hex_separator i) = []"
  by (simp add: hex_separator_def not_blank_def)

lemma concat_upper_inject: "length a = length b \<Longrightarrow> concat (map upper_byte a) = concat (map upper_byte b) \<Longrightarrow> a = b"
proof (induction a b rule: list_induct2)
  case (Cons x xs y ys)
  then have "upper_byte x = upper_byte y" and "concat (map upper_byte xs) = concat (map upper_byte ys)"
    by (simp_all add: upper_byte_def)
  with Cons.IH show ?case by (simp add: upper_byte_inject)
qed simp

lemma filter_fingerprint:
  "filter not_blank (fingerprint_hex fp) = concat (map (\<lambda>i. upper_byte (fp ! (i * 2)) @ upper_byte (fp ! (i * 2 + 1))) [0..<16])"
  unfolding fingerprint_hex_def filter_concat map_map o_def by (simp only: filter_append filter_upper_byte filter_separator append_Nil2)

lemma pairs_all: "length fp = 32 \<Longrightarrow> concat (map (\<lambda>i. upper_byte (fp ! (i * 2)) @ upper_byte (fp ! (i * 2 + 1))) [0..<16])
    = concat (map upper_byte fp)"
proof -
  assume n: "length fp = 32"
  have "concat (map (\<lambda>i. f (i * 2) @ f (i * 2 + 1)) [0..<k]) = concat (map f [0..<2 * k])" for f :: "nat \<Rightarrow> string" and k
    by (induction k) (simp_all add: mult.commute)
  from this [of "\<lambda>i. upper_byte (fp ! i)" 16]
  have "concat (map (\<lambda>i. upper_byte (fp ! (i * 2)) @ upper_byte (fp ! (i * 2 + 1))) [0..<16])
      = concat (map upper_byte (map (\<lambda>i. fp ! i) [0..<length fp]))" by (simp add: n o_def)
  then show ?thesis by (simp add: map_nth)
qed

text \<open>
  The printed fingerprint is faithful: two fingerprints of 32 bytes that print as the same two
  lines of hexadecimal groups are equal, so comparing the printed text compares the keys' digests.
\<close>

theorem fingerprint_hex_faithful:
  assumes "length fp = 32" and "length fq = 32" and "fingerprint_hex fp = fingerprint_hex fq"
  shows "fp = fq"
proof -
  have "concat (map upper_byte fp) = concat (map upper_byte fq)"
    using arg_cong [OF assms(3), of "filter not_blank"]
    by (simp only: filter_fingerprint pairs_all [OF assms(1)] pairs_all [OF assms(2)])
  then show ?thesis using assms(1,2) by (intro concat_upper_inject) simp_all
qed

theorem fingerprint_hex_faithful_witness: "map (\<lambda>i. word_of_nat i) [0..<32] = (map word_of_nat [0..<32] :: u8 list)"
  by (rule fingerprint_hex_faithful) simp_all

section \<open>Mail lists\<close>

definition COL_ID :: int where "COL_ID = 1"
definition COL_PARTY :: int where "COL_PARTY = 2"
definition COL_SUBJECT :: int where "COL_SUBJECT = 4"
definition COL_SIZE :: int where "COL_SIZE = 8"
definition COL_DATE :: int where "COL_DATE = 16"
definition COL_CREATED :: int where "COL_CREATED = 32"
definition COL_MODIFIED :: int where "COL_MODIFIED = 64"

lemmas col_defs = COL_ID_def COL_PARTY_def COL_SUBJECT_def COL_SIZE_def COL_DATE_def COL_CREATED_def COL_MODIFIED_def

record cli_render_opts =
  ro_json_out :: bool
  ro_csv_out :: bool
  ro_count_only :: bool
  ro_no_header :: bool
  ro_no_color :: bool
  ro_plain :: bool
  ro_term_width :: int
  ro_col_order :: "int list"      \<comment> \<open>\<open>col_order[0..col_count-1]\<close>\<close>
  ro_tz_hours :: int
  ro_time_fmt :: "string option"
  ro_time_fmt_recent :: "string option"
  ro_id_label :: "string option"

text \<open>The strings shown for an entry.\<close>

record row =
  d_party :: string
  d_subject :: string
  d_size :: string
  d_date :: string
  d_created :: string
  d_modified :: string

definition format_row :: "ext \<Rightarrow> cli_render_opts \<Rightarrow> mail_entry \<Rightarrow> 'a world_scheme \<Rightarrow> row mem" where
  "format_row E opts e w =
     (let at = (\<lambda>ts. cli_format_timestamp E ts (ro_tz_hours opts) (ro_time_fmt opts) (ro_time_fmt_recent opts) 64 w)
      in mem_bind (at (me_timestamp e)) (\<lambda>dt.
         mem_bind (at (me_created e)) (\<lambda>ct.
         mem_bind (at (me_timestamp e)) (\<lambda>mt.
           Ok \<lparr>d_party = cli_format_party (me_party e) 256, d_subject = me_subject e,
               d_size = cli_format_size (me_size e) 16, d_date = dt, d_created = ct, d_modified = mt\<rparr>))))"

fun format_rows :: "ext \<Rightarrow> cli_render_opts \<Rightarrow> mail_entry list \<Rightarrow> 'a world_scheme \<Rightarrow> (mail_entry \<times> row) list mem" where
  "format_rows E opts [] w = Ok []"
| "format_rows E opts (e # es) w =
     mem_bind (format_row E opts e w) (\<lambda>r. mem_bind (format_rows E opts es w) (\<lambda>rs. Ok ((e, r) # rs)))"

definition json_row :: "bool \<Rightarrow> mail_entry \<times> row \<Rightarrow> json" where
  "json_row is_sent p =
     (case p of (e, r) \<Rightarrow>
        JObj [(''mail_id'', JStr (me_mail_id e)),
              (if is_sent then ''recipient'' else ''sender'', JStr (d_party r)),
              (''subject'', JStr (d_subject r)), (''size'', JStr (d_size r)), (''date'', JStr (d_date r))])"

text \<open>The subject between quotes: every quote doubled, until 2040 characters are written.\<close>

fun csv_escape :: "nat \<Rightarrow> string \<Rightarrow> string" where
  "csv_escape p [] = []"
| "csv_escape p (c # s) =
     (if p < 2040 then (if c = QUOTE then [QUOTE, QUOTE] @ csv_escape (p + 2) s else c # csv_escape (p + 1) s)
      else [])"

definition csv_row :: "mail_entry \<times> row \<Rightarrow> string" where
  "csv_row p =
     (case p of (e, r) \<Rightarrow>
        me_mail_id e @ '','' @ d_party r @ '','' @ [QUOTE] @ csv_escape 0 (d_subject r) @ [QUOTE] @ '',''
        @ d_size r @ '','' @ d_date r @ [NL])"

text \<open>\<open>printf("%-*s")\<close>.\<close>

definition pad_right :: "int \<Rightarrow> string \<Rightarrow> string" where
  "pad_right w s = s @ replicate (nat \<bar>w\<bar> - length s) (CHR '' '')"

definition active_cols :: "int list \<Rightarrow> int" where
  "active_cols cols = foldl (OR) 0 cols"

definition col_order :: "cli_render_opts \<Rightarrow> int list" where
  "col_order opts =
     (if ro_col_order opts \<noteq> [] then ro_col_order opts else [COL_ID, COL_PARTY, COL_SUBJECT, COL_SIZE, COL_DATE])"

definition widest :: "int \<Rightarrow> int \<Rightarrow> int \<Rightarrow> ('r \<Rightarrow> int) \<Rightarrow> 'r list \<Rightarrow> int" where
  "widest active col init f rows =
     (if active AND col \<noteq> 0 then foldl (\<lambda>m r. if f r > m then f r else m) init rows else init)"

definition id_header :: "cli_render_opts \<Rightarrow> string" where
  "id_header opts = (case ro_id_label opts of Some l \<Rightarrow> if l \<noteq> [] then l else ''Mail ID'' | None \<Rightarrow> ''Mail ID'')"

record col_widths =
  w_id :: int
  w_snd :: int
  w_sub :: int
  w_sz :: int
  w_dt :: int
  w_crt :: int
  w_mod :: int

definition natural_widths :: "cli_render_opts \<Rightarrow> bool \<Rightarrow> (mail_entry \<times> row) list \<Rightarrow> col_widths" where
  "natural_widths opts is_sent rows =
     (let a = active_cols (col_order opts); len = (\<lambda>s. int (length s))
      in \<lparr>w_id = widest a COL_ID (len (id_header opts)) (\<lambda>r. len (me_mail_id (fst r))) rows,
          w_snd = widest a COL_PARTY (if is_sent then 2 else 4) (\<lambda>r. len (d_party (snd r))) rows,
          w_sub = widest a COL_SUBJECT 7 (\<lambda>r. utf8_display_width (d_subject (snd r))) rows,
          w_sz = widest a COL_SIZE 4 (\<lambda>r. len (d_size (snd r))) rows,
          w_dt = widest a COL_DATE 4 (\<lambda>r. len (d_date (snd r))) rows,
          w_crt = widest a COL_CREATED 7 (\<lambda>r. len (d_created (snd r))) rows,
          w_mod = widest a COL_MODIFIED 8 (\<lambda>r. len (d_modified (snd r))) rows\<rparr>)"

text \<open>The subject column gives way to the terminal, down to 15 columns.\<close>

definition fit_widths :: "cli_render_opts \<Rightarrow> 'a host_scheme \<Rightarrow> col_widths \<Rightarrow> col_widths" where
  "fit_widths opts s ws =
     (let a = active_cols (col_order opts)
      in if ro_plain opts \<or> a AND COL_SUBJECT = 0 then ws
         else
           (let tw = (if ro_term_width opts > 0 then ro_term_width opts else cli_get_terminal_width s);
                used = (if a AND COL_ID \<noteq> 0 then w_id ws + 1 else 0) + (if a AND COL_PARTY \<noteq> 0 then w_snd ws + 1 else 0)
                  + (if a AND COL_SIZE \<noteq> 0 then w_sz ws + 1 else 0) + (if a AND COL_DATE \<noteq> 0 then w_dt ws else 0)
                  + (if a AND COL_CREATED \<noteq> 0 then w_crt ws + 1 else 0)
                  + (if a AND COL_MODIFIED \<noteq> 0 then w_mod ws else 0);
                max_sub = (if tw - used - 1 < 15 then 15 else tw - used - 1)
            in if w_sub ws > max_sub then ws\<lparr>w_sub := max_sub\<rparr> else ws))"

definition ansi :: "bool \<Rightarrow> string \<Rightarrow> string" where
  "ansi nc code = (if nc then [] else CHR 0x1B # ''['' @ code @ ''m'')"

definition header_cell :: "bool \<Rightarrow> int \<Rightarrow> string \<Rightarrow> bool \<Rightarrow> string" where
  "header_cell nc w name is_last =
     (if nc then pad_right w name @ (if is_last then [] else '' '')
      else ansi False ''39'' @ ansi False ''4'' @ name @ ansi False ''24'' @ pad_right (w - int (length name)) []
        @ (if is_last then [] else '' ''))"

definition header_col :: "cli_render_opts \<Rightarrow> bool \<Rightarrow> col_widths \<Rightarrow> int \<Rightarrow> bool \<Rightarrow> string" where
  "header_col opts is_sent ws col is_last =
     (let cell = header_cell (ro_no_color opts)
      in if col = COL_ID then cell (w_id ws) (id_header opts) is_last
         else if col = COL_PARTY then cell (w_snd ws) (if is_sent then ''To'' else ''From'') is_last
         else if col = COL_SUBJECT then cell (w_sub ws) ''Subject'' is_last
         else if col = COL_SIZE then cell (w_sz ws) ''Size'' is_last
         else if col = COL_DATE then cell (w_dt ws) ''Date'' is_last
         else if col = COL_CREATED then cell (w_crt ws) ''Created'' is_last
         else if col = COL_MODIFIED then cell (w_mod ws) ''Modified'' is_last
         else [])"

definition party_cell :: "bool \<Rightarrow> int \<Rightarrow> string \<Rightarrow> string" where
  "party_cell nc w party =
     (if party \<noteq> [] \<and> last party = CHR ''@''
      then ansi nc ''36'' @ butlast party @ ansi nc ''39'' @ ''@''
      else ansi nc ''36'' @ party)
     @ ansi nc ''0'' @ pad_right (w - int (length party)) []"

definition subject_cell :: "bool \<Rightarrow> int \<Rightarrow> string \<Rightarrow> string" where
  "subject_cell nc w subject =
     (case utf8_truncate subject 512 w of
        (t, dw) \<Rightarrow> ansi nc ''39'' @ t @ pad_right (w - dw) [] @ ansi nc ''0'')"

definition data_col :: "cli_render_opts \<Rightarrow> col_widths \<Rightarrow> mail_entry \<times> row \<Rightarrow> int \<Rightarrow> bool \<Rightarrow> string" where
  "data_col opts ws p col is_last =
     (case p of (e, r) \<Rightarrow>
        let nc = ro_no_color opts;
            cell = (\<lambda>on w t. on @ pad_right w t @ ansi nc ''0'');
            sep = (if is_last then [] else '' '')
        in if col = COL_ID then cell (ansi nc ''0'') (w_id ws) (me_mail_id e) @ sep
           else if col = COL_PARTY then party_cell nc (w_snd ws) (d_party r) @ sep
           else if col = COL_SUBJECT then subject_cell nc (w_sub ws) (d_subject r) @ sep
           else if col = COL_SIZE then
             cell (if me_size e \<ge> 1024 then ansi nc ''1;35'' else ansi nc ''35'') (w_sz ws) (d_size r) @ sep
           else if col = COL_DATE then cell (ansi nc ''39'') (w_dt ws) (d_date r) @ sep
           else if col = COL_CREATED then cell (ansi nc ''39'') (w_crt ws) (d_created r) @ sep
           else if col = COL_MODIFIED then cell (ansi nc ''39'') (w_mod ws) (d_modified r) @ sep
           else [])"

text \<open>A line of the table: the columns in their order, the last without a separator.\<close>

fun table_line :: "(int \<Rightarrow> bool \<Rightarrow> string) \<Rightarrow> int list \<Rightarrow> string" where
  "table_line f [] = [NL]"
| "table_line f (c # cs) = f c (cs = []) @ table_line f cs"

definition mail_table :: "cli_render_opts \<Rightarrow> bool \<Rightarrow> col_widths \<Rightarrow> (mail_entry \<times> row) list \<Rightarrow> string list" where
  "mail_table opts is_sent ws rows =
     (if ro_no_header opts then []
      else [ansi (ro_no_color opts) ''0'' @ table_line (header_col opts is_sent ws) (col_order opts)])
     @ map (\<lambda>p. table_line (data_col opts ws p) (col_order opts)) rows
     @ (if ro_no_header opts then []
        else [[NL] @ ''Total: '' @ show_nat (length rows) @ '' item'' @ (if length rows = 1 then [] else ''s'') @ [NL]])"

definition cli_render_mail_list ::
    "ext \<Rightarrow> mail_entry list option \<Rightarrow> cli_render_opts \<Rightarrow> 'a host_scheme \<Rightarrow> 'a host_scheme" where
  "cli_render_mail_list E lst opts s =
     (case lst of
        None \<Rightarrow> s
      | Some es \<Rightarrow>
          if ro_count_only opts then print_out (show_nat (length es) @ [NL]) s
          else if es = [] then
            (if ro_json_out opts then print_out (''[]'' @ [NL]) s
             else if \<not> ro_csv_out opts then print_out (''No mail found.'' @ [NL]) s
             else s)
          else
            (let is_sent = me_is_sent (hd es)
             in case format_rows E opts es s of
                  Ok rows \<Rightarrow>
                    if ro_json_out opts then print_out (cjson_print E (JArr (map (json_row is_sent) rows)) @ [NL]) s
                    else if ro_csv_out opts then
                      foldl (\<lambda>w p. print_out (csv_row p) w)
                        (if ro_no_header opts then s
                         else print_out (id_header opts @ '','' @ (if is_sent then ''To'' else ''From'')
                                @ '',Subject,Size,Date'' @ [NL]) s) rows
                    else
                      (let s1 = cli_setup_pager (ro_plain opts) s;
                           ws = fit_widths opts s1 (natural_widths opts is_sent rows)
                       in cli_wait_pager (foldl (\<lambda>w t. print_out t w) s1 (mail_table opts is_sent ws rows)))
                | _ \<Rightarrow> mark_ub s))"

subsection \<open>CSV\<close>

text \<open>A reader of a quoted field (RFC 4180): two quotes are one, a single one ends it.\<close>

fun csv_field :: "string \<Rightarrow> (string \<times> string) option" where
  "csv_field [] = None"
| "csv_field (c # s) =
     (if c \<noteq> QUOTE then map_option (\<lambda>(f, r). (c # f, r)) (csv_field s)
      else (case s of
              [] \<Rightarrow> Some ([], [])
            | d # t \<Rightarrow> if d = QUOTE then map_option (\<lambda>(f, r). (QUOTE # f, r)) (csv_field t) else Some ([], s)))"

lemma csv_field_escape:
  "\<exists>n. csv_field (csv_escape p s @ QUOTE # CHR '','' # r) = Some (take n s, CHR '','' # r) \<and> min (length s) ((2040 - p) div 2) \<le> n"
proof (induction s arbitrary: p)
  case Nil
  have "CHR '','' \<noteq> QUOTE" by (simp add: QUOTE_def)
  then show ?case by simp
next
  case (Cons c s)
  show ?case
  proof (cases "p < 2040")
    case False
    moreover have "CHR '','' \<noteq> QUOTE" by (simp add: QUOTE_def)
    ultimately show ?thesis by (auto intro: exI [of _ 0])
  next
    case True
    from Cons.IH [of "if c = QUOTE then p + 2 else p + 1"] obtain n where
      "csv_field (csv_escape (if c = QUOTE then p + 2 else p + 1) s @ QUOTE # CHR '','' # r) = Some (take n s, CHR '','' # r)"
      "min (length s) ((2040 - (if c = QUOTE then p + 2 else p + 1)) div 2) \<le> n" by blast
    with True show ?thesis by (intro exI [of _ "Suc n"]) (auto split: if_splits)
  qed
qed

text \<open>
  The quoted subject of a CSV line reads back: whatever the subject contains, a CSV reader that
  starts behind the opening quote stops exactly at the closing one, in front of the next comma, and
  has read a prefix of the subject, which is all of it up to 1020 characters. No subject breaks out of
  its field, also when the buffer cuts it.
\<close>

theorem csv_subject_reads_back:
  "\<exists>n rest. csv_row (e, r) = me_mail_id e @ '','' @ d_party r @ '','' @ QUOTE # rest
     \<and> csv_field rest = Some (take n (d_subject r), '','' @ d_size r @ '','' @ d_date r @ [NL])
     \<and> min (length (d_subject r)) 1020 \<le> n"
proof -
  obtain n where "csv_field (csv_escape 0 (d_subject r) @ QUOTE # CHR '','' # d_size r @ '','' @ d_date r @ [NL])
      = Some (take n (d_subject r), CHR '','' # d_size r @ '','' @ d_date r @ [NL])"
    "min (length (d_subject r)) ((2040 - 0) div 2) \<le> n"
    using csv_field_escape by metis
  then show ?thesis by (intro exI [of _ n] exI) (simp add: csv_row_def)
qed

section \<open>One mail\<close>

definition label :: "bool \<Rightarrow> string \<Rightarrow> string \<Rightarrow> string \<Rightarrow> string" where
  "label nc name gap v = ansi nc ''1;36'' @ name @ '':'' @ ansi nc ''0'' @ gap @ v"

definition cli_render_mail_detail ::
    "ext \<Rightarrow> mail_detail option \<Rightarrow> string option \<Rightarrow> bool \<Rightarrow> bool \<Rightarrow> bool \<Rightarrow> int \<Rightarrow> string option \<Rightarrow> string option
      \<Rightarrow> 'a host_scheme \<Rightarrow> 'a host_scheme" where
  "cli_render_mail_detail E d re raw nc pl tz_hours time_fmt time_fmt_recent s =
     (case d of
        None \<Rightarrow> s
      | Some m \<Rightarrow>
          if raw then (case md_body m of Some b \<Rightarrow> print_out b s | None \<Rightarrow> s)
          else
            (let s1 = cli_setup_pager pl s; tw = cli_get_terminal_width s1
             in case cli_format_timestamp E (md_timestamp m) tz_hours time_fmt time_fmt_recent 64 s1 of
                  Ok dt \<Rightarrow>
                    (let s2 = print_out (label nc ''FROM'' ''  '' (md_sender m) @ [NL]) s1;
                         s3 = print_out (label nc ''TO'' ''    '' (str_or_null (md_recipient m)) @ [NL]) s2;
                         s4 = (case re of Some t \<Rightarrow> print_out (label nc ''RE'' ''    '' t @ [NL]) s3 | None \<Rightarrow> s3);
                         s5 = print_out (label nc ''DATE'' ''  '' dt @ [NL]) s4;
                         s6 = print_out (label nc ''SUBJ'' ''  '' []) s5;
                         s7 = cli_print_word_wrap
                                (case md_subject m of Some t \<Rightarrow> t | None \<Rightarrow> ''<decryption failed>'') 7 tw s6;
                         s8 = print_out [NL] s7;
                         s9 = (case md_body m of
                                 Some b \<Rightarrow>
                                   (let s' = print_out b s8
                                    in if stdout_tty s' \<or> paging s' then print_out [NL] s' else s')
                               | None \<Rightarrow> print_out (''<body decryption failed>'' @ [NL]) s8)
                     in cli_wait_pager s9)
                | _ \<Rightarrow> mark_ub s1))"

definition cli_render_mail_header ::
    "ext \<Rightarrow> mail_detail option \<Rightarrow> string option \<Rightarrow> bool \<Rightarrow> int \<Rightarrow> string option \<Rightarrow> string option
      \<Rightarrow> 'a host_scheme \<Rightarrow> 'a host_scheme" where
  "cli_render_mail_header E d re nc tz_hours time_fmt time_fmt_recent s =
     (case d of
        None \<Rightarrow> s
      | Some m \<Rightarrow>
          (let tw = cli_get_terminal_width s
           in case cli_format_timestamp E (md_timestamp m) tz_hours time_fmt time_fmt_recent 64 s of
                Ok md \<Rightarrow>
                  (let s2 = print_out (label nc ''FROM'' '' '' (md_sender m) @ [NL]) s;
                       s3 = print_out (label nc ''TO'' ''   '' (str_or_null (md_recipient m)) @ [NL]) s2;
                       s4 = (case re of Some t \<Rightarrow> print_out (label nc ''RE'' ''   '' t @ [NL]) s3 | None \<Rightarrow> s3);
                       s5 = print_out (label nc ''SUBJ'' '' '' []) s4;
                       s6 = cli_print_word_wrap
                              (case md_subject m of Some t \<Rightarrow> t | None \<Rightarrow> ''(decryption failed)'') 6 tw s5;
                       s7 = print_out (label nc ''SIZE'' '' '' (show_int (md_size m)) @ [NL]) s6
                   in if md_created m \<noteq> 0 then
                        (case cli_format_timestamp E (md_created m) tz_hours time_fmt time_fmt_recent 64 s7 of
                           Ok ct \<Rightarrow>
                             print_out (label nc ''MOD'' ''  '' md @ [NL])
                               (print_out (label nc ''CRT'' ''  '' ct @ [NL]) s7)
                         | _ \<Rightarrow> mark_ub s7)
                      else print_out (label nc ''DATE'' '' '' md @ [NL]) s7)
              | _ \<Rightarrow> mark_ub s))"

end
