(* ===== verification/Config.thy ===== *)
theory Config
  imports Display
begin

text \<open>
  The configuration file (\<open>cli/main.c\<close>): \<open>read_config\<close>, which every command starts with, and
  \<open>update_config_user_and_instance\<close>, which a registration ends with; the columns of \<open>check\<close>, the choice
  of the editor and the URL of the version endpoint. A file is read line by line through a buffer of
  1024 bytes.
\<close>

section \<open>Reading\<close>

definition is_blank_char :: "char \<Rightarrow> bool" where
  "is_blank_char c \<longleftrightarrow> c = CHR '' '' \<or> c = TAB \<or> c = CR \<or> c = NL"

definition trim_whitespace :: "string \<Rightarrow> string" where
  "trim_whitespace s = rev (dropWhile is_blank_char (rev (dropWhile is_blank_char s)))"

record app_config =
  ac_instance :: "string option"
  ac_username :: "string option"
  ac_time_format :: "string option"
  ac_time_format_recent :: "string option"
  ac_check_columns :: "string option"
  ac_editor :: "string option"
  ac_no_color :: int
  ac_tz_hours :: int
  ac_default_action :: int

definition empty_config :: app_config where
  "empty_config =
     \<lparr>ac_instance = None, ac_username = None, ac_time_format = None, ac_time_format_recent = None,
      ac_check_columns = None, ac_editor = None, ac_no_color = 0, ac_tz_hours = TZ_AUTO, ac_default_action = 0\<rparr>"

text \<open>A value between two equal quotes loses them.\<close>

definition unquote :: "string \<Rightarrow> string" where
  "unquote v =
     (if v \<noteq> [] \<and> (hd v = QUOTE \<or> hd v = APOS) \<and> hd v = last v \<and> length v \<ge> 2 then butlast (tl v) else v)"

text \<open>Key and value of a line; None for a comment, an empty line or one without \<open>=\<close>.\<close>

definition config_entry :: "string \<Rightarrow> (string \<times> string) option" where
  "config_entry line =
     (let t = trim_whitespace line
      in if t = [] \<or> hd t = CHR ''#'' then None
         else (case split_at (CHR ''='') t of
                 (_, None) \<Rightarrow> None
               | (k, Some v) \<Rightarrow> Some (trim_whitespace k, v)))"

definition set_config :: "string \<Rightarrow> string \<Rightarrow> app_config \<Rightarrow> app_config" where
  "set_config key val cfg =
     (if key = ''INSTANCE'' then cfg\<lparr>ac_instance := Some val\<rparr>
      else if key = ''USERNAME'' then cfg\<lparr>ac_username := Some val\<rparr>
      else if key = ''TIME_FORMAT'' then cfg\<lparr>ac_time_format := Some val\<rparr>
      else if key = ''TIME_FORMAT_RECENT'' then cfg\<lparr>ac_time_format_recent := Some val\<rparr>
      else if key = ''CHECK_COLUMNS'' then cfg\<lparr>ac_check_columns := Some val\<rparr>
      else if key = ''NO_COLOR'' then cfg\<lparr>ac_no_color := atoi val\<rparr>
      else if key = ''TIME_ZONE'' then
        cfg\<lparr>ac_tz_hours := (if val = ''auto'' \<or> val = [] then TZ_AUTO else atoi val)\<rparr>
      else if key = ''DEFAULT_ACTION'' then cfg\<lparr>ac_default_action := atoi val\<rparr>
      else if key = ''EDITOR'' then cfg\<lparr>ac_editor := Some val\<rparr>
      else cfg)"

definition config_line :: "app_config \<Rightarrow> string \<Rightarrow> app_config" where
  "config_line cfg line =
     (case config_entry line of
        None \<Rightarrow> cfg
      | Some (k, v) \<Rightarrow> set_config k (unquote (trim_whitespace v)) cfg)"

definition config_path :: "string \<Rightarrow> string" where
  "config_path dir = snprintf 512 (dir @ ''/config'')"

definition parse_config :: "string \<Rightarrow> app_config" where
  "parse_config t = foldl config_line empty_config (fgets_all 1024 t)"

definition read_config :: "string \<Rightarrow> 'a world_scheme \<Rightarrow> app_config" where
  "read_config dir w =
     (case fs_get w (config_path dir) of
        None \<Rightarrow> empty_config
      | Some d \<Rightarrow> parse_config (text_of d))"

section \<open>Updating\<close>

definition account_line :: "string \<Rightarrow> string \<Rightarrow> string" where
  "account_line user inst = snprintf 1024 (''INSTANCE='' @ inst @ [NL] @ ''USERNAME='' @ user @ [NL])"

definition line_key :: "string \<Rightarrow> string option" where
  "line_key line = map_option fst (config_entry line)"

definition update_line :: "string \<Rightarrow> string \<Rightarrow> string \<Rightarrow> string" where
  "update_line user inst line =
     (if line_key line = Some ''INSTANCE'' then account_line user inst
      else if line_key line = Some ''USERNAME'' then []
      else line)"

definition has_instance :: "string list \<Rightarrow> bool" where
  "has_instance lines = list_ex (\<lambda>l. line_key l = Some ''INSTANCE'') lines"

definition updated_text :: "string \<Rightarrow> string \<Rightarrow> string list \<Rightarrow> string" where
  "updated_text user inst lines =
     concat (map (update_line user inst) lines)
     @ (if has_instance lines then [] else ''INSTANCE='' @ inst @ [NL])"

definition update_config_user_and_instance ::
    "string \<Rightarrow> string \<Rightarrow> string \<Rightarrow> 'a world_scheme \<Rightarrow> int \<times> 'a world_scheme" where
  "update_config_user_and_instance dir user inst w =
     (let lines = (case fs_get w (config_path dir) of None \<Rightarrow> [] | Some d \<Rightarrow> fgets_all 1024 (text_of d))
      in case write_file (config_path dir) (bytes_of (updated_text user inst lines)) w of
           (None, w') \<Rightarrow> (-1, w')
         | (Some _, w') \<Rightarrow> (0, w'))"

section \<open>Columns, editor, version URL\<close>

definition default_order :: "int list" where
  "default_order = [COL_ID, COL_PARTY, COL_SUBJECT, COL_SIZE, COL_DATE]"

definition column_of :: "string \<Rightarrow> int" where
  "column_of tok =
     (if tok = ''id'' then COL_ID
      else if tok = ''sender'' \<or> tok = ''from'' \<or> tok = ''to'' \<or> tok = ''recipient'' then COL_PARTY
      else if tok = ''subject'' then COL_SUBJECT
      else if tok = ''size'' then COL_SIZE
      else if tok = ''date'' then COL_DATE
      else 0)"

function columns_of :: "nat \<Rightarrow> string \<Rightarrow> int list" where
  "columns_of n rest =
     (if n \<ge> 5 then []
      else
        (case split_at (CHR '','') rest of
           (t, after) \<Rightarrow>
             (let col = column_of (dropWhile (\<lambda>c. c = CHR '' '') t);
                  n' = (if col \<noteq> 0 then n + 1 else n)
              in (if col \<noteq> 0 then [col] else [])
                 @ (case after of Some r \<Rightarrow> columns_of n' r | None \<Rightarrow> []))))"
  by pat_completeness auto
termination
  by (relation "measure (\<lambda>(n, s). length s)") (auto dest: split_at_shorter [OF sym])

declare columns_of.simps [simp del]

definition parse_check_columns :: "string option \<Rightarrow> int list" where
  "parse_check_columns spec =
     (case spec of
        None \<Rightarrow> default_order
      | Some s \<Rightarrow>
          if s = [] then default_order
          else (let cols = columns_of 0 (snprintf 256 s) in if cols = [] then default_order else cols))"

definition resolve_editor :: "app_config \<Rightarrow> 'a host_scheme \<Rightarrow> string" where
  "resolve_editor cfg s =
     (let given = (\<lambda>v. case v of Some e \<Rightarrow> e \<noteq> [] | None \<Rightarrow> False)
      in if given (ac_editor cfg) then the (ac_editor cfg)
         else if given (getenv ''VISUAL'' s) then the (getenv ''VISUAL'' s)
         else if given (getenv ''EDITOR'' s) then the (getenv ''EDITOR'' s)
         else ''ed'')"

definition build_version_url :: "string option \<Rightarrow> string" where
  "build_version_url inst =
     (case inst of
        None \<Rightarrow> ''https://shyake.eee.coffee/api/client/version''
      | Some i \<Rightarrow>
          if i = [] then ''https://shyake.eee.coffee/api/client/version''
          else rev (dropWhile (\<lambda>c. c = CHR ''/'') (rev i)) @ ''/api/client/version'')"

section \<open>What the columns are\<close>

lemma column_of_known:
  "column_of t = 0 \<or> column_of t \<in> {COL_ID, COL_PARTY, COL_SUBJECT, COL_SIZE, COL_DATE}"
  by (simp add: column_of_def)

lemma columns_of_ok:
  "length (columns_of n s) \<le> 5 - n \<and> set (columns_of n s) \<subseteq> {COL_ID, COL_PARTY, COL_SUBJECT, COL_SIZE, COL_DATE}"
proof (induction n s rule: columns_of.induct)
  case (1 n s)
  show ?case
  proof (cases "n \<ge> 5")
    case True
    then show ?thesis by (simp add: columns_of.simps)
  next
    case False
    obtain t r where sp: "split_at (CHR '','') s = (t, r)" by fastforce
    let ?c = "column_of (dropWhile (\<lambda>c. c = CHR '' '') t)"
    have eq: "columns_of n s = (if ?c \<noteq> 0 then [?c] else [])
        @ (case r of Some r \<Rightarrow> columns_of (if ?c \<noteq> 0 then n + 1 else n) r | None \<Rightarrow> [])"
      using False sp by (subst columns_of.simps) (simp add: Let_def)
    note IH = 1 [OF False sp [symmetric] refl refl]
    show ?thesis
      using IH False column_of_known [of "dropWhile (\<lambda>c. c = CHR '' '') t"]
      unfolding eq by (cases r; cases "?c = 0") auto
  qed
qed

text \<open>
  Whatever \<open>CHECK_COLUMNS\<close> says, the column order a list is rendered with is well formed: there is
  at least one column, there are at most five of the seven slots of \<open>col_order\<close>, and every entry is one
  of the five known column flags.
\<close>

theorem check_columns_well_formed:
  "parse_check_columns spec \<noteq> [] \<and> length (parse_check_columns spec) \<le> 5
   \<and> set (parse_check_columns spec) \<subseteq> {COL_ID, COL_PARTY, COL_SUBJECT, COL_SIZE, COL_DATE}"
proof -
  have "default_order \<noteq> [] \<and> length default_order \<le> 5
      \<and> set default_order \<subseteq> {COL_ID, COL_PARTY, COL_SUBJECT, COL_SIZE, COL_DATE}"
    by (simp add: default_order_def)
  then show ?thesis
    using columns_of_ok [of 0] by (auto simp: parse_check_columns_def Let_def split: option.splits)
qed

section \<open>What a registration leaves in the configuration\<close>

text \<open>A line that the buffer takes whole, and a value that reads back as it is written.\<close>

definition whole_line :: "string \<Rightarrow> bool" where
  "whole_line l \<longleftrightarrow> NL \<notin> set l \<and> nul_free l \<and> length l + 1 < 1024"

definition plain_value :: "string \<Rightarrow> bool" where
  "plain_value v \<longleftrightarrow> NL \<notin> set v \<and> nul_free v \<and> trim_whitespace v = v \<and> unquote v = v"

definition lines_text :: "string list \<Rightarrow> string" where
  "lines_text ls = concat (map (\<lambda>l. l @ [NL]) ls)"

lemma lines_text_simps [simp]: "lines_text [] = []" "lines_text (l # ls) = l @ NL # lines_text ls"
  by (simp_all add: lines_text_def)

lemma lines_text_append [simp]: "lines_text (a @ b) = lines_text a @ lines_text b"
  by (simp add: lines_text_def)

lemma fgets_lines_text: "list_all whole_line ls \<Longrightarrow> fgets_all 1024 (lines_text ls) = map (\<lambda>l. l @ [NL]) ls"
  by (induction ls) (auto simp: whole_line_def fgets_all_line)

lemma dropWhile_id: "length (dropWhile P xs) = length xs \<Longrightarrow> dropWhile P xs = xs"
  using length_dropWhile_le [of P "tl xs"] by (cases xs) (auto split: if_splits)

lemma dropWhile_id_hd: "dropWhile P xs = x # xs' \<Longrightarrow> \<not> P x"
  by (induction xs) (auto split: if_splits)

lemma trimmed_end:
  assumes "trim_whitespace v = v"
  shows "dropWhile is_blank_char (rev v) = rev v"
proof -
  let ?a = "dropWhile is_blank_char v"
  have v: "rev v = dropWhile is_blank_char (rev ?a)" using assms unfolding trim_whitespace_def by (metis rev_rev_ident)
  have "length v \<le> length ?a" using length_dropWhile_le [of is_blank_char "rev ?a"] v by (metis length_rev)
  then have "?a = v" using length_dropWhile_le [of is_blank_char v] by (intro dropWhile_id) simp
  with v show ?thesis by simp
qed

lemma trim_end:
  assumes "k \<noteq> []" and "\<not> is_blank_char (hd k)" and "\<not> is_blank_char (last k)" and "trim_whitespace v = v"
  shows "trim_whitespace (k @ v @ [NL]) = k @ v"
proof -
  obtain c t where k: "k = c # t" using assms(1) by (cases k) auto
  obtain d u where d: "rev k = d # u" "\<not> is_blank_char d"
    using assms(1,3) by (cases "rev k") (auto simp: last_rev hd_rev [symmetric])
  have lead: "dropWhile is_blank_char (k @ v @ [NL]) = k @ v @ [NL]" using k assms(2) by simp
  have "dropWhile is_blank_char (rev v @ rev k) = rev v @ rev k"
    using trimmed_end [OF assms(4)] d by (cases "rev v") (auto split: if_splits dest: dropWhile_id_hd)
  moreover have "is_blank_char NL" by (simp add: is_blank_char_def)
  ultimately show ?thesis unfolding trim_whitespace_def lead by simp
qed

definition without_account :: "app_config \<Rightarrow> app_config" where
  "without_account c = c\<lparr>ac_instance := None, ac_username := None\<rparr>"

text \<open>A line either sets the instance, or the user name, or something else.\<close>

lemma without_account_update:
  "without_account (c\<lparr>ac_instance := i\<rparr>) = without_account c"
  "without_account (c\<lparr>ac_username := i\<rparr>) = without_account c"
  "without_account (c\<lparr>ac_time_format := i\<rparr>) = (without_account c)\<lparr>ac_time_format := i\<rparr>"
  "without_account (c\<lparr>ac_time_format_recent := i\<rparr>) = (without_account c)\<lparr>ac_time_format_recent := i\<rparr>"
  "without_account (c\<lparr>ac_check_columns := i\<rparr>) = (without_account c)\<lparr>ac_check_columns := i\<rparr>"
  "without_account (c\<lparr>ac_no_color := n\<rparr>) = (without_account c)\<lparr>ac_no_color := n\<rparr>"
  "without_account (c\<lparr>ac_tz_hours := n\<rparr>) = (without_account c)\<lparr>ac_tz_hours := n\<rparr>"
  "without_account (c\<lparr>ac_default_action := n\<rparr>) = (without_account c)\<lparr>ac_default_action := n\<rparr>"
  "without_account (c\<lparr>ac_editor := i\<rparr>) = (without_account c)\<lparr>ac_editor := i\<rparr>"
  by (simp_all add: without_account_def)

lemma set_config_without:
  "k = ''INSTANCE'' \<or> k = ''USERNAME'' \<Longrightarrow> without_account (set_config k v c) = without_account c"
  "k \<noteq> ''INSTANCE'' \<Longrightarrow> k \<noteq> ''USERNAME'' \<Longrightarrow> without_account (set_config k v c) = set_config k v (without_account c)"
proof -
  show "without_account (set_config k v c) = without_account c" if "k = ''INSTANCE'' \<or> k = ''USERNAME''"
    using that by (elim disjE) (simp_all add: set_config_def without_account_update)
  show "without_account (set_config k v c) = set_config k v (without_account c)" if "k \<noteq> ''INSTANCE''" "k \<noteq> ''USERNAME''"
    unfolding set_config_def if_distrib [of without_account] without_account_update using that by (simp only: if_False)
qed

lemma set_config_account:
  "k \<noteq> ''INSTANCE'' \<Longrightarrow> ac_instance (set_config k v c) = ac_instance c"
  "k \<noteq> ''USERNAME'' \<Longrightarrow> ac_username (set_config k v c) = ac_username c"
  unfolding set_config_def by simp_all

lemma set_config_other: "without_account c = without_account d \<Longrightarrow> without_account (set_config k v c) = without_account (set_config k v d)"
  using set_config_without [of k v c] set_config_without [of k v d] by metis

lemma config_line_cases:
  obtains "config_entry l = None" "line_key l = None" "\<And>c. config_line c l = c"
  | k v where "line_key l = Some k" "\<And>c. config_line c l = set_config k v c"
  by (cases "config_entry l") (auto simp: config_line_def line_key_def)

lemma config_line_frame:
  assumes "\<And>k v. line_key l = Some k \<Longrightarrow> f (set_config k v c) = f c"
  shows "f (config_line c l) = f c"
  using assms by (cases l rule: config_line_cases) simp_all

lemma config_line_account:
  shows "line_key l \<noteq> Some ''INSTANCE'' \<Longrightarrow> ac_instance (config_line c l) = ac_instance c"
    and "line_key l \<noteq> Some ''USERNAME'' \<Longrightarrow> ac_username (config_line c l) = ac_username c"
    and "line_key l = Some ''INSTANCE'' \<or> line_key l = Some ''USERNAME'' \<Longrightarrow> without_account (config_line c l) = without_account c"
  by (rule config_line_frame, rule set_config_account(1) set_config_account(2) set_config_without(1), simp only: option.inject not_False_eq_True)+

lemma config_line_other:
  assumes "without_account c = without_account d"
  shows "without_account (config_line c l) = without_account (config_line d l)"
proof (cases l rule: config_line_cases)
  case 1
  with assms show ?thesis by (simp only:)
next
  case (2 k v)
  show ?thesis unfolding 2(2) by (rule set_config_other [OF assms])
qed

lemma config_line_key:
  assumes "k \<noteq> []" and "\<not> is_blank_char (hd k)" and "\<not> is_blank_char (last k)" and "hd k \<noteq> CHR ''#''"
    and "CHR ''='' \<notin> set k" and "trim_whitespace k = k" and v: "plain_value v"
  shows "config_line c (k @ ''='' @ v @ [NL]) = set_config k v c" and "line_key (k @ ''='' @ v @ [NL]) = Some k"
proof -
  have "trim_whitespace ((k @ ''='') @ v @ [NL]) = (k @ ''='') @ v"
    using assms by (intro trim_end) (auto simp: plain_value_def is_blank_char_def char_consts)
  then have "config_entry (k @ ''='' @ v @ [NL]) = Some (k, v)"
    using assms(1,4-6) by (simp add: config_entry_def)
  then show "config_line c (k @ ''='' @ v @ [NL]) = set_config k v c" and "line_key (k @ ''='' @ v @ [NL]) = Some k"
    using v by (simp_all add: config_line_def line_key_def plain_value_def)
qed

text \<open>The lines of the file after the update.\<close>

definition account_lines :: "string \<Rightarrow> string \<Rightarrow> string \<Rightarrow> string list" where
  "account_lines user inst l =
     (if line_key (l @ [NL]) = Some ''INSTANCE'' then [''INSTANCE='' @ inst, ''USERNAME='' @ user]
      else if line_key (l @ [NL]) = Some ''USERNAME'' then []
      else [l])"

definition account_fits :: "string \<Rightarrow> string \<Rightarrow> bool" where
  "account_fits user inst \<longleftrightarrow> plain_value user \<and> plain_value inst \<and> length user + length inst < 1000"

lemma update_line_lines:
  "account_fits user inst \<Longrightarrow> update_line user inst (l @ [NL]) = lines_text (account_lines user inst l)"
  by (simp add: update_line_def account_lines_def account_line_def account_fits_def)

lemma updated_text_lines:
  assumes "account_fits user inst"
  shows "updated_text user inst (map (\<lambda>l. l @ [NL]) ls)
     = lines_text (concat (map (account_lines user inst) ls)
         @ (if has_instance (map (\<lambda>l. l @ [NL]) ls) then [] else [''INSTANCE='' @ inst]))"
proof -
  have "concat (map (update_line user inst) (map (\<lambda>l. l @ [NL]) ls)) = lines_text (concat (map (account_lines user inst) ls))"
    by (induction ls) (simp_all add: update_line_lines [OF assms])
  then show ?thesis unfolding updated_text_def by simp
qed

lemma account_lines_whole:
  assumes "account_fits user inst" and "whole_line l"
  shows "list_all whole_line (account_lines user inst l)"
  using assms by (simp add: account_lines_def account_fits_def whole_line_def plain_value_def NL_def)

lemma instance_line:
  assumes "account_fits user inst"
  shows "config_line c (''INSTANCE='' @ inst @ [NL]) = c\<lparr>ac_instance := Some inst\<rparr>"
    and "config_line c (''USERNAME='' @ user @ [NL]) = c\<lparr>ac_username := Some user\<rparr>"
  using config_line_key(1) [of "''INSTANCE''" inst c] config_line_key(1) [of "''USERNAME''" user c] assms
  by (simp_all add: account_fits_def trim_whitespace_def is_blank_char_def char_consts set_config_def)

lemma fold_account_lines:
  assumes fits: "account_fits user inst"
  shows "without_account c = without_account d \<Longrightarrow>
     (let c' = foldl config_line c (map (\<lambda>l. l @ [NL]) (concat (map (account_lines user inst) ls)));
          h = has_instance (map (\<lambda>l. l @ [NL]) ls)
      in without_account c' = without_account (foldl config_line d (map (\<lambda>l. l @ [NL]) ls))
         \<and> ac_instance c' = (if h then Some inst else ac_instance c)
         \<and> ac_username c' = (if h then Some user else ac_username c))"
proof (induction ls arbitrary: c d)
  case (Cons l ls)
  let ?l = "l @ [NL]"
  consider "line_key ?l = Some ''INSTANCE''" | "line_key ?l = Some ''USERNAME''"
    | "line_key ?l \<noteq> Some ''INSTANCE''" "line_key ?l \<noteq> Some ''USERNAME''" by blast
  then show ?case
  proof cases
    case 1
    let ?c = "c\<lparr>ac_instance := Some inst, ac_username := Some user\<rparr>"
    have "without_account ?c = without_account (config_line d ?l)"
      using Cons.prems config_line_account(3) [of ?l d] 1 by (simp add: without_account_def)
    moreover have "account_lines user inst l = [''INSTANCE='' @ inst, ''USERNAME='' @ user]"
      using 1 by (simp add: account_lines_def)
    ultimately show ?thesis using Cons.IH [of ?c "config_line d ?l"] 1
      by (auto simp: has_instance_def Let_def instance_line [OF fits, simplified])
  next
    case 2
    have "without_account c = without_account (config_line d ?l)"
      using Cons.prems config_line_account(3) [of ?l d] 2 by simp
    moreover have "account_lines user inst l = []" using 2 by (simp add: account_lines_def)
    ultimately show ?thesis using Cons.IH [of c "config_line d ?l"] 2 by (simp add: has_instance_def Let_def)
  next
    case 3
    moreover from this have "account_lines user inst l = [l]" by (simp add: account_lines_def)
    ultimately show ?thesis using Cons.IH [OF config_line_other [OF Cons.prems, of ?l]]
      by (simp add: has_instance_def Let_def config_line_account)
  qed
qed (simp add: has_instance_def)

lemma without_account_eq:
  "without_account c = without_account d \<Longrightarrow> ac_instance c = i \<Longrightarrow> ac_username c = u \<Longrightarrow> c = d\<lparr>ac_instance := i, ac_username := u\<rparr>"
  unfolding without_account_def by (cases c, cases d) simp

lemma parse_updated:
  assumes fits: "account_fits user inst" and ls: "list_all whole_line ls"
  shows "parse_config (updated_text user inst (map (\<lambda>l. l @ [NL]) ls))
     = (parse_config (lines_text ls))
         \<lparr>ac_instance := Some inst,
          ac_username := (if has_instance (map (\<lambda>l. l @ [NL]) ls) then Some user else None)\<rparr>"
proof -
  let ?h = "has_instance (map (\<lambda>l. l @ [NL]) ls)"
  let ?t = "concat (map (account_lines user inst) ls) @ (if ?h then [] else [''INSTANCE='' @ inst])"
  have "list_all whole_line (concat (map (account_lines user inst) ls))"
    using ls by (induction ls) (simp_all add: account_lines_whole [OF fits])
  moreover have "whole_line (''INSTANCE='' @ inst)"
    using fits by (simp add: whole_line_def account_fits_def plain_value_def NL_def)
  ultimately have "list_all whole_line ?t" by simp
  then have "parse_config (updated_text user inst (map (\<lambda>l. l @ [NL]) ls)) = foldl config_line empty_config (map (\<lambda>l. l @ [NL]) ?t)"
    unfolding parse_config_def updated_text_lines [OF fits] by (simp only: fgets_lines_text)
  moreover have "parse_config (lines_text ls) = foldl config_line empty_config (map (\<lambda>l. l @ [NL]) ls)"
    unfolding parse_config_def by (simp only: fgets_lines_text [OF ls])
  moreover
  define c0 where "c0 = foldl config_line empty_config (map (\<lambda>l. l @ [NL]) (concat (map (account_lines user inst) ls)))"
  have "foldl config_line empty_config (map (\<lambda>l. l @ [NL]) ?t) = (if ?h then c0 else c0\<lparr>ac_instance := Some inst\<rparr>)"
    by (simp add: c0_def instance_line [OF fits, simplified])
  moreover have "without_account (c0\<lparr>ac_instance := Some inst\<rparr>) = without_account c0" by (simp add: without_account_def)
  moreover have "ac_instance empty_config = None" "ac_username empty_config = None" by (simp_all add: empty_config_def)
  ultimately show ?thesis
    using fold_account_lines [OF fits refl, of empty_config ls, folded c0_def]
    by (intro without_account_eq) (simp_all add: Let_def)
qed


definition sample_world :: world where
  "sample_world =
     \<lparr>files = [(''/c/config'', bytes_of (lines_text [''INSTANCE='', ''NO_COLOR=1'']))], dirs = [''/c''], mkdir_ok = \<lambda>_. True,
      disk = \<lambda>_. Some 4096, entropy = [], libc_rand = \<lambda>_. 0, coins = 0, clock = 0, replies = [], requests = [],
      term_out = [], term_err = [], ub = False\<rparr>"

lemma sample_account: "account_fits ''bob'' ''https://x.org''"
  by (simp add: account_fits_def plain_value_def char_consts trim_whitespace_def is_blank_char_def unquote_def)

lemma sample_lines: "list_all whole_line [''INSTANCE='', ''NO_COLOR=1'']"
  by (simp add: whole_line_def char_consts)


end
