(* ===== verification/Prompt.thy ===== *)
theory Prompt
  imports Config
begin

text \<open>
  Passphrases and questions (\<open>cli/prompt.c\<close>) and the first set-up (\<open>cli/init.c\<close>). A passphrase comes
  from the environment or from a line of \<open>/dev/tty\<close>; every command opens a context of the library with
  the configuration it has read.
\<close>

section \<open>The context of a command\<close>

text \<open>\<open>shyake_init_ctx\<close> on the state of the client: the configuration directory is never NULL here.\<close>

definition open_ctx :: "shyake_config \<Rightarrow> 'a host_scheme \<Rightarrow> 'a host_scheme" where
  "open_ctx c s =
     s\<lparr>instance_url := cf_instance_url c, config_dir := the (cf_config_dir c), username := cf_username c,
       plain := cf_plain c, debug := cf_debug c, no_color := cf_no_color c, passphrase := [], new_passphrase := [],
       last_error := []\<rparr>"

definition close_ctx :: "'a host_scheme \<Rightarrow> 'a host_scheme" where
  "close_ctx s = s\<lparr>passphrase := [], new_passphrase := []\<rparr>"

lemma open_ctx_init:
  "cf_config_dir c \<noteq> None \<Longrightarrow> shyake_init_ctx (Some c) (world.truncate s) = Some (sys.truncate (open_ctx c s))"
  by (auto simp: shyake_init_ctx_def open_ctx_def world.defs sys.defs)

lemma close_ctx_free: "world.truncate (close_ctx s) = shyake_free_ctx (sys.truncate s)"
  by (simp add: shyake_free_ctx_def close_ctx_def world.defs sys.defs)

lemma ctx_frame [simp]:
  fixes s :: "'a host_scheme"
  shows "files (open_ctx c s) = files s" "files (close_ctx s) = files s" "dirs (open_ctx c s) = dirs s"
    "dirs (close_ctx s) = dirs s" "requests (open_ctx c s) = requests s" "requests (close_ctx s) = requests s"
    "disk (open_ctx c s) = disk s" "disk (close_ctx s) = disk s" "shell_log (open_ctx c s) = shell_log s"
    "shell_log (close_ctx s) = shell_log s" "fs_get (open_ctx c s) p = fs_get s p" "fs_get (close_ctx s) p = fs_get s p"
  by (simp_all add: open_ctx_def close_ctx_def fs_get_def)

section \<open>The terminal\<close>

text \<open>\<open>fgets(buf, n, tty)\<close> of a terminal that is opened for one line: the rest of a longer line is lost.\<close>

definition tty_gets :: "nat \<Rightarrow> 'a host_scheme \<Rightarrow> string option \<times> 'a host_scheme" where
  "tty_gets n s =
     (case tty_lines s of
        None \<Rightarrow> (None, s)
      | Some [] \<Rightarrow> (None, s)
      | Some (l # ls) \<Rightarrow> (map_option (\<lambda>t. cstr (take (n - 1) t)) l, s\<lparr>tty_lines := Some ls\<rparr>))"

definition tty_print :: "string \<Rightarrow> 'a host_scheme \<Rightarrow> 'a host_scheme" where
  "tty_print t s = s\<lparr>tty_out := tty_out s @ [t]\<rparr>"

definition drop_newline :: "string \<Rightarrow> string" where
  "drop_newline t = (if t \<noteq> [] \<and> last t = NL then butlast t else t)"

definition read_passphrase :: "string \<Rightarrow> nat \<Rightarrow> 'a host_scheme \<Rightarrow> int \<times> string \<times> 'a host_scheme" where
  "read_passphrase prompt_str buflen s =
     (case getenv ''SHYAKE_PASSPHRASE'' s of
        Some env_pp \<Rightarrow> (0, snprintf buflen env_pp, s)
      | None \<Rightarrow>
          if tty_lines s = None then (0, [], s)
          else
            (case tty_gets buflen (tty_print prompt_str s) of
               (r, s) \<Rightarrow>
                 (case r of
                    None \<Rightarrow> (-1, [], tty_print [NL] s)
                  | Some t \<Rightarrow> (0, drop_newline t, tty_print [NL] s))))"

definition sk_file_is_encrypted :: "'a world_scheme \<Rightarrow> string \<Rightarrow> bool" where
  "sk_file_is_encrypted w path =
     (case fs_get w path of
        None \<Rightarrow> False
      | Some d \<Rightarrow> take 4 d = bytes_of ''SHYK'')"

definition prompt_passphrase :: "string \<Rightarrow> 'a host_scheme \<Rightarrow> int \<times> 'a host_scheme" where
  "prompt_passphrase dir s =
     (let sk_path = snprintf 512 (dir @ ''/kem_sk.bin'')
      in if \<not> sk_file_is_encrypted s sk_path then (0, s)
         else
           (case read_passphrase (snprintf 600 (''Enter passphrase for key '' @ [APOS] @ sk_path @ [APOS] @ '': '')) 512 s of
              (rc, buf, s) \<Rightarrow> if rc \<noteq> 0 then (-1, s) else (0, shyake_set_passphrase (Some buf) s)))"

text \<open>The dialogue for a new passphrase, which \<open>cmd_init\<close> has too: None when it is given up.\<close>

definition new_passphrase_dialogue :: "string \<Rightarrow> 'a host_scheme \<Rightarrow> string option \<times> 'a host_scheme" where
  "new_passphrase_dialogue sk_path s0 =
     (let s = (if getenv ''SHYAKE_PASSPHRASE'' s0 = None then print_err (''Key: '' @ sk_path @ [NL]) s0 else s0)
      in case read_passphrase ''Enter passphrase (empty for no passphrase): '' 512 s of
           (rc1, pp1, s) \<Rightarrow>
             if rc1 \<noteq> 0 then (None, s)
             else if pp1 = [] then (Some [], s)
             else
               (case read_passphrase ''Enter same passphrase again: '' 512 s of
                  (rc2, pp2, s) \<Rightarrow>
                    if rc2 \<noteq> 0 then (None, s)
                    else if pp1 \<noteq> pp2 then (None, print_err (''Passphrases do not match.'' @ [NL]) s)
                    else (Some pp1, s)))"

definition prompt_new_passphrase :: "string \<Rightarrow> 'a host_scheme \<Rightarrow> int \<times> 'a host_scheme" where
  "prompt_new_passphrase dir s =
     (case new_passphrase_dialogue (snprintf 512 (dir @ ''/kem_sk.bin'')) s of
        (None, s) \<Rightarrow> (-1, s)
      | (Some pp, s) \<Rightarrow> (0, shyake_set_new_passphrase (Some pp) s))"

definition ask_yes :: "string \<Rightarrow> 'a host_scheme \<Rightarrow> bool \<times> 'a host_scheme" where
  "ask_yes question s =
     (if \<not> stdin_tty s \<or> tty_lines s = None then (False, s)
      else
        (case tty_gets 16 (tty_print question s) of
           (None, s) \<Rightarrow> (False, tty_print [NL] s)
         | (Some a, s) \<Rightarrow> (a \<noteq> [] \<and> (hd a = CHR ''y'' \<or> hd a = CHR ''Y''), s)))"

section \<open>First set-up\<close>

definition default_config :: string where
  "default_config = concat (map (\<lambda>l. l @ [NL])
     [''# shyake global configuration file'', [], ''INSTANCE='', ''USERNAME='', [],
      ''# Date & Time format (strftime format)'', ''# RECENT: less than 180 days old.'', ''# ISO 8601 format'',
      ''TIME_FORMAT='' @ [QUOTE] @ ''%Y-%m-%d %H:%M'' @ [QUOTE], ''# POSIX format'',
      ''# TIME_FORMAT='' @ [QUOTE] @ ''%b %d  %Y'' @ [QUOTE], ''# TIME_FORMAT_RECENT='' @ [QUOTE] @ ''%b %d %H:%M'' @ [QUOTE],
      [], ''# Time zone (default: auto)'', ''# Integer offset in hours: 0=UTC, 8=UTC+8, -6=UTC-6'', ''TIME_ZONE=auto'', [],
      ''# Display columns for `check` command'', ''CHECK_COLUMNS=id,sender,subject,size,date'', [],
      ''# Disable colors (1 = disable)'', ''# NO_COLOR=0'', [],
      ''# Editor for '' @ [APOS] @ ''shyake compose'' @ [APOS] @ '' (default: ed)'', ''# Falls back to $VISUAL, then $EDITOR'',
      ''# EDITOR='' @ [QUOTE] @ ''ed'' @ [QUOTE], [], ''# Default action when running without arguments'',
      ''# 0 = man, 1 = check inbox, 2 = check inbox --count'', ''DEFAULT_ACTION=0''])"

definition get_config_dir :: "'a host_scheme \<Rightarrow> string" where
  "get_config_dir s = (case getenv ''HOME'' s of Some h \<Rightarrow> h | None \<Rightarrow> home_dir s) @ ''/.config/shyake''"

definition make_dir :: "string \<Rightarrow> 'a world_scheme \<Rightarrow> bool \<times> 'a world_scheme" where
  "make_dir p w =
     (if path_exists w p then (True, w)
      else if mkdir_ok w p then (True, w\<lparr>dirs := dirs w @ [p]\<rparr>)
      else (False, w))"

fun make_dirs :: "string list \<Rightarrow> 'a world_scheme \<Rightarrow> int \<times> 'a world_scheme" where
  "make_dirs [] w = (0, w)"
| "make_dirs (p # ps) w = (case make_dir p w of (True, w) \<Rightarrow> make_dirs ps w | (False, w) \<Rightarrow> (-1, w))"

text \<open>The path up to every slash but a leading one, then the path itself.\<close>

definition mkdir_p :: "string \<Rightarrow> 'a world_scheme \<Rightarrow> int \<times> 'a world_scheme" where
  "mkdir_p path w =
     (let t = snprintf 512 path;
          tmp = (if t \<noteq> [] \<and> last t = CHR ''/'' then butlast t else t)
      in if t = [] then (-1, mark_ub w)
         else make_dirs (map (\<lambda>i. take i tmp) (filter (\<lambda>i. tmp ! i = CHR ''/'') [1..<length tmp]) @ [tmp]) w)"

definition write_default_config :: "string \<Rightarrow> 'a host_scheme \<Rightarrow> 'a host_scheme" where
  "write_default_config file s =
     (if path_exists s file then print_out (''Config file '' @ file @ '' already exists. Skipping.'' @ [NL]) s
      else (case write_file file (bytes_of default_config) s of
              (Some _, s) \<Rightarrow> print_out (''Created default config at '' @ file @ [NL]) s
            | (None, s) \<Rightarrow> print_err (''Init failed. Cannot create '' @ file @ ''.'' @ [NL]) s))"

text \<open>
  The same dialogue as above, except that a second line that cannot be read is compared too: the buffer
  is empty then, so the passphrases are reported as different.
\<close>

definition init_passphrase :: "string \<Rightarrow> 'a host_scheme \<Rightarrow> string option \<times> 'a host_scheme" where
  "init_passphrase sk_path s0 =
     (let s = (if getenv ''SHYAKE_PASSPHRASE'' s0 = None then print_err (''Key: '' @ sk_path @ [NL]) s0 else s0)
      in case read_passphrase ''Enter passphrase (empty for no passphrase): '' 512 s of
           (rc1, pp1, s) \<Rightarrow>
             if rc1 \<noteq> 0 then (None, s)
             else if pp1 = [] then (Some [], s)
             else
               (case read_passphrase ''Enter same passphrase again: '' 512 s of
                  (rc2, pp2, s) \<Rightarrow>
                    if rc2 \<noteq> 0 \<or> pp1 \<noteq> pp2 then
                      (None, if pp1 \<noteq> pp2 then print_err (''Passphrases do not match.'' @ [NL]) s else s)
                    else (Some pp1, s)))"

definition finish_init :: "ext \<Rightarrow> 'a host_scheme \<Rightarrow> int \<times> 'a host_scheme" where
  "finish_init E s =
     (case shyake_generate_keys E s of
        (rc, s) \<Rightarrow>
          (0, close_ctx (if rc = 0 then print_out (''Keys generated.'' @ [NL]) s
                         else print_err (''Init failed. Cannot generate keys.'' @ [NL]) s)))"

definition init_in_dir :: "ext \<Rightarrow> string \<Rightarrow> 'a host_scheme \<Rightarrow> int \<times> 'a host_scheme" where
  "init_in_dir E dir s0 =
     (let s1 = write_default_config (config_path dir) s0;
          s = open_ctx \<lparr>cf_instance_url = Some [], cf_config_dir = Some dir, cf_username = Some [], cf_plain = False,
                        cf_debug = False, cf_no_color = False\<rparr> s1
      in if \<not> path_exists s (snprintf 512 (dir @ ''/kem_pk.bin'')) \<or> \<not> path_exists s (snprintf 512 (dir @ ''/sig_pk.bin''))
         then
           (case init_passphrase (snprintf 512 (dir @ ''/kem_sk.bin'')) s of
              (None, s) \<Rightarrow> (1, close_ctx s)
            | (Some pp, s) \<Rightarrow> finish_init E (shyake_set_passphrase (Some pp) s))
         else finish_init E s)"

definition cmd_init :: "ext \<Rightarrow> string option \<Rightarrow> 'a host_scheme \<Rightarrow> int \<times> 'a host_scheme" where
  "cmd_init E given s0 =
     (let dir = (case given of Some d \<Rightarrow> d | None \<Rightarrow> get_config_dir s0)
      in if path_exists s0 dir then init_in_dir E dir s0
         else
           (case mkdir_p dir s0 of
              (rc, s) \<Rightarrow>
                if rc = -1 then
                  (1, print_err (''Init failed. Cannot create '' @ dir @ '' ('' @ mkdir_strerror s @ '').'' @ [NL]) s)
                else init_in_dir E dir s))"

end
