(* ===== verification/Update.thy ===== *)
theory Update
  imports Host "HOL-Library.Product_Lexorder"
begin

text \<open>
  \<open>cli/update.c\<close>: the order of versions, the published version and its checksum, the download and
  the installation. Proved: the comparison of versions is the order of their components with a
  release above its pre-releases, and nothing is installed whose SHA-256 is not the published one.
\<close>

section \<open>Versions\<close>

record ver =
  v_maj :: int
  v_min :: int
  v_pat :: int
  v_pre :: bool

text \<open>\<open>parse_ver\<close> of \<open>vX.Y.Z\<close> or \<open>vX.Y.Z-anything\<close>; what is missing is 0.\<close>

definition parse_ver :: "string option \<Rightarrow> ver" where
  "parse_ver s =
     (case s of
        None \<Rightarrow> \<lparr>v_maj = 0, v_min = 0, v_pat = 0, v_pre = False\<rparr>
      | Some [] \<Rightarrow> \<lparr>v_maj = 0, v_min = 0, v_pat = 0, v_pre = False\<rparr>
      | Some (c # cs) \<Rightarrow>
          (let p = (if c = CHR ''v'' then cs else c # cs)
           in case snd (split_at (CHR ''.'') p) of
                None \<Rightarrow> \<lparr>v_maj = atoi p, v_min = 0, v_pat = 0, v_pre = False\<rparr>
              | Some q \<Rightarrow>
                  (case snd (split_at (CHR ''.'') q) of
                     None \<Rightarrow> \<lparr>v_maj = atoi p, v_min = atoi q, v_pat = 0, v_pre = False\<rparr>
                   | Some r \<Rightarrow>
                       \<lparr>v_maj = atoi p, v_min = atoi q, v_pat = atoi r, v_pre = CHR ''-'' \<in> set r\<rparr>)))"

text \<open>The difference of two \<open>int\<close>s, undefined when it does not fit.\<close>

definition int_sub :: "int \<Rightarrow> int \<Rightarrow> int mem" where
  "int_sub a b = (if INT_MIN \<le> a - b \<and> a - b \<le> INT_MAX then Ok (a - b) else Ub)"

definition cli_version_cmp :: "string option \<Rightarrow> string option \<Rightarrow> int mem" where
  "cli_version_cmp a b =
     (let x = parse_ver a; y = parse_ver b
      in if v_maj x \<noteq> v_maj y then int_sub (v_maj x) (v_maj y)
         else if v_min x \<noteq> v_min y then int_sub (v_min x) (v_min y)
         else if v_pat x \<noteq> v_pat y then int_sub (v_pat x) (v_pat y)
         else if v_pre x \<noteq> v_pre y then Ok (if v_pre x then -1 else 1)
         else Ok 0)"

section \<open>The published version\<close>

fun platform_artifact :: "platform \<Rightarrow> string" where
  "platform_artifact Darwin_arm64 = ''shyake-darwin-arm64''"
| "platform_artifact Darwin_x86_64 = ''shyake-darwin-x86_64''"
| "platform_artifact Linux_aarch64 = ''shyake-linux-aarch64''"
| "platform_artifact Linux_x86_64 = ''shyake-linux-x86_64''"

definition asset_name :: "platform \<Rightarrow> string" where
  "asset_name p = snprintf 64 (platform_artifact p @ ''.tar.gz'')"

definition extract_digest :: "json \<Rightarrow> string \<Rightarrow> string \<Rightarrow> string option" where
  "extract_digest json key asset =
     (case Option.bind (get_object_item json key) (\<lambda>digests. get_object_item digests asset) of
        Some (JStr v) \<Rightarrow> Some (if prefix ''sha256:'' v then drop 7 v else v)
      | _ \<Rightarrow> None)"

record version_info =
  vi_release :: "string option"
  vi_pre_release :: "string option"
  vi_release_digest :: "string option"
  vi_pre_release_digest :: "string option"

definition string_member :: "json \<Rightarrow> string \<Rightarrow> string option" where
  "string_member j k = (case get_object_item j k of Some (JStr v) \<Rightarrow> Some v | _ \<Rightarrow> None)"

definition cli_get_latest_version ::
  "ext \<Rightarrow> string option \<Rightarrow> 'a host_scheme \<Rightarrow> version_info option \<times> 'a host_scheme" where
  "cli_get_latest_version E version_url s =
     (case version_url of
        None \<Rightarrow> (None, s)
      | Some url \<Rightarrow>
          (case http_call (http_get url []) s of
             (Http code body, s) \<Rightarrow>
               (if code = 200 then
                  (case cjson_parse E body of
                     None \<Rightarrow> (None, s)
                   | Some j \<Rightarrow>
                       (Some \<lparr>vi_release = string_member j ''release'',
                          vi_pre_release = string_member j ''pre_release'',
                          vi_release_digest = extract_digest j ''release_digests'' (asset_name (platform s)),
                          vi_pre_release_digest = extract_digest j ''pre_release_digests'' (asset_name (platform s))\<rparr>, s))
                else (None, s))
           | (_, s) \<Rightarrow> (None, s)))"

section \<open>Download and check\<close>

text \<open>The body goes to the file as it comes; \<open>fwrite\<close> taking less than it was given is an error of the transfer.\<close>

definition http_to_file :: "request \<Rightarrow> string \<Rightarrow> nat \<Rightarrow> 'a world_scheme \<Rightarrow> bool \<times> 'a world_scheme" where
  "http_to_file rq path cap w =
     (case replies w of
        Http code body # rs \<Rightarrow>
          (code = 200 \<and> length body \<le> cap,
           fs_put path (take cap (bytes_of body)) (w\<lparr>replies := rs, requests := requests w @ [rq]\<rparr>))
      | rs \<Rightarrow> (False, fs_put path [] (w\<lparr>replies := drop 1 rs, requests := requests w @ [rq]\<rparr>)))"

definition download_to_tmp :: "string \<Rightarrow> string \<Rightarrow> 'a world_scheme \<Rightarrow> string option \<times> 'a world_scheme" where
  "download_to_tmp url filename w =
     (let tmp_path = snprintf 256 (''/tmp/'' @ filename)
      in case curl_init w of
           (False, w) \<Rightarrow> (None, w)
         | (True, w) \<Rightarrow>
             (case disk w tmp_path of
                None \<Rightarrow> (None, w)
              | Some cap \<Rightarrow>
                  (case http_to_file (http_get url []) tmp_path cap w of
                     (True, w) \<Rightarrow> (Some tmp_path, w)
                   | (False, w) \<Rightarrow> (None, fs_del tmp_path w))))"

definition verify_sha256 :: "ext \<Rightarrow> string \<Rightarrow> string option \<Rightarrow> 'a world_scheme \<Rightarrow> int" where
  "verify_sha256 E path expected_hex w =
     (case expected_hex of
        None \<Rightarrow> -1
      | Some h \<Rightarrow>
          if length h \<noteq> 64 then -1
          else (case fs_get w path of
                  None \<Rightarrow> -1
                | Some d \<Rightarrow> if same_nocase h (hex_of (sha256 E d)) then 0 else -1))"

section \<open>Updating\<close>

datatype channel = Stable | Preview

definition channel_name :: "channel \<Rightarrow> string" where
  "channel_name ch = (case ch of Preview \<Rightarrow> ''preview'' | Stable \<Rightarrow> ''stable'')"

definition channel_target :: "channel \<Rightarrow> version_info \<Rightarrow> string option" where
  "channel_target ch v = (case ch of Preview \<Rightarrow> vi_pre_release v | Stable \<Rightarrow> vi_release v)"

definition channel_digest :: "channel \<Rightarrow> version_info \<Rightarrow> string option" where
  "channel_digest ch v = (case ch of Preview \<Rightarrow> vi_pre_release_digest v | Stable \<Rightarrow> vi_release_digest v)"

definition update_fails :: "string \<Rightarrow> 'a host_scheme \<Rightarrow> int \<times> 'a host_scheme" where
  "update_fails msg s = (-1, print_err (''Update failed. '' @ msg @ [NL]) s)"

text \<open>The running binary: the kernel's answer, else the first line of \<open>which shyake\<close>.\<close>

definition self_path :: "'a host_scheme \<Rightarrow> string" where
  "self_path s =
     (if self_exe s \<noteq> [] then take 511 (self_exe s)
      else (case fgets_all 512 (which_shyake s) of
              [] \<Rightarrow> []
            | l # _ \<Rightarrow> if l \<noteq> [] \<and> last l = NL then butlast l else l))"

definition install_cmd :: "string \<Rightarrow> string \<Rightarrow> string \<Rightarrow> string" where
  "install_cmd tar_path artifact self =
     ''tar xzf '' @ [APOS] @ tar_path @ [APOS] @ '' -C /tmp && cp '' @ [APOS] @ ''/tmp/'' @ artifact @ ''/shyake'' @ [APOS]
     @ '' '' @ [APOS] @ self @ [APOS] @ '' && chmod 755 '' @ [APOS] @ self @ [APOS]
     @ '' && rm -rf '' @ [APOS] @ ''/tmp/'' @ artifact @ [APOS]"

definition install_release :: "string \<Rightarrow> string \<Rightarrow> 'a host_scheme \<Rightarrow> int \<times> 'a host_scheme" where
  "install_release tar_path target s =
     (let self = self_path s
      in if self = [] then update_fails ''Cannot find the shyake binary.'' (fs_del tar_path s)
         else
           (let cmd = install_cmd tar_path (platform_artifact (platform s)) self
            in if length cmd \<ge> 1024 then
                 update_fails ''The install path is too long. Reinstall manually.'' (fs_del tar_path s)
               else case run_shell cmd s of
                 (st, s) \<Rightarrow>
                   (if st \<noteq> 0 then update_fails ''Cannot install the new binary.'' (fs_del tar_path s)
                    else (0, print_out (''Updated to '' @ snprintf 64 target @ ''.'' @ [NL]) (fs_del tar_path s)))))"

definition release_url :: "string \<Rightarrow> string \<Rightarrow> string" where
  "release_url target asset =
     snprintf 512 (''https://github.com/salmonization/shyake/releases/download/'' @ target @ ''/'' @ asset)"

definition fetch_release ::
  "ext \<Rightarrow> string \<Rightarrow> string option \<Rightarrow> 'a host_scheme \<Rightarrow> int \<times> 'a host_scheme" where
  "fetch_release E target digest s =
     (let asset = asset_name (platform s);
          dl_url = release_url target asset
      in case download_to_tmp dl_url asset (print_err (''Downloading '' @ target @ '' '' @ asset @ ''...'' @ [NL]) s) of
           (None, s) \<Rightarrow> update_fails ''Cannot download the release.'' s
         | (Some tar_path, s) \<Rightarrow>
             if verify_sha256 E tar_path digest s \<noteq> 0
             then update_fails ''The download does not match its checksum.'' (fs_del tar_path s)
             else install_release tar_path target s)"

definition cli_self_update ::
  "ext \<Rightarrow> string option \<Rightarrow> string option \<Rightarrow> channel \<Rightarrow> 'a host_scheme \<Rightarrow> int \<times> 'a host_scheme" where
  "cli_self_update E version_url current_version ch s =
     (case cli_get_latest_version E version_url s of
        (None, s) \<Rightarrow> update_fails ''Cannot get the latest version.'' s
      | (Some info, s) \<Rightarrow>
          if vi_release info = None then update_fails ''Stable release not found.'' s
          else
            (case channel_target ch info of
               None \<Rightarrow> update_fails (''Release not found on the '' @ channel_name ch @ '' channel.'') s
             | Some target \<Rightarrow>
                 (case (if ch = Preview then cli_version_cmp (vi_pre_release info) (vi_release info) else Ok 1) of
                    Ok c \<Rightarrow>
                      (if c \<le> 0 then update_fails ''No preview release is newer than stable.'' s
                       else if current_version = Some target then
                         (0, print_out (''Already on the latest '' @ channel_name ch @ '' release.'' @ [NL]) s)
                       else if channel_digest ch info = None then
                         update_fails ''The release has no checksum for this platform.'' s
                       else fetch_release E target (channel_digest ch info) s)
                  | _ \<Rightarrow> (-1, mark_ub s))))"

section \<open>Lemmas\<close>

text \<open>The components as they are compared; a release is above its pre-releases.\<close>

definition ver_key :: "string option \<Rightarrow> int \<times> int \<times> int \<times> bool" where
  "ver_key s = (let v = parse_ver s in (v_maj v, v_min v, v_pat v, \<not> v_pre v))"

definition ver_ok :: "string option \<Rightarrow> bool" where
  "ver_ok s \<longleftrightarrow> (let v = parse_ver s in 0 \<le> v_maj v \<and> 0 \<le> v_min v \<and> 0 \<le> v_pat v)"

definition version_diff :: "string option \<Rightarrow> string option \<Rightarrow> int" where
  "version_diff a b = (case cli_version_cmp a b of Ok c \<Rightarrow> c | _ \<Rightarrow> 0)"

lemma atoi_bounds: "INT_MIN \<le> atoi x" "atoi x \<le> INT_MAX"
  using signed_take_bit_int_less_exp [of 31 "atol x"] signed_take_bit_int_greater_eq_minus_exp [of 31 "atol x"]
  by (simp_all add: atoi_def INT_MIN_def INT_MAX_def)

lemma parse_ver_bounds:
  "v_maj (parse_ver s) \<le> INT_MAX" "v_min (parse_ver s) \<le> INT_MAX" "v_pat (parse_ver s) \<le> INT_MAX"
proof -
  have "0 \<le> INT_MAX" by (simp add: INT_MAX_def)
  then show "v_maj (parse_ver s) \<le> INT_MAX" "v_min (parse_ver s) \<le> INT_MAX" "v_pat (parse_ver s) \<le> INT_MAX"
    using atoi_bounds(2) by (auto simp: parse_ver_def Let_def split: option.splits list.splits)
qed

lemma int_sub_ok: "0 \<le> a \<Longrightarrow> 0 \<le> b \<Longrightarrow> a \<le> INT_MAX \<Longrightarrow> b \<le> INT_MAX \<Longrightarrow> int_sub a b = Ok (a - b)"
  by (simp add: int_sub_def INT_MIN_def INT_MAX_def)

lemma version_cmp_ok: "ver_ok a \<Longrightarrow> ver_ok b \<Longrightarrow> cli_version_cmp a b = Ok (version_diff a b)"
  by (simp add: version_diff_def cli_version_cmp_def Let_def ver_ok_def int_sub_ok parse_ver_bounds)

interpretation version_order: comparison version_diff ver_ok ver_key
proof unfold_locales
  fix a b :: "string option"
  assume "ver_ok a" "ver_ok b"
  then show "sgn (version_diff a b) = (if ver_key a < ver_key b then - 1 else if ver_key a = ver_key b then 0 else 1)"
    by (auto simp: version_diff_def cli_version_cmp_def Let_def ver_ok_def int_sub_ok parse_ver_bounds ver_key_def sgn_if)
qed

lemma get_latest_frame:
  fixes s s1 :: "'a host_scheme"
  assumes "cli_get_latest_version E url s = (v, s1)"
  shows "shell_log s1 = shell_log s \<and> platform s1 = platform s \<and> files s1 = files s"
proof -
  have "shell_log t = shell_log s \<and> platform t = platform s \<and> files t = files s" if "http_call rq s = (r, t)" for rq r and t :: "'a host_scheme"
    using that by (auto simp: http_call_def split: list.splits http_reply.splits)
  with assms show ?thesis
    by (auto simp: cli_get_latest_version_def split: option.splits prod.splits http_reply.splits if_splits)
qed

lemma download_frame:
  fixes w w' :: "'a host_scheme"
  assumes "download_to_tmp url f w = (p, w')"
  shows "shell_log w' = shell_log w \<and> platform w' = platform w"
  using assms
  by (auto simp: download_to_tmp_def Let_def curl_init_def http_to_file_def fs_put_def fs_del_def
      split: option.splits prod.splits bool.splits list.splits http_reply.splits)

lemma download_Some:
  assumes "download_to_tmp url f w = (Some p, w')"
  shows "p = snprintf 256 (''/tmp/'' @ f) \<and>
     (\<exists>body rs. replies w = Http 200 body # rs \<and> fs_get w' p = Some (bytes_of body))"
  using assms
  by (auto simp: download_to_tmp_def Let_def curl_init_def http_to_file_def store_simps
      split: option.splits prod.splits bool.splits list.splits http_reply.splits)

lemma verify_0:
  "verify_sha256 E p h w = 0 \<longleftrightarrow>
     (\<exists>x d. h = Some x \<and> length x = 64 \<and> fs_get w p = Some d \<and> same_nocase x (hex_of (sha256 E d)))"
  by (auto simp: verify_sha256_def split: option.splits)

lemma update_fails_frame: "update_fails m s = (r, s') \<Longrightarrow> shell_log s' = shell_log s \<and> r = -1"
  by (auto simp: update_fails_def)

lemma install_log:
  assumes "install_release tar target s = (r, s')"
  shows "shell_log s' = shell_log s \<or>
    shell_log s' = shell_log s @ [install_cmd tar (platform_artifact (platform s)) (self_path s)]"
  using assms
  by (auto simp: install_release_def Let_def dest!: update_fails_frame run_shell_log split: if_splits prod.splits)

section \<open>Properties\<close>

text \<open>On versions with components that are not negative, \<open>cli_version_cmp\<close> is defined (no subtraction
  overflows) and its sign is the order of major, minor and patch level, a release above its
  pre-releases; it is a total preorder.\<close>

theorem version_cmp_order:
  assumes "ver_ok a" and "ver_ok b"
  shows "\<exists>c d. cli_version_cmp a b = Ok c \<and> cli_version_cmp b a = Ok d \<and>
     (c > 0 \<longleftrightarrow> ver_key b < ver_key a) \<and> (c = 0 \<longleftrightarrow> ver_key a = ver_key b) \<and> sgn d = - sgn c"
  using version_cmp_ok [OF assms] version_cmp_ok [OF assms(2,1)] version_order.cmp_gt [OF assms]
    version_order.cmp_zero [OF assms] version_order.cmp_swap [OF assms] by blast

theorem version_cmp_order_witness:
  "\<exists>c d. cli_version_cmp (Some ''v0.4.0'') (Some ''v0.4.0-rc1'') = Ok c \<and>
     cli_version_cmp (Some ''v0.4.0-rc1'') (Some ''v0.4.0'') = Ok d \<and> c > 0 \<and> d < 0"
proof -
  have a: "atoi ''0.4.0'' = 0" "atoi ''4.0'' = 4" "atoi ''0'' = 0" "atoi ''0.4.0-rc1'' = 0" "atoi ''4.0-rc1'' = 4"
      "atoi ''0-rc1'' = 0"
    by (simp_all add: atoi_def atol_def read_nat_def is_digit_def digit_val_def is_space_def char_consts LONG_MAX_def
        signed_take_bit_int_eq_self)
  have p: "parse_ver (Some ''v0.4.0'') = \<lparr>v_maj = 0, v_min = 4, v_pat = 0, v_pre = False\<rparr>"
    "parse_ver (Some ''v0.4.0-rc1'') = \<lparr>v_maj = 0, v_min = 4, v_pat = 0, v_pre = True\<rparr>"
    by (simp_all add: parse_ver_def a)
  then have "ver_ok (Some ''v0.4.0'')" "ver_ok (Some ''v0.4.0-rc1'')"
    "ver_key (Some ''v0.4.0-rc1'') < ver_key (Some ''v0.4.0'')"
    by (simp_all add: ver_ok_def ver_key_def)
  with version_cmp_order [of "Some ''v0.4.0''" "Some ''v0.4.0-rc1''"] show ?thesis
    by (auto simp: sgn_if split: if_splits)
qed

text \<open>C9. Nothing is installed unverified: when \<open>cli_self_update\<close> runs a command at all, it is the one
  install command, what was downloaded is a complete answer of status 200 whose SHA-256 is the
  checksum published for that channel and platform, and a preview is newer than the release.\<close>

theorem update_installs_verified:
  fixes s s' :: "'a host_scheme"
  assumes "cli_self_update E url cur ch s = (r, s')" and "shell_log s' \<noteq> shell_log s"
  shows "\<exists>info s1 target h body rs self. cli_get_latest_version E url s = (Some info, s1) \<and>
     channel_target ch info = Some target \<and> cur \<noteq> Some target \<and> channel_digest ch info = Some h \<and>
     replies s1 = Http 200 body # rs \<and> length h = 64 \<and> same_nocase h (hex_of (sha256 E (bytes_of body))) \<and>
     (ch = Preview \<longrightarrow> (\<exists>c. cli_version_cmp (vi_pre_release info) (vi_release info) = Ok c \<and> 0 < c)) \<and>
     shell_log s' = shell_log s @
       [install_cmd (snprintf 256 (''/tmp/'' @ asset_name (platform s))) (platform_artifact (platform s)) self]"
proof -
  obtain v s1 where v: "cli_get_latest_version E url s = (v, s1)" by (metis surj_pair)
  note fr = get_latest_frame [OF v]
  obtain info target h where i: "v = Some info" "channel_target ch info = Some target" "cur \<noteq> Some target"
      "channel_digest ch info = Some h"
    and pre: "ch = Preview \<longrightarrow> (\<exists>c. cli_version_cmp (vi_pre_release info) (vi_release info) = Ok c \<and> 0 < c)"
    and go: "fetch_release E target (Some h) s1 = (r, s')"
    using assms fr
    by (auto simp: cli_self_update_def v dest!: update_fails_frame split: option.splits if_splits mem.splits)
  define t where "t = print_err (''Downloading '' @ target @ '' '' @ asset_name (platform s1) @ ''...'' @ [NL]) s1"
  have t: "shell_log t = shell_log s" "platform t = platform s" "replies t = replies s1"
    using fr by (simp_all add: t_def print_err_def)
  obtain p u where d: "download_to_tmp (release_url target (asset_name (platform s1))) (asset_name (platform s1)) t = (p, u)"
    by (metis surj_pair)
  note df = download_frame [OF d]
  obtain q where q: "p = Some q" "verify_sha256 E q (Some h) u = 0" "install_release q target u = (r, s')"
  proof -
    note g = go [unfolded fetch_release_def Let_def, folded t_def, unfolded d prod.case]
    show thesis
    proof (cases p)
      case None
      from update_fails_frame [OF g [unfolded None option.case]] df t assms(2) show thesis by simp
    next
      case (Some q)
      note g' = g [unfolded Some option.case]
      have ne: "shell_log s' \<noteq> shell_log u" using df t assms(2) by simp
      have v: "verify_sha256 E q (Some h) u = 0"
      proof (rule ccontr)
        assume "verify_sha256 E q (Some h) u \<noteq> 0"
        then have "update_fails ''The download does not match its checksum.'' (fs_del q u) = (r, s')"
          using g' by (simp only: simp_thms if_True)
        from update_fails_frame [OF this] ne show False by simp
      qed
      with g' that [OF Some v] show thesis by (simp only: simp_thms if_False)
    qed
  qed
  from download_Some [OF d [unfolded q(1)]] obtain body rs where b: "q = snprintf 256 (''/tmp/'' @ asset_name (platform s1))"
    "replies t = Http 200 body # rs" "fs_get u q = Some (bytes_of body)" by auto
  have "length h = 64" "same_nocase h (hex_of (sha256 E (bytes_of body)))" using q(2) b(3) by (auto simp: verify_0)
  moreover have "shell_log s' = shell_log s @ [install_cmd q (platform_artifact (platform s)) (self_path u)]"
    using install_log [OF q(3)] df t assms(2) by auto
  ultimately show ?thesis using v i pre b t fr by (intro exI conjI) auto
qed

text \<open>A machine whose server publishes v2 with the checksum of a file of one byte.\<close>

definition update_world :: host where
  "update_world = cli.extend (sys.extend (sys0\<lparr>replies := [Http 200 ''info'', Http 200 ''x'']\<rparr>) (cli.fields []))
     (host.fields Linux_x86_64 [] ''/root'' None [] False [] False None False False (\<lambda>c fs. (fs, 0)) []
        ''/usr/bin/shyake'' [] (\<lambda>t. None) [] ''v1.0.0'' (\<lambda>so lo args. ([], args)))"

definition update_provider :: ext where
  "update_provider = toy_reply (JObj [(''release'', JStr ''v2.0.0''), (''release_digests'',
     JObj [(''shyake-linux-x86_64.tar.gz'', JStr (''sha256:'' @ hex_of (pad_to 32 (bytes_of ''x''))))])])"

lemma update_world_sel [simp]:
  "replies update_world = [Http 200 ''info'', Http 200 ''x'']" "disk update_world = (\<lambda>_. Some 1000)"
  "platform update_world = Linux_x86_64" "shell_log update_world = []" "self_exe update_world = ''/usr/bin/shyake''"
  "files update_world = []" "requests update_world = []" "shell update_world = (\<lambda>c fs. (fs, 0))"
  by (simp_all add: update_world_def host.defs cli.defs sys.defs)

theorem update_installs_verified_witness:
  "\<exists>s' h cmd. cli_self_update update_provider (Some ''http://h/v'') (Some ''v1.0.0'') Stable update_world = (0, s') \<and>
     shell_log s' = [cmd] \<and> length h = 64 \<and> same_nocase h (hex_of (sha256 update_provider (bytes_of ''x'')))"
proof -
  have sha: "sha256 update_provider d = pad_to 32 d" for d
    by (simp add: update_provider_def toy_reply_def toy_simps)
  have as: "asset_name Linux_x86_64 = ''shyake-linux-x86_64.tar.gz''" by (simp add: asset_name_def)
  define h where "h = hex_of (pad_to 32 (bytes_of ''x''))"
  define v where "v = \<lparr>vi_release = Some ''v2.0.0'', vi_pre_release = None, vi_release_digest = Some h,
     vi_pre_release_digest = None\<rparr>"
  define s1 where "s1 = update_world\<lparr>replies := [Http 200 ''x''], requests := [http_get ''http://h/v'' []]\<rparr>"
  have latest: "cli_get_latest_version update_provider (Some ''http://h/v'') update_world = (Some v, s1)"
    by (simp add: cli_get_latest_version_def http_call_def update_provider_def toy_reply_laws string_member_def
        extract_digest_def as same_nocase_def lower_c_def s1_def v_def h_def)
  have sp: "self_path t = ''/usr/bin/shyake''" if "self_exe t = ''/usr/bin/shyake''" for t :: host
    using that by (simp add: self_path_def)
  have dl: "download_to_tmp u f (print_err m s1) = (Some (snprintf 256 (''/tmp/'' @ f)),
      fs_put (snprintf 256 (''/tmp/'' @ f)) (bytes_of ''x'') (print_err m s1\<lparr>replies := [], requests := requests s1 @ [http_get u []]\<rparr>))" for u f m
    by (simp add: download_to_tmp_def curl_init_def http_to_file_def s1_def print_err_def Let_def)
  have ver: "verify_sha256 update_provider p (Some h) (fs_put p (bytes_of ''x'') t) = 0" for p and t :: host
    by (simp add: verify_sha256_def store_simps sha h_def same_nocase_def)
  have ins: "\<exists>s'. install_release p (''v2.0.0'') t = (0, s') \<and> (\<exists>cmd. shell_log s' = [cmd])"
    if "shell_log t = []" "self_exe t = ''/usr/bin/shyake''" "platform t = Linux_x86_64" "shell t = (\<lambda>c fs. (fs, 0))"
      "length p < 256" for p and t :: host
    using that by (simp add: install_release_def sp install_cmd_def run_shell_def)
  have "\<exists>s'. fetch_release update_provider ''v2.0.0'' (Some h) s1 = (0, s') \<and> (\<exists>cmd. shell_log s' = [cmd])"
    unfolding fetch_release_def Let_def dl prod.case option.case
    by (simp only: ver simp_thms if_False) (rule ins, simp_all add: s1_def print_err_def fs_put_def length_snprintf)
  then have run: "\<exists>s' cmd. cli_self_update update_provider (Some ''http://h/v'') (Some ''v1.0.0'') Stable update_world = (0, s') \<and>
      shell_log s' = [cmd]"
    by (auto simp: cli_self_update_def latest v_def channel_target_def channel_digest_def)
  then obtain s' cmd where r: "cli_self_update update_provider (Some ''http://h/v'') (Some ''v1.0.0'') Stable update_world = (0, s')"
      "shell_log s' = [cmd]" by blast
  have "shell_log s' \<noteq> shell_log update_world" using r(2) by simp
  from update_installs_verified [OF r(1) this] latest have "length h = 64 \<and>
      same_nocase h (hex_of (sha256 update_provider (bytes_of ''x'')))"
    by (auto simp: v_def s1_def channel_digest_def)
  with r show ?thesis by blast
qed

end
