(* ===== verification/Compose.thy ===== *)
theory Compose
  imports Prompt Update
begin

text \<open>
  Writing mail (\<open>cli/main.c\<close> before \<open>main\<close>): the template of a draft and what is read back from it, the
  editor that is run on it with the quoted mail above a scissors line, the draft that is saved, the
  offer to send a reply, and the sentences every command reports its failures with. The editor is the
  shell of \<open>host\<close>.
\<close>

section \<open>Reports\<close>

definition print_failure :: "string \<Rightarrow> string option \<Rightarrow> 'a world_scheme \<Rightarrow> 'a world_scheme" where
  "print_failure action reason w =
     (case reason of
        Some r \<Rightarrow> if r \<noteq> [] then print_err (action @ '' '' @ r @ [NL]) w else print_err (action @ [NL]) w
      | None \<Rightarrow> print_err (action @ [NL]) w)"

definition print_lib_error :: "string \<Rightarrow> 'a sys_scheme \<Rightarrow> 'a sys_scheme" where
  "print_lib_error action s = print_failure action (Some (last_error s)) s"

definition print_drafts_error :: "string \<Rightarrow> 'a cli_scheme \<Rightarrow> 'a cli_scheme" where
  "print_drafts_error action s = print_failure action (Some (cli_drafts_last_error s)) s"

definition print_send_error :: "shyake_err \<Rightarrow> string \<Rightarrow> 'a sys_scheme \<Rightarrow> 'a sys_scheme" where
  "print_send_error ret recipient s =
     (if ret \<noteq> SHYAKE_ERR_KEY_MISMATCH then print_lib_error ''Send failed.'' s
      else print_err (''FATAL: '' @ last_error s @ [NL] @ ''Run '' @ [APOS] @ ''shyake fingerprint '' @ recipient @ [APOS]
             @ '' to check the new key.'' @ [NL]) s)"

text \<open>The RE: line of a reply.\<close>

definition describe_reply :: "ext \<Rightarrow> mail_detail \<Rightarrow> 'a sys_scheme \<Rightarrow> string option \<times> 'a sys_scheme" where
  "describe_reply E d s =
     (case md_reply_ref d of
        None \<Rightarrow> (None, s)
      | Some r \<Rightarrow>
          (case shyake_find_ref E (Some r) s of
             ((None, _), s) \<Rightarrow> (Some ''(unavailable)'', s)
           | ((Some i, saved), s) \<Rightarrow> (Some (if saved then i @ '' (saved)'' else i), s)))"

text \<open>An error that a retry of the send cannot cure.\<close>

definition no_retry :: "shyake_err \<Rightarrow> bool" where
  "no_retry ret \<longleftrightarrow> ret = SHYAKE_ERR_BLOCKED \<or> ret = SHYAKE_ERR_GONE \<or> ret = SHYAKE_ERR_NOT_FOUND"

definition rescue_draft ::
    "ext \<Rightarrow> string \<Rightarrow> string option \<Rightarrow> string option \<Rightarrow> string option \<Rightarrow> u8 list \<Rightarrow> bool \<Rightarrow> 'a cli_scheme \<Rightarrow> 'a cli_scheme" where
  "rescue_draft E dir recipient subject reply_ref body retry s =
     (case cli_save_draft E (Some dir) recipient subject reply_ref (Some body) None s of
        (rc, new_id, s) \<Rightarrow>
          if rc \<noteq> SHYAKE_OK then print_drafts_error ''Draft save failed.'' s
          else
            (case new_id of
               Some i \<Rightarrow>
                 if retry then
                   print_out (''Saved as draft '' @ i @ ''. Retry with: shyake send -d '' @ i @ [NL]) s
                 else print_out (''Saved as draft '' @ i @ ''.'' @ [NL]) s
             | None \<Rightarrow> print_out (''Saved as a draft.'' @ [NL]) s))"

section \<open>Subjects\<close>

definition subject_problem :: "string option \<Rightarrow> string option" where
  "subject_problem subject =
     (case subject of
        None \<Rightarrow> Some ''The subject cannot be empty.''
      | Some t \<Rightarrow>
          if t = [] then Some ''The subject cannot be empty.''
          else if length t > 128 then Some ''The subject cannot exceed 128 bytes.''
          else if list_ex (\<lambda>c. \<not> is_space c) t then None
          else Some ''The subject cannot be only whitespace.'')"

text \<open>Back to the first byte of a code point, not before \<open>lo\<close>.\<close>

fun code_point_start :: "string \<Rightarrow> nat \<Rightarrow> nat \<Rightarrow> nat" where
  "code_point_start t lo 0 = 0"
| "code_point_start t lo (Suc n) =
     (if Suc n > lo \<and> byte_int (t ! Suc n) AND 0xC0 = 0x80 then code_point_start t lo n else Suc n)"

definition reply_subject :: "string \<Rightarrow> string" where
  "reply_subject orig =
     (let pre = (if same_nocase (take 3 orig) ''Re:'' then '''' else ''Re: '');
          t = pre @ orig
      in if length t > 128 then take (code_point_start t (length pre) 128) t else t)"

section \<open>The template\<close>

text \<open>Recipient and subject found so far, and the text from the current line on.\<close>

function parse_header ::
    "string option \<Rightarrow> string option \<Rightarrow> string \<Rightarrow> (string option \<times> string option \<times> string) option" where
  "parse_header to subject s =
     (case split_at NL s of
        (line, after) \<Rightarrow>
          (let t = trim_whitespace line
           in if t = ''---'' then Some (to, subject, case after of Some r \<Rightarrow> r | None \<Rightarrow> [])
              else
                (let to' = (if prefix ''To:'' t then Some (trim_whitespace (drop 3 t)) else to);
                     subject' = (if \<not> prefix ''To:'' t \<and> prefix ''Subject:'' t
                                 then Some (trim_whitespace (drop 8 t)) else subject)
                 in case after of Some r \<Rightarrow> parse_header to' subject' r | None \<Rightarrow> None)))"
  by pat_completeness auto
termination by (relation "measure (\<lambda>(t, sb, s). length s)") (auto dest: split_at_shorter [OF sym])

declare parse_header.simps [simp del]

definition parse_compose_buffer :: "string \<Rightarrow> (string option \<times> string option \<times> string) option" where
  "parse_compose_buffer buf = parse_header None None buf"

section \<open>The editor\<close>

text \<open>The text after the last slash.\<close>

definition base_name :: "string \<Rightarrow> string" where
  "base_name editor = rev (takeWhile (\<lambda>c. c \<noteq> CHR ''/'') (rev editor))"

definition is_vim :: "string \<Rightarrow> bool" where
  "is_vim editor \<longleftrightarrow> base_name editor = ''vim'' \<or> base_name editor = ''nvim''"

definition takes_plus_line :: "string \<Rightarrow> bool" where
  "takes_plus_line base \<longleftrightarrow>
     base \<in> set [''vi'', ''vim.tiny'', ''nano'', ''pico'', ''emacs'', ''mg'', ''micro'', ''joe'']"

definition quoted :: "string \<Rightarrow> string" where
  "quoted t = [APOS] @ t @ [APOS]"

definition vim_flags :: string where
  "vim_flags = '' -n -i NONE --cmd '' @ quoted ''set noundofile nobackup nowritebackup''"

definition editor_cmd :: "string \<Rightarrow> string \<Rightarrow> string option \<Rightarrow> int \<Rightarrow> string" where
  "editor_cmd editor path beside line =
     (let base = base_name editor;
          at = (if line > 0 \<and> (is_vim editor \<or> takes_plus_line base) then snprintf 32 ('' +'' @ show_int line) else []);
          alone = (if is_vim editor then editor @ vim_flags @ at @ '' '' @ quoted path
                   else if base = ''vim.tiny'' then editor @ '' -n -i NONE'' @ at @ '' '' @ quoted path
                   else editor @ at @ '' '' @ quoted path)
      in snprintf 2048
           (case beside of
              Some b \<Rightarrow>
                if is_vim editor then
                  editor @ vim_flags @ '' -O '' @ quoted b @ '' '' @ quoted path @ '' -c ''
                  @ quoted ''setlocal readonly nomodifiable'' @ '' -c '' @ quoted ''wincmd l'' @ '' -c ''
                  @ quoted (''call cursor('' @ show_int (if line > 0 then line else 1) @ '', 1)'')
                else alone
            | None \<Rightarrow> alone))"

definition launch_editor :: "string \<Rightarrow> string \<Rightarrow> string option \<Rightarrow> int \<Rightarrow> 'a host_scheme \<Rightarrow> int \<times> 'a host_scheme" where
  "launch_editor editor path beside line s = run_shell (editor_cmd editor path beside line) s"

text \<open>The file is overwritten with zeros before it is removed; what is left of it is nothing.\<close>

definition shred_and_unlink :: "string \<Rightarrow> 'a world_scheme \<Rightarrow> 'a world_scheme" where
  "shred_and_unlink path w = fs_del path w"

text \<open>A file of \<open>mkstemp\<close>; what \<open>fputs\<close> returns is not looked at.\<close>

definition write_temp :: "string \<Rightarrow> string \<Rightarrow> string \<Rightarrow> 'a host_scheme \<Rightarrow> string option \<times> 'a host_scheme" where
  "write_temp dir name t s =
     (case temp_name s (snprintf 640 (dir @ ''/.'' @ name @ ''-XXXXXX'')) of
        None \<Rightarrow> (None, s)
      | Some path \<Rightarrow>
          (Some path, fs_put path (take (case disk s path of Some cap \<Rightarrow> cap | None \<Rightarrow> 0) (bytes_of t)) s))"

definition read_text :: "string \<Rightarrow> 'a world_scheme \<Rightarrow> string option" where
  "read_text path w = map_option (\<lambda>d. cstr (text_of d)) (fs_get w path)"

definition SCISSORS :: string where
  "SCISSORS = ''# ------------------------ >8 ------------------------''"

definition SCISSORS_NOTE :: string where
  "SCISSORS_NOTE =
     ''# Do not modify or remove the scissors line.'' @ [NL] @ ''# Everything above it will be ignored.'' @ [NL]"

definition format_original :: "ext \<Rightarrow> mail_detail \<Rightarrow> app_config \<Rightarrow> 'a world_scheme \<Rightarrow> string mem" where
  "format_original E d cfg w =
     mem_bind (cli_format_timestamp E (md_timestamp d) (ac_tz_hours cfg) (ac_time_format cfg) (ac_time_format_recent cfg) 64 w)
       (\<lambda>date.
          case md_recipient d of
            None \<Rightarrow> Ub
          | Some r \<Rightarrow>
              (let sub = (case md_subject d of Some t \<Rightarrow> t | None \<Rightarrow> ''(decryption failed)'');
                   body = (case md_body d of Some t \<Rightarrow> t | None \<Rightarrow> ''(decryption failed)'');
                   n = length (md_sender d) + length r + length date + length sub + length body + 64
               in Ok (snprintf n
                    (''FROM:  '' @ md_sender d @ [NL] @ ''TO:    '' @ r @ [NL] @ ''DATE:  '' @ date @ [NL]
                     @ ''SUBJ:  '' @ sub @ [NL, NL] @ body))))"

text \<open>The lines of a C text: no line after a final newline.\<close>

function c_lines :: "string \<Rightarrow> string list" where
  "c_lines s =
     (if s = [] then []
      else (case split_at NL s of (l, None) \<Rightarrow> [l] | (l, Some r) \<Rightarrow> l # c_lines r))"
  by pat_completeness auto
termination by (relation "measure length") (auto dest: split_at_shorter [OF sym])

declare c_lines.simps [simp del]

text \<open>A scissors line inside the mail is moved one column.\<close>

definition quote_line :: "string \<Rightarrow> string" where
  "quote_line l = (if prefix SCISSORS l then '' '' else []) @ l @ [NL]"

definition scissors_size :: "string \<Rightarrow> string \<Rightarrow> nat" where
  "scissors_size initial orig =
     length orig + length SCISSORS_NOTE + length SCISSORS + length initial + 8 + length (filter (\<lambda>c. c = NL) orig)"

definition with_scissors :: "string \<Rightarrow> string \<Rightarrow> string" where
  "with_scissors initial orig =
     (let w = concat (map quote_line (c_lines orig))
      in w @ snprintf (scissors_size initial orig - length w) ([NL] @ SCISSORS_NOTE @ SCISSORS @ [NL] @ initial))"

function after_scissors :: "string \<Rightarrow> string option" where
  "after_scissors buf =
     (if buf = [] then None
      else
        (case split_at NL buf of
           (l, r) \<Rightarrow>
             (if prefix SCISSORS buf then Some (case r of Some t \<Rightarrow> t | None \<Rightarrow> [])
              else (case r of Some t \<Rightarrow> after_scissors t | None \<Rightarrow> None))))"
  by pat_completeness auto
termination by (relation "measure length") (auto dest: split_at_shorter [OF sym])

declare after_scissors.simps [simp del]

text \<open>The index of the first \<open>---\<close> among the lines, counted from \<open>n\<close>, and one more.\<close>

fun separator_line :: "int \<Rightarrow> string list \<Rightarrow> int" where
  "separator_line n [] = 0"
| "separator_line n (l # ls) = (if l = ''---'' then n + 1 else separator_line (n + 1) ls)"

definition body_line :: "string \<Rightarrow> int" where
  "body_line t =
     (let start = (case after_scissors t of Some r \<Rightarrow> r | None \<Rightarrow> t);
          above = take (length t - length start) t
      in separator_line (1 + int (length (filter (\<lambda>c. c = NL) above))) (c_lines start))"

section \<open>What the template keeps\<close>

lemma scissors_no_newline: "NL \<notin> set SCISSORS"
  by (simp add: SCISSORS_def NL_def)

lemma scissors_ne [simp]: "SCISSORS \<noteq> []"
  by (simp add: SCISSORS_def)

lemma prefix_line: "NL \<notin> set p \<Longrightarrow> prefix p (l @ NL # r) \<longleftrightarrow> prefix p l"
proof
  assume n: "NL \<notin> set p" and pr: "prefix p (l @ NL # r)"
  show "prefix p l"
  proof (cases "length p \<le> length l")
    case True
    with pr show ?thesis by (metis prefix_length_prefix prefixI)
  next
    case False
    have "prefix (l @ [NL]) (l @ NL # r)" by simp
    then have "prefix (l @ [NL]) p" using pr False by (intro prefix_length_prefix [of "l @ [NL]" _ p]) simp_all
    then have "NL \<in> set p" by (auto dest: set_mono_prefix)
    with n show ?thesis by simp
  qed
qed (simp add: prefix_prefix)

lemma after_scissors_skip:
  assumes "NL \<notin> set l" and "\<not> prefix SCISSORS l"
  shows "after_scissors (l @ NL # r) = after_scissors r"
proof -
  have "\<not> prefix SCISSORS (l @ NL # r)" using assms(2) prefix_line [OF scissors_no_newline] by simp
  with assms(1) show ?thesis by (simp add: after_scissors.simps [of "l @ NL # r"])
qed

lemma c_lines_no_newline: "l \<in> set (c_lines s) \<Longrightarrow> NL \<notin> set l"
proof (induction s rule: c_lines.induct)
  case (1 s)
  show ?case
  proof (cases "s = []")
    case True
    with 1 show ?thesis by (simp add: c_lines.simps)
  next
    case False
    obtain a r where sp: "split_at NL s = (a, r)" by fastforce
    show ?thesis
    proof (cases r)
      case None
      with 1(2) False sp show ?thesis by (simp add: c_lines.simps [of s]) (metis split_at_NoneD)
    next
      case (Some t)
      with 1(2) False sp have "l = a \<or> l \<in> set (c_lines t)" by (simp add: c_lines.simps [of s])
      with 1(1) [OF False sp [symmetric] Some] sp Some show ?thesis by (metis split_at_Some)
    qed
  qed
qed

lemma quoted_line_skip:
  assumes "NL \<notin> set l"
  shows "after_scissors (quote_line l @ r) = after_scissors r"
proof (cases "prefix SCISSORS l")
  case True
  have "\<not> prefix SCISSORS ('' '' @ l)" by (simp add: SCISSORS_def)
  moreover have "NL \<notin> set ('' '' @ l)" using assms by (simp add: NL_def)
  ultimately show ?thesis using True after_scissors_skip [of "'' '' @ l" r] by (simp add: quote_line_def)
next
  case False
  with assms after_scissors_skip [of l r] show ?thesis by (simp add: quote_line_def)
qed

lemma quoted_lines_skip:
  "(\<And>l. l \<in> set ls \<Longrightarrow> NL \<notin> set l) \<Longrightarrow> after_scissors (concat (map quote_line ls) @ r) = after_scissors r"
  by (induction ls) (simp_all add: quoted_line_skip)

lemma quoted_size: "length (concat (map quote_line (c_lines s))) \<le> length s + 2 + length (filter (\<lambda>c. c = NL) s)"
proof (induction s rule: c_lines.induct)
  case (1 s)
  show ?case
  proof (cases "s = []")
    case True
    then show ?thesis by (simp add: c_lines.simps)
  next
    case False
    obtain a r where sp: "split_at NL s = (a, r)" by fastforce
    have q: "length (quote_line a) \<le> length a + 2" by (simp add: quote_line_def)
    show ?thesis
    proof (cases r)
      case None
      with sp have "a = s" by (metis split_at_NoneD)
      with None sp False q show ?thesis by (simp add: c_lines.simps [of s])
    next
      case (Some t)
      with sp have s: "s = a @ NL # t" and "NL \<notin> set a" by (metis split_at_Some)+
      then have "filter (\<lambda>c. c = NL) a = []" by (auto simp: filter_empty_conv)
      with 1 [OF False sp [symmetric] Some] Some sp q False show ?thesis
        by (simp add: c_lines.simps [of s]) (simp add: s)
    qed
  qed
qed

text \<open>The buffer that \<open>with_scissors\<close> allocates holds all it writes.\<close>

lemma with_scissors_whole:
  "with_scissors initial orig = concat (map quote_line (c_lines orig)) @ [NL] @ SCISSORS_NOTE @ SCISSORS @ [NL] @ initial"
proof -
  have "length ([NL] @ SCISSORS_NOTE @ SCISSORS @ [NL] @ initial)
      < scissors_size initial orig - length (concat (map quote_line (c_lines orig)))"
    using quoted_size [of orig] by (simp add: scissors_size_def)
  then show ?thesis by (simp only: with_scissors_def Let_def snprintf_fits)
qed

lemma note_skip: "after_scissors (SCISSORS_NOTE @ r) = after_scissors r"
proof -
  define a where "a = ''# Do not modify or remove the scissors line.''"
  define b where "b = ''# Everything above it will be ignored.''"
  have n: "SCISSORS_NOTE @ r = a @ NL # b @ NL # r" by (simp add: SCISSORS_NOTE_def a_def b_def)
  have "NL \<notin> set a" "NL \<notin> set b" by (simp_all add: a_def b_def NL_def)
  moreover have "\<not> prefix SCISSORS a" "\<not> prefix SCISSORS b" by (simp_all add: a_def b_def SCISSORS_def)
  ultimately show ?thesis unfolding n by (metis after_scissors_skip)
qed

lemma after_scissors_here: "after_scissors (SCISSORS @ NL # r) = Some r"
  using scissors_no_newline by (simp add: after_scissors.simps [of "SCISSORS @ NL # r"])

text \<open>C12. The quoted mail never leaks into the draft: whatever the mail answered contains, scissors lines
  included, cutting the editor's text at the scissors line gives back exactly the template that was put
  below it, and the buffer the two are put together in is never exceeded.
\<close>

theorem scissors_round_trip:
  "after_scissors (with_scissors initial orig) = Some initial
   \<and> length (with_scissors initial orig) < scissors_size initial orig"
proof
  have "\<not> prefix SCISSORS []" by simp
  then have "after_scissors ([NL] @ r) = after_scissors r" for r
    using after_scissors_skip [of "[]" r] by simp
  then show "after_scissors (with_scissors initial orig) = Some initial"
    unfolding with_scissors_whole using c_lines_no_newline [of _ orig]
    by (simp add: quoted_lines_skip note_skip after_scissors_here)
  show "length (with_scissors initial orig) < scissors_size initial orig"
    unfolding with_scissors_whole using quoted_size [of orig] by (simp add: scissors_size_def)
qed

lemma dropWhile_blank_end: "v \<noteq> [] \<Longrightarrow> trim_whitespace v = v \<Longrightarrow> \<not> is_blank_char (last v)"
  using trimmed_end [of v] by (cases v rule: rev_cases) (auto split: if_splits dest: dropWhile_id_hd)

lemma trim_inner:
  assumes "a \<noteq> []" and "\<not> is_blank_char (hd a)" and "\<not> is_blank_char (last a)"
  shows "trim_whitespace a = a"
proof -
  obtain x xs where a: "a = x # xs" using assms(1) by (cases a) auto
  obtain ys y where b: "a = ys @ [y]" using assms(1) by (cases a rule: rev_cases) auto
  have "dropWhile is_blank_char a = a" using a assms(2) by simp
  moreover have "dropWhile is_blank_char (rev a) = rev a" using b assms(3) by simp
  ultimately show ?thesis by (simp add: trim_whitespace_def)
qed

lemma trim_Nil [simp]: "trim_whitespace [] = []"
  by (simp add: trim_whitespace_def)

lemma trim_space [simp]: "trim_whitespace (CHR '' '' # v) = trim_whitespace v"
  by (simp add: trim_whitespace_def is_blank_char_def)

text \<open>A header line of the template, and the value it reads as.\<close>

lemma header_line:
  assumes "k \<noteq> []" and "\<not> is_blank_char (hd k)" and "\<not> is_blank_char (last k)" and v: "trim_whitespace v = v"
  shows "trim_whitespace (k @ CHR '' '' # v) = (if v = [] then k else k @ CHR '' '' # v)"
proof (cases "v = []")
  case True
  then have "trim_whitespace (k @ [CHR '' '']) = trim_whitespace k"
    using assms(1,2) by (cases k) (simp_all add: trim_whitespace_def is_blank_char_def)
  with True trim_inner [OF assms(1-3)] show ?thesis by simp
next
  case False
  with assms dropWhile_blank_end [OF False v] show ?thesis by (simp add: trim_inner)
qed

definition header_value :: "string \<Rightarrow> bool" where
  "header_value v \<longleftrightarrow> NL \<notin> set v \<and> trim_whitespace v = v"

lemma parse_header_step:
  assumes "NL \<notin> set l"
  shows "parse_header to subject (l @ NL # r) =
     (let t = trim_whitespace l
      in if t = ''---'' then Some (to, subject, r)
         else parse_header (if prefix ''To:'' t then Some (trim_whitespace (drop 3 t)) else to)
                (if \<not> prefix ''To:'' t \<and> prefix ''Subject:'' t then Some (trim_whitespace (drop 8 t)) else subject) r)"
  using assms by (subst parse_header.simps) (simp add: Let_def)

lemma parse_to_line:
  assumes "header_value v"
  shows "parse_header to subject ((''To: '' @ v) @ NL # r) = parse_header (Some v) subject r"
proof -
  have "trim_whitespace (''To: '' @ v) = (if v = [] then ''To:'' else ''To: '' @ v)"
    using assms header_line [of "''To:''" v] by (simp add: header_value_def is_blank_char_def char_consts)
  moreover have "NL \<notin> set (''To: '' @ v)" using assms by (simp add: header_value_def NL_def)
  ultimately show ?thesis
    using assms by (subst parse_header_step) (simp_all add: Let_def header_value_def)
qed

lemma parse_subject_line:
  assumes "header_value v"
  shows "parse_header to subject ((''Subject: '' @ v) @ NL # r) = parse_header to (Some v) r"
proof -
  have "trim_whitespace (''Subject: '' @ v) = (if v = [] then ''Subject:'' else ''Subject: '' @ v)"
    using assms header_line [of "''Subject:''" v] by (simp add: header_value_def is_blank_char_def char_consts)
  moreover have "NL \<notin> set (''Subject: '' @ v)" using assms by (simp add: header_value_def NL_def)
  ultimately show ?thesis
    using assms by (subst parse_header_step) (simp_all add: Let_def header_value_def)
qed

lemma parse_separator: "parse_header to subject (''---'' @ NL # r) = Some (to, subject, r)"
  by (subst parse_header_step) (simp_all add: char_consts Let_def trim_whitespace_def is_blank_char_def)

text \<open>The template \<open>compose\<close> opens an existing draft with; a reply has no recipient line.\<close>

definition draft_template :: "string option \<Rightarrow> string \<Rightarrow> string \<Rightarrow> string" where
  "draft_template to subject body =
     (case to of Some t \<Rightarrow> ''To: '' @ t @ [NL] | None \<Rightarrow> []) @ ''Subject: '' @ subject @ [NL] @ ''---'' @ [NL] @ body"

text \<open>C13. The template of a draft parses back: recipient and subject, when they are single lines without
  blanks around them, and the body, whatever it contains (separator lines included), are exactly what
  was put in, so closing the editor after a change of the body alone keeps the headers.
\<close>

theorem template_parses_back:
  assumes "header_value subject" and "\<And>t. to = Some t \<Longrightarrow> header_value t"
  shows "parse_compose_buffer (draft_template to subject body) = Some (to, Some subject, body)"
proof (cases to)
  case None
  then show ?thesis
    using parse_subject_line [OF assms(1), of None None] parse_separator [of None "Some subject" body]
    by (simp add: parse_compose_buffer_def draft_template_def)
next
  case (Some t)
  then show ?thesis
    using parse_to_line [OF assms(2) [OF Some], of None None] parse_subject_line [OF assms(1), of "Some t" None]
      parse_separator [of "Some t" "Some subject" body]
    by (simp add: parse_compose_buffer_def draft_template_def)
qed

theorem template_parses_back_witness:
  "parse_compose_buffer (draft_template (Some ''bob@x.org'') ''Hi'' (''---'' @ [NL] @ ''text'')) =
     Some (Some ''bob@x.org'', Some ''Hi'', ''---'' @ [NL] @ ''text'')"
  by (rule template_parses_back) (auto simp: header_value_def trim_whitespace_def is_blank_char_def char_consts)

section \<open>The subject of a reply\<close>

lemma code_point_start_le: "code_point_start t lo n \<le> n"
  by (induction t lo n rule: code_point_start.induct) auto

lemma code_point_start_stop:
  "code_point_start t lo n = m \<Longrightarrow> 0 < m \<Longrightarrow> m \<le> lo \<or> byte_int (t ! m) AND 0xC0 \<noteq> 0x80"
  by (induction t lo n rule: code_point_start.induct) (auto split: if_splits)

lemma code_point_start_ge:
  assumes "0 < k" and "byte_int (t ! k) AND 0xC0 \<noteq> 0x80 \<or> k \<le> lo"
  shows "k \<le> n \<Longrightarrow> k \<le> code_point_start t lo n"
proof (induction n)
  case (Suc n)
  show ?case
  proof (cases "k = Suc n")
    case True
    with assms(2) show ?thesis by auto
  next
    case False
    with Suc show ?thesis by auto
  qed
qed (use assms(1) in simp)

lemma lower_c_byte: "byte_int c = byte_int (lower_c c) \<or> byte_int c = byte_int (lower_c c) - 32"
proof (cases "65 \<le> (of_char c :: nat) \<and> (of_char c :: nat) \<le> 90")
  case True
  then have "(of_char (lower_c c) :: nat) = of_char c + 32" by (simp add: lower_c_def Let_def)
  then have "int (of_char (lower_c c)) = int (of_char c) + 32" by simp
  then show ?thesis by (simp add: byte_int_def of_nat_of_char)
next
  case False
  then show ?thesis by (auto simp: lower_c_def Let_def)
qed

lemma space_byte: "is_space c \<Longrightarrow> byte_int c \<le> 32"
  by (auto simp: is_space_def byte_int_def char_consts)

lemma re_bytes:
  assumes "same_nocase (take 3 orig) ''Re:''"
  obtains c d cs where "orig = c # d # cs" "byte_int c = 114 \<or> byte_int c = 82" "byte_int d = 101 \<or> byte_int d = 69"
proof -
  have l: "lower_c (CHR ''R'') = CHR ''r''" "lower_c (CHR ''e'') = CHR ''e''" by (simp_all add: lower_c_def char_of_def bit_0)
  have b: "byte_int (CHR ''r'') = 114" "byte_int (CHR ''e'') = 101" by (simp_all add: byte_int_def)
  obtain c d cs where "orig = c # d # cs" "lower_c c = CHR ''r''" "lower_c d = CHR ''e''"
    using assms by (cases orig; cases "tl orig") (auto simp: same_nocase_def l)
  with that lower_c_byte [of c] lower_c_byte [of d] b show thesis by auto
qed




section \<open>Editing, saving, offering\<close>

definition edit_result :: "string \<Rightarrow> int \<Rightarrow> string \<Rightarrow> bool \<Rightarrow> string option \<Rightarrow> 'a world_scheme \<Rightarrow> string option \<times> 'a world_scheme" where
  "edit_result editor est full quoting buf w =
     (if est \<noteq> 0 then
        (None, print_err (''Editor '' @ [APOS] @ editor @ [APOS] @ '' exited with status '' @ show_int est
                 @ ''. Draft aborted.'' @ [NL]) w)
      else if buf = None \<or> buf = Some full then (None, print_err (''Draft aborted.'' @ [NL]) w)
      else
        (case (if quoting then
                 (case after_scissors (the buf) of
                    Some rest \<Rightarrow> (rest, w)
                  | None \<Rightarrow>
                      (the buf, print_err (''WARNING: The scissors line is gone. The quoted mail stays in the draft; fix it with ''
                         @ [APOS] @ ''shyake compose <id>'' @ [APOS] @ ''.'' @ [NL]) w))
               else (the buf, w)) of
           (t, w) \<Rightarrow> if t = [] then (None, print_err (''Draft aborted.'' @ [NL]) w) else (Some t, w)))"

definition edit_draft ::
    "app_config \<Rightarrow> string \<Rightarrow> string \<Rightarrow> string option \<Rightarrow> 'a host_scheme \<Rightarrow> string option \<times> 'a host_scheme" where
  "edit_draft cfg dir initial orig s0 =
     (let editor = resolve_editor cfg s0;
          full = (case orig of Some t \<Rightarrow> if is_vim editor then initial else with_scissors initial t | None \<Rightarrow> initial)
      in case write_temp dir ''compose'' full s0 of
           (None, s) \<Rightarrow> (None, print_err (''Edit failed. Cannot create a temporary file.'' @ [NL]) s)
         | (Some tmp, s) \<Rightarrow>
             (case (if orig \<noteq> None \<and> is_vim editor then write_temp dir ''original'' (the orig) s else (None, s)) of
                (beside, s) \<Rightarrow>
                  (case launch_editor editor tmp beside (if orig \<noteq> None then body_line full else 0) s of
                     (est, s) \<Rightarrow>
                       (let buf = (if est = 0 then read_text tmp s else None);
                            s = shred_and_unlink tmp s;
                            s = (case beside of Some p \<Rightarrow> shred_and_unlink p s | None \<Rightarrow> s)
                        in edit_result editor est full (orig \<noteq> None \<and> beside = None) buf s))))"

definition EXIT_SUCCESS :: int where "EXIT_SUCCESS = 0"
definition EXIT_FAILURE :: int where "EXIT_FAILURE = 1"

lemmas exit_defs = EXIT_SUCCESS_def EXIT_FAILURE_def

definition skip_newlines :: "string \<Rightarrow> string" where
  "skip_newlines t = dropWhile (\<lambda>c. c = NL \<or> c = CR) t"

text \<open>Exit status and the id of the draft saved.\<close>

definition save_edited_draft ::
    "ext \<Rightarrow> string \<Rightarrow> string \<Rightarrow> string option \<Rightarrow> string option \<Rightarrow> string option \<Rightarrow> 'a cli_scheme
      \<Rightarrow> int \<times> string option \<times> 'a cli_scheme" where
  "save_edited_draft E dir buf reply_ref reply_to draft_id s =
     (case parse_compose_buffer buf of
        None \<Rightarrow> (EXIT_FAILURE, None, print_err (''Missing '' @ quoted ''---'' @ '' separator. Draft aborted.'' @ [NL]) s)
      | Some (to, subject, rest) \<Rightarrow>
          (let body = skip_newlines rest
           in if list_all is_space body then (EXIT_FAILURE, None, print_err (''Draft aborted (empty body).'' @ [NL]) s)
              else
                (let s1 = (case subject of
                             Some t \<Rightarrow>
                               if length t > 128 then
                                 print_err (''WARNING: The subject exceeds 128 bytes. Sending will fail.'' @ [NL]) s
                               else s
                           | None \<Rightarrow> s);
                     s2 = (case reply_to of
                             Some r \<Rightarrow>
                               if to \<noteq> None \<and> to \<noteq> Some [] \<and> to \<noteq> Some r then
                                 print_err (''A reply keeps its recipient: '' @ r @ ''.'' @ [NL]) s1
                               else s1
                           | None \<Rightarrow> s1);
                     to' = (case reply_to of Some r \<Rightarrow> Some r | None \<Rightarrow> to)
                 in case cli_save_draft E (Some dir) to' subject reply_ref (Some (bytes_of body)) draft_id s2 of
                      (ret, new_id, s3) \<Rightarrow>
                        (let id = (case new_id of Some i \<Rightarrow> Some i | None \<Rightarrow> draft_id)
                         in if ret \<noteq> SHYAKE_OK then
                              (EXIT_FAILURE, None, print_drafts_error ''Draft save failed.'' s3)
                            else
                              (EXIT_SUCCESS, id, print_out (''Draft '' @ str_or_null id @ '' saved.'' @ [NL]) s3)))))"

definition kept_note :: "shyake_err \<Rightarrow> string \<Rightarrow> string" where
  "kept_note ret draft_id =
     (if no_retry ret then ''Draft '' @ draft_id @ '' is kept.'' @ [NL]
      else ''Draft '' @ draft_id @ '' is kept. Retry with: shyake send -d '' @ draft_id @ [NL])"

text \<open>What follows a send of a stored draft: sent, it is deleted; otherwise it stays.\<close>

definition after_draft_send :: "string \<Rightarrow> string \<Rightarrow> string \<Rightarrow> shyake_err \<Rightarrow> 'a cli_scheme \<Rightarrow> 'a cli_scheme" where
  "after_draft_send dir draft_id recipient ret s =
     (if ret = SHYAKE_OK then
        (case cli_delete_draft (Some dir) (Some draft_id)
                (print_out (''Mail sent.'' @ [NL]) (print_err (''done.'' @ [NL]) s)) of
           (rc, s) \<Rightarrow> if rc = SHYAKE_OK then print_out (''Draft '' @ draft_id @ '' deleted.'' @ [NL]) s else s)
      else print_send_error ret recipient (print_err [NL] s))"

definition offer_reply_send ::
    "ext \<Rightarrow> string \<Rightarrow> string option \<Rightarrow> string \<Rightarrow> string \<Rightarrow> 'a host_scheme \<Rightarrow> int \<times> 'a host_scheme" where
  "offer_reply_send E dir user draft_id recipient s0 =
     (case ask_yes (snprintf 320 (''Send it to '' @ recipient @ '' now? [y/N] '')) s0 of
        (False, s) \<Rightarrow> (EXIT_SUCCESS, print_out (''Not sent. Send it with: shyake send -d '' @ draft_id @ [NL]) s)
      | (True, s) \<Rightarrow>
          (case cli_read_draft E (Some dir) user (Some draft_id) s of
             (d, s) \<Rightarrow>
               if d = None \<or> md_body (the d) = None \<or> md_reply_ref (the d) = None then
                 (EXIT_FAILURE, print_drafts_error ''Draft read failed.'' s)
               else
                 (let m = the d
                  in case subject_problem (md_subject m) of
                       Some problem \<Rightarrow>
                         (EXIT_FAILURE,
                          print_err (problem @ '' Edit it with: shyake compose '' @ draft_id @ [NL]) s)
                     | None \<Rightarrow>
                         (case shyake_send_reply E (Some recipient) (md_reply_ref m) (md_subject m)
                                 (Some (bytes_of (the (md_body m))))
                                 (print_err (''Replying to '' @ recipient @ ''... '') s) of
                            (ret, s) \<Rightarrow>
                              (let s = after_draft_send dir draft_id recipient ret s
                               in if ret = SHYAKE_OK then (EXIT_SUCCESS, s)
                                  else (EXIT_FAILURE, print_out (kept_note ret draft_id) s))))))"

section \<open>No plaintext stays behind\<close>

lemma edit_result_files: "edit_result e n f c b w = (r, w') \<Longrightarrow> files w' = files w"
  by (auto simp: edit_result_def print_err_def split: if_splits option.splits prod.splits)

lemma fs_get_files: "files w' = files w \<Longrightarrow> fs_get w' p = fs_get w p"
  by (simp add: fs_get_def)

lemma write_temp_name: "write_temp dir n t s = (r, s') \<Longrightarrow> r = temp_name s (snprintf 640 (dir @ ''/.'' @ n @ ''-XXXXXX''))
    \<and> temp_name s' = temp_name s"
  by (auto simp: write_temp_def fs_put_def split: option.splits)



end
