(* ===== verification/Man.thy ===== *)
theory Man
  imports Host
begin

text \<open>
  The manual pages (\<open>cli/man.c\<close>): the table of names and texts, the overview, and \<open>cli_print_man\<close>.
  A page is the list of its lines.
\<close>

definition page_text :: "string list \<Rightarrow> string" where
  "page_text ls = concat (map (\<lambda>l. l @ [NL]) ls)"

definition man_init :: string where
  "man_init = page_text
     [''shyake init - Initialize'',
      [],
      ''Usage:'',
      ''    shyake init'',
      [],
      ''    Generate config file and key pairs'',
      ''    Default directory: ~/.config/shyake/'',
      [],
      ''Options:'',
      ''    -c <path>       Create multiple profiles at alternative directories'']"

definition man_register :: string where
  "man_register = page_text
     [''shyake register - Register on an instance'',
      [],
      ''Notes: Run this after '' @ [APOS] @ ''shyake init'' @ [APOS],
      [],
      ''Usage:'',
      ''    shyake register -u <username> -i <url>'',
      [],
      ''Options:'',
      ''    -u <username>   Your username'',
      ''    -i <url>        Instance URL'',
      ''    --debug         Output verbose curl logs to stderr'']"

definition man_send :: string where
  "man_send = page_text
     [''shyake send - Send a piece of mail'',
      [],
      ''Usage:'',
      ''    shyake send -t <username> [-s <subject>] [<file>]'',
      [],
      ''    Read body from <file> or stdin.'',
      ''    First line is used as subject if -s is omitted'',
      ''    (subject must not exceed 128 bytes).'',
      [],
      ''Options:'',
      ''    -t <username>   To (required)'',
      ''                    Use '' @ [APOS] @ ''username@instance'' @ [APOS] @ '' for an external recipient'',
      ''    -s <subject>    Subject line'',
      ''    -d, --draft <id>'',
      ''                    Send a stored draft. Recipient and subject'',
      ''                    come from the draft unless -t/-s override them.'',
      ''                    The draft is deleted after a successful send.'',
      ''    --debug         Output verbose curl logs to stderr'',
      [],
      ''Note:'',
      ''    shyake transmits text only. Binary data'',
      ''    must be base64-encoded before sending.'',
      [],
      ''    A send that fails is saved as a draft so the'',
      ''    text is not lost; retry it with -d <id>.'',
      [],
      ''Tips:'',
      ''    Send a small image:'',
      ''        base64 < image.png | shyake send -t salmon -s '' @ [QUOTE] @ ''image.png'' @ [QUOTE],
      ''    Send a small archive:'',
      ''        tar czf - ./source | base64 | shyake send -t salmon -s '' @ [QUOTE] @ ''source.tar.gz'' @ [QUOTE]]"

definition man_reply :: string where
  "man_reply = page_text
     [''shyake reply - Reply to a piece of mail'',
      [],
      ''Usage:'',
      ''    shyake reply <id> [-s <subject>]'',
      ''    shyake reply <id> -d <draft>'',
      ''    shyake reply <id> [-s <subject>] <file>'',
      [],
      ''    '' @ [APOS] @ ''reply <id>'' @ [APOS] @ '' opens your editor on a reply draft.'',
      ''    vim/nvim show the mail read-only on the left;'',
      ''    other editors show it above the scissors line'',
      ''    (>8), which is dropped with everything above it.'',
      ''    The cursor starts where you write the reply.'',
      ''    The reply is saved as an encrypted draft first.'',
      ''    Then it asks '' @ [APOS] @ ''Send it to <user> now? [y/N]'' @ [APOS] @ '':'',
      ''    only '' @ [APOS] @ ''y'' @ [APOS] @ '' sends it (and deletes the draft); Enter'',
      ''    keeps the draft for '' @ [APOS] @ ''shyake send -d <draft>'' @ [APOS] @ ''.'',
      [],
      ''    '' @ [APOS] @ ''reply <id> -d <draft>'' @ [APOS] @ '' turns a stored draft into'',
      ''    a reply to <id>, then asks the same.'',
      [],
      ''    With <file>, or a body piped to stdin, the reply'',
      ''    is sent at once (a failed one is kept as a draft).'',
      [],
      ''    The reply goes to the other party of the mail:'',
      ''    its sender, or its recipient when you sent it.'',
      ''    A mail you sent to yourself is answered to yourself.'',
      ''    A reply'' @ [APOS] @ ''s recipient cannot be changed.'',
      ''    The subject defaults to '' @ [APOS] @ ''Re: <subject>'' @ [APOS] @ ''.'',
      [],
      ''    '' @ [APOS] @ ''check'' @ [APOS] @ '', '' @ [APOS] @ ''fetch'' @ [APOS] @ '' and '' @ [APOS] @ ''read'' @ [APOS] @ '' show the mail a reply'',
      ''    answers on its RE: line, or '' @ [APOS] @ ''(unavailable)'' @ [APOS] @ '' once'',
      ''    it is burned. Both instances must run server'',
      ''    v0.4.0 or later.'',
      [],
      ''Options:'',
      ''    -s <subject>    Subject line'',
      ''    -d, --draft <id>'',
      ''                    Turn a stored draft into the reply'',
      ''    --debug         Output verbose curl logs to stderr'']"

definition man_check :: string where
  "man_check = page_text
     [''shyake check - Check inbox, sent, saved, or drafts'',
      [],
      ''Usage:'',
      ''    shyake check inbox|sent'',
      ''    shyake check saved'',
      ''    shyake check drafts'',
      ''    shyake check <id>'',
      ''    shyake check saved <id>'',
      ''    shyake check drafts <id>'',
      [],
      ''    '' @ [APOS] @ ''check inbox'' @ [APOS] @ '' and '' @ [APOS] @ ''check sent'' @ [APOS] @ '' list mail from the server.'',
      ''    '' @ [APOS] @ ''check saved'' @ [APOS] @ '' lists locally saved mail.'',
      ''    '' @ [APOS] @ ''check drafts'' @ [APOS] @ '' lists local encrypted drafts.'',
      ''    '' @ [APOS] @ ''check <id>'' @ [APOS] @ '' shows the header of a single mail.'',
      ''    '' @ [APOS] @ ''check saved <id>'' @ [APOS] @ '' shows the header of a locally saved mail.'',
      ''    '' @ [APOS] @ ''check drafts <id>'' @ [APOS] @ '' shows the header of a draft. Use '' @ [APOS] @ ''read drafts <id>'' @ [APOS] @ '' for full content.'',
      [],
      ''Options:'',
      ''    --count         Print count only'',
      ''    --json          Output as JSON'',
      ''    --csv           Output as CSV'',
      ''    --no-header     Disable the column header'',
      ''    --plain         Disable pager, color, and truncation'',
      ''    --no-color      Disable colored output'',
      ''    --debug         Output verbose curl logs to stderr'']"

definition man_compose :: string where
  "man_compose = page_text
     [''shyake compose - Compose or edit an encrypted draft'',
      [],
      ''Usage:'',
      ''    shyake compose'',
      ''    shyake compose <id>'',
      [],
      ''    Opens your editor on a To/Subject/--- template and stores'',
      ''    the result as an encrypted draft in ~/.config/shyake/drafts/.'',
      ''    Drafts are encrypted to your own key (ML-KEM-768 +'',
      ''    ChaCha20-Poly1305): saving needs no passphrase, reading does.'',
      ''    The '' @ [APOS] @ ''To:'' @ [APOS] @ '' field may be left empty.'',
      ''    '' @ [APOS] @ ''shyake compose <id>'' @ [APOS] @ '' edits an existing draft.'',
      ''    A reply'' @ [APOS] @ ''s draft keeps its recipient.'',
      [],
      ''    Editor: EDITOR in config, else $VISUAL/$EDITOR, else ed.'',
      ''    vim/nvim run with -n -i NONE so no plaintext touches swap files.'',
      [],
      ''    Use '' @ [APOS] @ ''shyake check drafts'' @ [APOS] @ '' to list drafts.'',
      ''    Use '' @ [APOS] @ ''shyake send --draft <id>'' @ [APOS] @ '' to send one.'',
      ''    To delete a draft, remove its file from the drafts directory.'']"

definition man_fetch :: string where
  "man_fetch = page_text
     [''shyake fetch - Fetch and decrypt a piece of mail'',
      [],
      ''Usage:'',
      ''    shyake fetch <id>'',
      [],
      ''Options:'',
      ''    -r, --raw       Output body only (no header)'',
      ''    --plain         Disable pager, color, and truncation'',
      ''    --no-color      Disable colored output'',
      ''    --debug         Output verbose curl logs to stderr'',
      [],
      ''Tips:'',
      ''    Save a piece of mail with header:'',
      ''        shyake fetch <id> --no-color > output.txt'',
      ''    Save a piece of mail (body only):'',
      ''        shyake fetch <id> -r > output.txt'',
      ''    Decode a received image:'',
      ''        shyake fetch <id> -r | base64 -d > image.png'',
      ''    Decode and extract a received archive:'',
      ''        shyake fetch <id> -r | base64 -d | tar xzf -'',
      ''    Extract into a specific directory:'',
      ''        shyake fetch <id> -r | base64 -d | tar xzf - -C ./output'']"

definition man_burn :: string where
  "man_burn = page_text
     [''shyake burn - Delete a piece of mail'',
      [],
      ''Usage:'',
      ''    shyake burn <id>'',
      [],
      ''Options:'',
      ''    --debug         Output verbose curl logs to stderr'']"

definition man_block :: string where
  "man_block = page_text
     [''shyake block - Block a user or instance'',
      [],
      ''Usage:'',
      ''    shyake block <target>'',
      [],
      ''    <target> can be a username or an instance URL.'',
      [],
      ''Options:'',
      ''    --debug         Output verbose curl logs to stderr'']"

definition man_unblock :: string where
  "man_unblock = page_text
     [''shyake unblock - Unblock a user or instance'',
      [],
      ''Usage:'',
      ''    shyake unblock <target>'',
      [],
      ''    <target> can be a username or an instance URL.'',
      [],
      ''Options:'',
      ''    --debug         Output verbose curl logs to stderr'']"

definition man_blocklist :: string where
  "man_blocklist = page_text
     [''shyake blocklist - List blocked users and instances'',
      [],
      ''Usage:'',
      ''    shyake blocklist'',
      [],
      ''    Prints every target you have blocked, newest first.'',
      [],
      ''Options:'',
      ''    --debug         Output verbose curl logs to stderr'']"

definition man_rotate :: string where
  "man_rotate = page_text
     [''shyake rotate - Rotate key pairs'',
      [],
      ''Usage:'',
      ''    shyake rotate'',
      [],
      ''    Regenerates your key pairs and clears all mail to and from you.'',
      [],
      ''Options:'',
      ''    --debug         Output verbose curl logs to stderr'']"

definition man_fingerprint :: string where
  "man_fingerprint = page_text
     [''shyake fingerprint - Show or update fingerprint'',
      [],
      ''Usage:'',
      ''    shyake fingerprint'',
      ''    shyake fingerprint <username>'',
      ''    shyake fingerprint <username> --update'',
      [],
      ''    Without argument: show your own fingerprint.'',
      ''    With <username>: fetch and display their public key.'',
      ''    --update: refresh the stored key for <username>.'',
      ''    Verify the new fingerprint out-of-band before running'',
      ''    --update to prevent identity impersonation.'',
      [],
      ''Options:'',
      ''    --update        Update stored key for <username>'',
      ''    --debug         Output verbose curl logs to stderr'']"

definition man_whoami :: string where
  "man_whoami = page_text
     [''shyake whoami - Show current identity'',
      [],
      ''Usage:'',
      ''    shyake whoami'',
      [],
      ''    Displays USERNAME, INSTANCE, and CONFIG directory.'']"

definition man_destroy :: string where
  "man_destroy = page_text
     [''shyake destroy - Destroy identity'',
      [],
      ''Usage:'',
      ''    shyake destroy'',
      [],
      ''    Deletes local config and key pairs, destructs the account'',
      ''    on the instance. All mail is cleared. The username is'',
      ''    permanently locked on this instance.'',
      [],
      ''Options:'',
      ''    --debug         Output verbose curl logs to stderr'']"

definition man_version :: string where
  "man_version = page_text
     [''shyake version - Show client version'',
      [],
      ''Usage:'',
      ''    shyake version'']"

definition man_save :: string where
  "man_save = page_text
     [''shyake save - Save a piece of mail locally'',
      [],
      ''Usage:'',
      ''    shyake save <id>'',
      [],
      ''    Fetches the encrypted mail from the server'',
      ''    and stores it to ~/.config/shyake/saved/<id>.json.'',
      ''    The mail is NOT decrypted at this stage.'',
      ''    Use '' @ [APOS] @ ''shyake check saved'' @ [APOS] @ '' to list saved mail.'',
      ''    Use '' @ [APOS] @ ''shyake read <id>'' @ [APOS] @ '' to decrypt and display.'',
      [],
      ''Options:'',
      ''    --debug         Output verbose curl logs to stderr'']"

definition man_read :: string where
  "man_read = page_text
     [''shyake read - Read a locally saved mail or draft'',
      [],
      ''Usage:'',
      ''    shyake read <id>'',
      ''    shyake read drafts <id>'',
      [],
      ''    '' @ [APOS] @ ''read <id>'' @ [APOS] @ '' decrypts and displays a mail saved by '' @ [APOS] @ ''shyake save'' @ [APOS] @ ''.'',
      ''    '' @ [APOS] @ ''read drafts <id>'' @ [APOS] @ '' decrypts and displays a local draft in full.'',
      ''    Output is identical to '' @ [APOS] @ ''shyake fetch'' @ [APOS] @ ''.'',
      [],
      ''Options:'',
      ''    -r, --raw       Output body only (no header)'',
      ''    --no-color      Disable colored output'']"

definition man_enc :: string where
  "man_enc = page_text
     [''shyake enc - Encrypt a file'',
      [],
      ''Usage:'',
      ''    shyake enc <file> [-t <username>] [-o <output>]'',
      [],
      ''    Encrypts <file> using ML-KEM-768 + ChaCha20-Poly1305.'',
      ''    Without -t: uses your own public key.'',
      ''    With -t: fetches and uses the recipient'' @ [APOS] @ ''s public key.'',
      ''    Output defaults to <file>.enc'',
      [],
      ''Options:'',
      ''    -t <username>   Encrypt for a recipient'',
      ''    -o <path>       Output file path'',
      ''    --debug         Output verbose curl logs to stderr'',
      [],
      ''Note: This command is intended for debugging/testing purposes.'']"

definition man_dec :: string where
  "man_dec = page_text
     [''shyake dec - Decrypt a file'',
      [],
      ''Usage:'',
      ''    shyake dec <file> [-o <output>]'',
      [],
      ''    Decrypts a .enc file using your KEM secret key.'',
      ''    Without -o: writes decrypted bytes to stdout.'',
      [],
      ''Options:'',
      ''    -o <path>       Output file path'',
      [],
      ''Note: This command is intended for debugging/testing purposes.'']"

definition man_update :: string where
  "man_update = page_text
     [''shyake update - Check and install updates'',
      [],
      ''Usage:'',
      ''    shyake update'',
      ''    shyake update stable'',
      ''    shyake update preview'',
      [],
      ''    '' @ [APOS] @ ''shyake update'' @ [APOS] @ '' shows installed and available versions.'',
      ''    '' @ [APOS] @ ''shyake update stable'' @ [APOS] @ '' installs the latest stable release.'',
      ''    '' @ [APOS] @ ''shyake update preview'' @ [APOS] @ '' installs the latest preview release.'',
      ''    Preview is only offered when newer than stable.'']"

definition man_man :: string where
  "man_man = page_text
     [''shyake man - Show manual pages'',
      [],
      ''Usage:'',
      ''    shyake man'',
      ''    shyake man <command>'']"

definition man_table :: "(string \<times> string) list" where
  "man_table =
     [(''init'', man_init), (''register'', man_register), (''send'', man_send), (''reply'', man_reply), (''check'', man_check), (''compose'', man_compose), (''fetch'', man_fetch), (''burn'', man_burn), (''block'', man_block), (''unblock'', man_unblock), (''blocklist'', man_blocklist), (''rotate'', man_rotate), (''fingerprint'', man_fingerprint), (''whoami'', man_whoami), (''destroy'', man_destroy), (''version'', man_version), (''save'', man_save), (''read'', man_read), (''enc'', man_enc), (''dec'', man_dec), (''update'', man_update), (''man'', man_man)]"

definition man_overview :: "string \<Rightarrow> string" where
  "man_overview version = page_text
     [''Usage: shyake [option] [command]'',
      [],
      ''shyake '' @ version @ '' - PQC E2EE mailer'',
      [],
      ''Commands:'',
      ''  init          Initialize'',
      ''  register      Register on an instance'',
      ''  send          Send a piece of mail'',
      ''  reply         Reply to a piece of mail'',
      ''  compose       Compose or edit an encrypted draft'',
      ''  check         Check inbox, sent, saved, or drafts'',
      ''  fetch         Fetch and decrypt a piece of mail'',
      ''  save          Save a piece of mail locally'',
      ''  read          Read a locally saved mail'',
      ''  burn          Burn a piece of mail'',
      ''  block         Block a user or instance'',
      ''  unblock       Unblock a user or instance'',
      ''  blocklist     List blocked users and instances'',
      ''  rotate        Rotate key pairs'',
      ''  fingerprint   Show or update fingerprint'',
      ''  whoami        Show current identity'',
      ''  destroy       Destroy identity'',
      ''  enc           Encrypt a file'',
      ''  dec           Decrypt a file'',
      ''  update        Check and install updates'',
      ''  man           Show manual pages'',
      ''  version       Show client version'',
      [],
      ''Global Options:'',
      ''  -c, --config  Use an alternative config directory'',
      ''  --plain       Disable pager, color, and truncation'',
      ''  --no-color    Disable colored output'',
      ''  --debug       Output verbose curl logs to stderr'',
      [],
      ''For detailed usage, run: shyake man <command>'',
      [],
      ''Copyright (c) 2026 Salmonization. Released under the BSD 2-Clause License.'',
      ''Source, issues, and contributions: https://github.com/salmonization/shyake'']"

definition cli_print_man :: "string option \<Rightarrow> 'a host_scheme \<Rightarrow> 'a host_scheme" where
  "cli_print_man subcmd s =
     (case subcmd of
        None \<Rightarrow> print_out (man_overview (client_version s)) s
      | Some c \<Rightarrow>
          (case map_of man_table c of
             Some t \<Rightarrow> print_out t s
           | None \<Rightarrow>
               print_out (''Run '' @ [APOS] @ ''shyake man'' @ [APOS] @ '' for a list of available commands.'' @ [NL])
                 (print_out (''Unknown command: '' @ c @ [NL]) s)))"

end
