(* ===== verification/EncDec.thy ===== *)
theory EncDec
  imports KnownHosts
begin

text \<open>
  \<open>enc_dec.c\<close>: files encrypted to a KEM public key, one's own or a recipient's. The file format is
  shown to be a self-delimiting format in the sense of the locale \<open>framed\<close>. Proved: what was
  encrypted to a key is decrypted by the holder of the matching secret key, and decryption writes
  nothing unless the file authenticates.
\<close>

section \<open>The file format\<close>

record enc_file =
  ef_kem_ct :: "u8 list"
  ef_ek :: "u8 list"
  ef_nonce :: "u8 list"
  ef_ct :: "u8 list"
  ef_mac :: "u8 list"

text \<open>The lengths are written as 32-bit integers, so they are cut to 32 bits.\<close>

definition put_enc :: "enc_file \<Rightarrow> u8 list" where
  "put_enc f = u32le (of_nat (length (ef_kem_ct f))) @ ef_kem_ct f @ u32le 32 @ ef_ek f
     @ u32le (of_nat (length (ef_ct f))) @ ef_nonce f @ ef_ct f @ ef_mac f"

text \<open>\<open>fread\<close> of exactly \<open>n\<close> bytes.\<close>

definition read_bytes :: "nat \<Rightarrow> u8 list \<Rightarrow> (u8 list \<times> u8 list) option" where
  "read_bytes n d = (if length d < n then None else Some (take n d, drop n d))"

definition get_enc :: "u8 list \<Rightarrow> (enc_file \<times> u8 list) option" where
  "get_enc d =
     (case read_u32le d of (kem_ct_len, d) \<Rightarrow>
      (case read_bytes (unat kem_ct_len) d of
         None \<Rightarrow> None
       | Some (kem_ct, d) \<Rightarrow>
      (case read_u32le d of (ek_len, d) \<Rightarrow>
       if ek_len \<noteq> 32 then None
       else
      (case read_bytes 32 d of
         None \<Rightarrow> None
       | Some (ek, d) \<Rightarrow>
      (case read_u32le d of (pt_len, d) \<Rightarrow>
      (case read_bytes 12 d of
         None \<Rightarrow> None
       | Some (nonce, d) \<Rightarrow>
      (case read_bytes (unat pt_len) d of
         None \<Rightarrow> None
       | Some (ct, d) \<Rightarrow>
      (case read_bytes 16 d of
         None \<Rightarrow> None
       | Some (mac, d) \<Rightarrow>
           Some (\<lparr>ef_kem_ct = kem_ct, ef_ek = ek, ef_nonce = nonce, ef_ct = ct, ef_mac = mac\<rparr>, d)))))))))"

section \<open>Encrypting a file\<close>

definition resolve_kem_pk ::
  "ext \<Rightarrow> string option \<Rightarrow> 'a sys_scheme \<Rightarrow> (shyake_err + u8 list) \<times> 'a sys_scheme" where
  "resolve_kem_pk E recipient s =
     (case recipient of
        Some r \<Rightarrow>
          (case fetch_recipient_pubkey E r s of
             (None, lookup, s) \<Rightarrow> (Inl lookup, s)
           | (Some pk_b64, _, s) \<Rightarrow>
               (case base64_bytes E pk_b64 of
                  Null \<Rightarrow> (Inl SHYAKE_ERR_CRYPTO, s)
                | Ok pk \<Rightarrow> (Inr pk, s)
                | Ub \<Rightarrow> (Inl SHYAKE_ERR_CRYPTO, mark_ub s)))
      | None \<Rightarrow>
          (case load_file s (key_path s ''kem_pk.bin'') of
             None \<Rightarrow> (Inl SHYAKE_ERR_CRYPTO, s)
           | Some pk \<Rightarrow> (Inr pk, s)))"

definition enc_dest :: "string \<Rightarrow> string option \<Rightarrow> string" where
  "enc_dest in_path out_path =
     (case out_path of Some p \<Rightarrow> p | None \<Rightarrow> snprintf 640 (in_path @ ''.enc''))"

definition shyake_enc_file ::
  "ext \<Rightarrow> string option \<Rightarrow> string option \<Rightarrow> string option \<Rightarrow> 'a sys_scheme
     \<Rightarrow> shyake_err \<times> string option \<times> 'a sys_scheme" where
  "shyake_enc_file E in_path out_path recipient s0 =
     (case in_path of
        None \<Rightarrow> (SHYAKE_ERR, None, s0)
      | Some path \<Rightarrow>
          (let s = clear_error s0
           in case fs_get s path of
                None \<Rightarrow> (SHYAKE_ERR, None, set_error (''Cannot open '' @ path @ ''.'') s)
              | Some pt \<Rightarrow>
          (case resolve_kem_pk E recipient s of
             (Inl e, s) \<Rightarrow> (e, None, s)
           | (Inr kem_pk, s) \<Rightarrow>
          (case read_urandom 32 s of
             (None, s) \<Rightarrow> (SHYAKE_ERR_CRYPTO, None, s)
           | (Some symk, s) \<Rightarrow>
               if \<not> oqs_kem_ok E \<or> length kem_pk \<noteq> kem_pk_length E then (SHYAKE_ERR_CRYPTO, None, s)
               else
          (case next_coin s of (c, s) \<Rightarrow>
          (case oqs_kem_encaps E c kem_pk of
             None \<Rightarrow> (SHYAKE_ERR_CRYPTO, None, s)
           | Some (kem_ct, ss) \<Rightarrow>
          (case read_urandom 12 s of
             (None, s) \<Rightarrow> (SHYAKE_ERR_CRYPTO, None, s)
           | (Some nonce, s) \<Rightarrow>
          (case chacha20_poly1305_encrypt E symk nonce pt None of
             None \<Rightarrow> (SHYAKE_ERR_CRYPTO, None, s)
           | Some (ct, mac) \<Rightarrow>
               (let dest = enc_dest path out_path;
                    f = \<lparr>ef_kem_ct = kem_ct, ef_ek = xor_bytes symk ss, ef_nonce = nonce, ef_ct = ct,
                         ef_mac = mac\<rparr>
                in case write_file dest (put_enc f) s of
                     (None, s) \<Rightarrow> (SHYAKE_ERR, None, set_error (''Cannot write '' @ dest @ ''.'') s)
                   | (Some _, s) \<Rightarrow> (SHYAKE_OK, Some dest, s))))))))))"

section \<open>Decrypting a file\<close>

text \<open>The KEM reads as many bytes of the buffer as its ciphertexts have, whatever the file said.\<close>

definition shyake_dec_file ::
  "ext \<Rightarrow> string option \<Rightarrow> string option \<Rightarrow> 'a sys_scheme \<Rightarrow> shyake_err \<times> 'a sys_scheme" where
  "shyake_dec_file E in_path out_path s0 =
     (case in_path of
        None \<Rightarrow> (SHYAKE_ERR, s0)
      | Some path \<Rightarrow>
          (let s = clear_error s0
           in case fs_get s path of
                None \<Rightarrow> (SHYAKE_ERR, set_error (''Cannot open '' @ path @ ''.'') s)
              | Some data \<Rightarrow>
          (case get_enc data of
             None \<Rightarrow> (SHYAKE_ERR, set_error ''The file is not a valid .enc file.'' s)
           | Some (f, _) \<Rightarrow>
          (case load_sk_decrypted E (key_path s ''kem_sk.bin'') s of
             (None, s) \<Rightarrow> (SHYAKE_ERR_CRYPTO, s)
           | (Some ksk, s) \<Rightarrow>
               if \<not> oqs_kem_ok E then (SHYAKE_ERR_CRYPTO, s)
               else if length (ef_kem_ct f) < kem_ct_length E then (SHYAKE_ERR_CRYPTO, mark_ub s)
               else
          (case oqs_kem_decaps E (take (kem_ct_length E) (ef_kem_ct f)) ksk of
             None \<Rightarrow> (SHYAKE_ERR_CRYPTO, set_error ''The file is not encrypted to your key.'' s)
           | Some ss \<Rightarrow>
          (case chacha20_poly1305_decrypt E (xor_bytes (ef_ek f) ss) (ef_nonce f) (ef_ct f) None (ef_mac f) of
             None \<Rightarrow> (SHYAKE_ERR_CRYPTO, set_error ''The file is damaged or was changed.'' s)
           | Some pt \<Rightarrow>
               (case out_path of
                  None \<Rightarrow> (SHYAKE_OK, print_out (text_of pt) s)
                | Some out \<Rightarrow>
                    (case write_file out pt s of
                       (None, s) \<Rightarrow> (SHYAKE_ERR, set_error (''Cannot write '' @ out @ ''.'') s)
                     | (Some _, s) \<Rightarrow> (SHYAKE_OK, s)))))))))"

section \<open>Lemmas\<close>

definition enc_valid :: "enc_file \<Rightarrow> bool" where
  "enc_valid f \<longleftrightarrow> length (ef_kem_ct f) < 2 ^ 32 \<and> length (ef_ek f) = 32 \<and> length (ef_nonce f) = 12 \<and>
     length (ef_ct f) < 2 ^ 32 \<and> length (ef_mac f) = 16"

lemma read_bytes_append [codec_simps]: "length x = n \<Longrightarrow> read_bytes n (x @ r) = Some (x, r)"
  by (simp add: read_bytes_def)

interpretation fixed_format: framed "\<lambda>x. x" "read_bytes n" "\<lambda>x. length x = n" for n
  by unfold_locales (rule read_bytes_append)

lemma unat_u32_size: "n < 2 ^ 32 \<Longrightarrow> unat (word_of_nat n :: u32) = n"
  by (simp add: unsigned_of_nat take_bit_nat_eq_self)

interpretation enc_format: framed put_enc get_enc enc_valid
proof unfold_locales
  fix f r
  assume "enc_valid f"
  then have l: "length (ef_ek f) = 32" "length (ef_nonce f) = 12" "length (ef_mac f) = 16"
    "unat (word_of_nat (length (ef_kem_ct f)) :: u32) = length (ef_kem_ct f)"
    "unat (word_of_nat (length (ef_ct f)) :: u32) = length (ef_ct f)"
    by (simp_all add: enc_valid_def unat_u32_size)
  then show "get_enc (put_enc f @ r) = Some (f, r)"
    unfolding get_enc_def put_enc_def append_assoc
    by (simp only: codec_simps prod.case option.case if_False simp_thms) simp
qed

lemma resolve_kem_pk_step:
  assumes "resolve_kem_pk E r s = (k, s')"
  shows "net_step s s'"
proof (cases r)
  case None
  with assms show ?thesis by (auto simp: resolve_kem_pk_def split: option.splits)
next
  case (Some u)
  obtain x e t where f: "fetch_recipient_pubkey E u s = (x, e, t)" by (metis surj_pair)
  note step = net_step_fetch_pubkey [OF f]
  then have "net_step s (mark_ub t)" by (rule net_step_trans) simp
  with step assms Some f show ?thesis by (auto simp: resolve_kem_pk_def split: option.splits mem.splits)
qed

lemma resolve_kem_pk_Inl: "resolve_kem_pk E r s = (Inl e, s') \<Longrightarrow> e \<noteq> SHYAKE_OK"
  by (auto simp: resolve_kem_pk_def dest: fetch_pubkey_None split: option.splits prod.splits mem.splits)

lemma enc_file_cases:
  fixes s s' :: "'a sys_scheme"
  assumes "shyake_enc_file E (Some path) dest r s = (SHYAKE_OK, used, s')"
  obtains pt kpk symk nonce c kem_ct ss ct mac n and s1 s2 :: "'a sys_scheme"
  where "fs_get s path = Some pt" and "resolve_kem_pk E r (clear_error s) = (Inr kpk, s1)"
    and "length symk = 32" and "length nonce = 12" and "length kpk = kem_pk_length E"
    and "oqs_kem_ok E" and "oqs_kem_encaps E c kpk = Some (kem_ct, ss)"
    and "chacha20_poly1305_encrypt E symk nonce pt None = Some (ct, mac)"
    and "write_file (enc_dest path dest)
          (put_enc \<lparr>ef_kem_ct = kem_ct, ef_ek = xor_bytes symk ss, ef_nonce = nonce, ef_ct = ct, ef_mac = mac\<rparr>) s2
          = (Some n, s')"
    and "net_step s s2" and "used = Some (enc_dest path dest)"
proof -
  obtain pt where pt: "fs_get s path = Some pt"
    using assms by (cases "fs_get s path") (auto simp: shyake_enc_file_def)
  obtain k s1 where k: "resolve_kem_pk E r (clear_error s) = (k, s1)" by (metis surj_pair)
  obtain a s2 where a: "read_urandom 32 s1 = (a, s2)" by (metis surj_pair)
  obtain c s3 where c: "next_coin s2 = (c, s3)" by (metis surj_pair)
  obtain b s4 where b: "read_urandom 12 s3 = (b, s4)" by (metis surj_pair)
  note x = assms [unfolded shyake_enc_file_def Let_def, simplified] and ev = pt k a c b
  obtain kpk where kpk: "k = Inr kpk"
    using resolve_kem_pk_Inl [of E r "clear_error s"] k x by (cases k) (auto simp: ev)
  obtain symk where symk: "a = Some symk" using x kpk by (cases a) (auto simp: ev)
  have ok: "oqs_kem_ok E" "length kpk = kem_pk_length E" using x kpk symk by (auto simp: ev split: if_splits)
  obtain kem_ct ss where e: "oqs_kem_encaps E c kpk = Some (kem_ct, ss)"
    using x kpk symk ok by (cases "oqs_kem_encaps E c kpk") (auto simp: ev)
  obtain nonce where nonce: "b = Some nonce" using x kpk symk ok e by (cases b) (auto simp: ev)
  obtain ct mac where ct: "chacha20_poly1305_encrypt E symk nonce pt None = Some (ct, mac)"
    using x kpk symk ok e nonce by (cases "chacha20_poly1305_encrypt E symk nonce pt None") (auto simp: ev)
  obtain n where w: "write_file (enc_dest path dest)
      (put_enc \<lparr>ef_kem_ct = kem_ct, ef_ek = xor_bytes symk ss, ef_nonce = nonce, ef_ct = ct, ef_mac = mac\<rparr>) s4
        = (Some n, s')" and u: "used = Some (enc_dest path dest)"
    using x kpk symk ok e nonce ct by (auto simp: ev split: prod.splits option.splits)
  have "net_step s (clear_error s)" by simp
  also have "net_step (clear_error s) s1" using k by (rule resolve_kem_pk_step)
  also have "net_step s1 s2" using a by (rule net_step_urandom)
  also have "net_step s2 s3" using c by (rule net_step_coin)
  also have "net_step s3 s4" using b by (rule net_step_urandom)
  finally have "net_step s s4" .
  with that [OF pt k [unfolded kpk] _ _ ok(2,1) e ct w _ u] a b symk nonce read_urandom_length
  show ?thesis by blast
qed

lemma dec_file_frame:
  assumes "shyake_dec_file E (Some path) dest s = (e, s')" and "e \<noteq> SHYAKE_OK"
  shows "files s' = files s"
proof -
  have mu: "files (mark_ub t) = files t" for t :: "'b world_scheme" by (simp add: mark_ub_def)
  have wf: "write_file p d t = (None, t') \<Longrightarrow> t' = t" for p d and t t' :: "'b world_scheme"
    by (auto simp: write_file_def split: option.splits)
  obtain k s1 where k: "load_sk_decrypted E (key_path (clear_error s) ''kem_sk.bin'') (clear_error s) = (k, s1)"
    by (metis surj_pair)
  have "files s1 = files s" using net_step_keeps(1) [OF net_step_load_sk [OF k]] by simp
  then show ?thesis
    using assms k by (auto simp: shyake_dec_file_def Let_def mu dest!: wf
        split: option.splits prod.splits if_splits)
qed

section \<open>Properties\<close>

text \<open>C4. A file encrypted to a public key, one's own or one fetched for a recipient, is decrypted to its
  content by whoever holds the matching secret key: \<open>shyake_dec_file\<close> on the file that
  \<open>shyake_enc_file\<close> wrote succeeds and its output is the plaintext, for every plaintext of less
  than 4 GiB and paths that take the files in full.\<close>

theorem dec_enc_file:
  fixes s s1 t t' :: "'a sys_scheme"
  assumes "aead_law E" and "kem_law E" and "kem_ct_length E < 2 ^ 32"
    and "shyake_enc_file E (Some path) dest r s = (SHYAKE_OK, Some enc, s1)"
    and "fs_get s path = Some pt" and "length pt < 2 ^ 32"
    and "resolve_kem_pk E r (clear_error s) = (Inr kpk, s0)" and "kem_pair E kpk ksk"
    and "can_store s enc (kem_ct_length E + 72 + length pt)"
    and "fs_get t enc = fs_get s1 enc"
    and "fst (load_sk_decrypted E (key_path t ''kem_sk.bin'') t) = Some ksk"
    and "can_store t out (length pt)"
  shows "\<exists>t'. shyake_dec_file E (Some enc) (Some out) t = (SHYAKE_OK, t') \<and> fs_get t' out = Some pt"
proof -
  from assms(4) obtain pt' kpk' symk nonce c kem_ct ss ct mac n and s0' s2 :: "'a sys_scheme" where
    p: "fs_get s path = Some pt'" "resolve_kem_pk E r (clear_error s) = (Inr kpk', s0')"
    and l: "length symk = 32" "length nonce = 12" and ok: "oqs_kem_ok E"
    and e: "oqs_kem_encaps E c kpk' = Some (kem_ct, ss)"
    and a: "chacha20_poly1305_encrypt E symk nonce pt' None = Some (ct, mac)"
    and w: "write_file (enc_dest path dest)
          (put_enc \<lparr>ef_kem_ct = kem_ct, ef_ek = xor_bytes symk ss, ef_nonce = nonce, ef_ct = ct, ef_mac = mac\<rparr>) s2
          = (Some n, s1)"
    and st: "net_step s s2" and enc: "Some enc = Some (enc_dest path dest)"
    by (rule enc_file_cases)
  define f where "f = \<lparr>ef_kem_ct = kem_ct, ef_ek = xor_bytes symk ss, ef_nonce = nonce, ef_ct = ct, ef_mac = mac\<rparr>"
  from p assms(5,7) have eq: "pt' = pt" "kpk' = kpk" by simp_all
  note kl = kem_lawD [OF assms(2) e] and al = chacha_roundtrip [OF assms(1) a]
  have len: "length (put_enc f) = kem_ct_length E + 72 + length pt"
    using kl al l eq by (simp add: put_enc_def f_def)
  have "can_store s2 enc (length (put_enc f))"
    using assms(9) net_step_keeps(2) [OF st] by (simp add: can_store_def len)
  then have "write_file enc (put_enc f) s2 = (Some (length (put_enc f)), fs_put enc (put_enc f) s2)"
    by (rule write_file_ok)
  with w enc have "s1 = fs_put enc (put_enc f) s2" by (simp add: f_def)
  then have "fs_get s1 enc = Some (put_enc f)" by (simp add: store_simps)
  with assms(10) have fl: "fs_get (clear_error t) enc = Some (put_enc f)" by simp
  have "enc_valid f" using kl al l eq assms(3,6) by (simp add: enc_valid_def f_def)
  then have get: "get_enc (put_enc f) = Some (f, [])" by (rule enc_format.get_put_end)
  have "fst (load_sk_decrypted E (key_path (clear_error t) ''kem_sk.bin'') (clear_error t)) = Some ksk"
    using assms(11) load_sk_same [of "clear_error t" t E] by (simp add: key_path_def)
  then have ksk: "load_sk_decrypted E (key_path (clear_error t) ''kem_sk.bin'') (clear_error t) = (Some ksk, clear_error t)"
    using load_sk_ok_frame by (metis prod.collapse)
  have dec: "oqs_kem_decaps E kem_ct ksk = Some ss" using kem_pairD [OF assms(8)] e eq by simp
  have x: "xor_bytes (xor_bytes symk ss) ss = symk" using l kl by (simp add: codec_simps)
  have "write_file out pt (clear_error t) = (Some (length pt), fs_put out pt (clear_error t))"
    using assms(12) by (intro write_file_ok) (simp add: can_store_def)
  then have "shyake_dec_file E (Some enc) (Some out) t = (SHYAKE_OK, fs_put out pt (clear_error t))"
    using fl get ksk ok kl dec x al eq by (simp add: shyake_dec_file_def f_def)
  then show ?thesis by (simp add: store_simps)
qed

theorem dec_enc_file_witness:
  "\<exists>s1 t'. shyake_enc_file toy (Some ''m'') None None
      (sys0\<lparr>files := [(''m'', [1, 2, 3]), (''/c/kem_pk.bin'', [4, 7]), (''/c/kem_sk.bin'', [4, 8])]\<rparr>)
        = (SHYAKE_OK, Some ''m.enc'', s1) \<and>
     shyake_dec_file toy (Some ''m.enc'') (Some ''o'') s1 = (SHYAKE_OK, t') \<and> fs_get t' ''o'' = Some [1, 2, 3]"
proof -
  let ?s = "sys0\<lparr>files := [(''m'', [1, 2, 3]), (''/c/kem_pk.bin'', [4, 7]), (''/c/kem_sk.bin'', [4, 8])]\<rparr>"
  have k: "kem_pair toy [4, 7] [4, 8]" by (rule kem_law_pair [OF toy_laws0(4), of 4]) (simp add: toy_def)
  have r: "resolve_kem_pk toy None (clear_error ?s) = (Inr [4, 7], clear_error ?s)"
    by (simp add: resolve_kem_pk_def load_file_def key_path_def fs_get_def clear_error_def)
  obtain s1 where e: "shyake_enc_file toy (Some ''m'') None None ?s = (SHYAKE_OK, Some ''m.enc'', s1)"
    and f: "fs_get s1 ''/c/kem_sk.bin'' = Some [4, 8]" "config_dir s1 = ''/c''" "disk s1 = (\<lambda>_. Some 1000)"
    by (simp add: shyake_enc_file_def r [unfolded clear_error_def, simplified] read_urandom_def next_coin_def chacha20_poly1305_encrypt_def
        enc_dest_def write_file_def fs_get_def toy_simps Let_def fs_put_def clear_error_def)
  have sk: "fst (load_sk_decrypted toy (key_path s1 ''kem_sk.bin'') s1) = Some [4, 8]"
    unfolding load_sk_value load_file_def key_path_def using f by (simp add: sk_of_file_def)
  have ct: "kem_ct_length toy < 2 ^ 32" by (simp add: toy_def)
  have g: "fs_get ?s ''m'' = Some [1, 2, 3]" by (simp add: fs_get_def)
  have c: "can_store ?s ''m.enc'' (kem_ct_length toy + 72 + length [1, 2, 3 :: u8])"
    "can_store s1 ''o'' (length [1, 2, 3 :: u8])" using f by (simp_all add: can_store_def toy_def)
  have l: "length [1, 2, 3 :: u8] < 2 ^ 32" by simp
  from dec_enc_file [OF toy_laws0(3,4) ct e g l r k c(1) refl sk c(2)] e show ?thesis by blast
qed

text \<open>C27. Decrypting a file writes to the output only what authenticated: on any error no file has
  changed, and on success the output is the decryption of the file's ciphertext under the key that its
  KEM part unwraps to with the user's secret key.\<close>

theorem dec_file_authenticated:
  assumes "shyake_dec_file E (Some path) (Some out) s = (e, s')"
  shows "(e \<noteq> SHYAKE_OK \<longrightarrow> files s' = files s) \<and>
     (e = SHYAKE_OK \<longrightarrow> (\<exists>data f rest ksk ss pt cap. fs_get s path = Some data \<and> get_enc data = Some (f, rest) \<and>
        fst (load_sk_decrypted E (key_path s ''kem_sk.bin'') s) = Some ksk \<and>
        kem_ct_length E \<le> length (ef_kem_ct f) \<and>
        oqs_kem_decaps E (take (kem_ct_length E) (ef_kem_ct f)) ksk = Some ss \<and>
        chacha20_poly1305_decrypt E (xor_bytes (ef_ek f) ss) (ef_nonce f) (ef_ct f) None (ef_mac f) = Some pt \<and>
        files s' = AList.update out (take cap pt) (files s)))"
proof -
  have "\<exists>data f rest ksk ss pt cap. fs_get s path = Some data \<and> get_enc data = Some (f, rest) \<and>
        fst (load_sk_decrypted E (key_path s ''kem_sk.bin'') s) = Some ksk \<and>
        kem_ct_length E \<le> length (ef_kem_ct f) \<and>
        oqs_kem_decaps E (take (kem_ct_length E) (ef_kem_ct f)) ksk = Some ss \<and>
        chacha20_poly1305_decrypt E (xor_bytes (ef_ek f) ss) (ef_nonce f) (ef_ct f) None (ef_mac f) = Some pt \<and>
        files s' = AList.update out (take cap pt) (files s)" if ok: "e = SHYAKE_OK"
  proof -
    have same: "fst (load_sk_decrypted E (key_path (clear_error s) ''kem_sk.bin'') (clear_error s)) =
        fst (load_sk_decrypted E (key_path s ''kem_sk.bin'') s)"
      using load_sk_same [of "clear_error s" s E] by (simp add: key_path_def)
    obtain ksk s1 where k: "load_sk_decrypted E (key_path (clear_error s) ''kem_sk.bin'') (clear_error s) = (Some ksk, s1)"
      using assms ok by (auto simp: shyake_dec_file_def Let_def split: option.splits prod.splits)
    then have s1: "s1 = clear_error s" by (rule load_sk_ok_frame)
    show ?thesis
      using assms ok k same unfolding s1
      by (auto simp: shyake_dec_file_def Let_def write_file_def fs_put_def split: option.splits if_splits prod.splits)
  qed
  with dec_file_frame [OF assms] show ?thesis by blast
qed

theorem dec_file_authenticated_witness:
  "\<exists>e s'. shyake_dec_file toy (Some ''m'') (Some ''o'') (sys0\<lparr>files := [(''m'', [1, 2, 3]), (''o'', [7])]\<rparr>) = (e, s') \<and>
     files s' = [(''m'', [1, 2, 3]), (''o'', [7])]"
proof -
  let ?s = "sys0\<lparr>files := [(''m'', [1, 2, 3]), (''o'', [7])]\<rparr>"
  have "get_enc [1, 2, 3] = None" by (simp add: get_enc_def read_bytes_def)
  then have e: "shyake_dec_file toy (Some ''m'') (Some ''o'') ?s
      = (SHYAKE_ERR, set_error ''The file is not a valid .enc file.'' (clear_error ?s))"
    by (simp add: shyake_dec_file_def fs_get_def clear_error_def)
  from dec_file_authenticated [OF e] e show ?thesis by simp
qed

end
