(* ===== verification/Commands.thy ===== *)
theory Commands
  imports Compose Man EncDec
begin

text \<open>
  The commands of the client (\<open>main\<close> of \<open>cli/main.c\<close>), each with the guards, the order of its calls
  and its exit status, and their dispatch. \<open>getopt_long\<close> is the parameter of that name in \<open>host\<close>: it gives
  the options in order and the operands. \<open>args\<close> is \<open>argv\<close> from the third entry on.
\<close>

section \<open>Globals and the context of a command\<close>

record globals =
  gl_plain :: bool
  gl_debug :: bool
  gl_no_color :: bool
  gl_config_dir :: "string option"

text \<open>The global flags, wherever they stand, are taken out of the arguments.\<close>

definition global_flag :: "string \<Rightarrow> (globals \<Rightarrow> globals) option" where
  "global_flag a =
     (if a = ''--plain'' then Some (\<lambda>g. g\<lparr>gl_plain := True, gl_no_color := True\<rparr>)
      else if a = ''--debug'' then Some (\<lambda>g. g\<lparr>gl_debug := True\<rparr>)
      else if a = ''--no-color'' then Some (\<lambda>g. g\<lparr>gl_no_color := True\<rparr>)
      else None)"

definition config_flag :: "string \<Rightarrow> bool" where
  "config_flag a \<longleftrightarrow> a = ''-c'' \<or> a = ''--config''"

fun strip_globals :: "globals \<Rightarrow> string list \<Rightarrow> globals \<times> string list" where
  "strip_globals g [] = (g, [])"
| "strip_globals g (a # as) =
     (case global_flag a of
        Some f \<Rightarrow> strip_globals (f g) as
      | None \<Rightarrow>
          if config_flag a \<and> as \<noteq> [] then strip_globals (g\<lparr>gl_config_dir := Some (hd as)\<rparr>) (tl as)
          else (case strip_globals g as of (g', r) \<Rightarrow> (g', a # r)))"

definition color_off :: "globals \<Rightarrow> app_config \<Rightarrow> bool" where
  "color_off g cfg \<longleftrightarrow> gl_no_color g \<or> ac_no_color cfg \<noteq> 0"

definition command_config :: "globals \<Rightarrow> string \<Rightarrow> app_config \<Rightarrow> string \<Rightarrow> string \<Rightarrow> shyake_config" where
  "command_config g dir cfg inst user =
     \<lparr>cf_instance_url = Some inst, cf_config_dir = Some dir, cf_username = Some user, cf_plain = gl_plain g,
      cf_debug = gl_debug g, cf_no_color = color_off g cfg\<rparr>"

definition or_empty :: "string option \<Rightarrow> string" where
  "or_empty t = (case t of Some x \<Rightarrow> x | None \<Rightarrow> [])"

definition fail :: "string \<Rightarrow> 'a host_scheme \<Rightarrow> int \<times> 'a host_scheme" where
  "fail msg s = (EXIT_FAILURE, print_err (msg @ [NL]) s)"

definition status :: "bool \<Rightarrow> int" where
  "status ok = (if ok then EXIT_SUCCESS else EXIT_FAILURE)"

text \<open>
  The frame of a command: a context for this instance and user, the passphrase of the key, the body,
  the context freed.
\<close>

definition in_ctx ::
    "globals \<Rightarrow> string \<Rightarrow> app_config \<Rightarrow> string \<Rightarrow> string \<Rightarrow> ('a host_scheme \<Rightarrow> int \<times> 'a host_scheme)
      \<Rightarrow> 'a host_scheme \<Rightarrow> int \<times> 'a host_scheme" where
  "in_ctx g dir cfg inst user body s0 =
     (case prompt_passphrase dir (open_ctx (command_config g dir cfg inst user) s0) of
        (rc, s) \<Rightarrow>
          if rc \<noteq> 0 then (EXIT_FAILURE, close_ctx s)
          else (case body s of (st, s) \<Rightarrow> (st, close_ctx s)))"

text \<open>Most commands need an account.\<close>

definition with_account ::
    "globals \<Rightarrow> string \<Rightarrow> app_config \<Rightarrow> (string \<Rightarrow> 'a host_scheme \<Rightarrow> int \<times> 'a host_scheme)
      \<Rightarrow> 'a host_scheme \<Rightarrow> int \<times> 'a host_scheme" where
  "with_account g dir cfg body s =
     (case (ac_instance cfg, ac_username cfg) of
        (Some inst, Some user) \<Rightarrow> in_ctx g dir cfg inst user (body user) s
      | _ \<Rightarrow> fail ''Missing INSTANCE or USERNAME in config file.'' s)"

definition with_local ::
    "globals \<Rightarrow> string \<Rightarrow> app_config \<Rightarrow> ('a host_scheme \<Rightarrow> int \<times> 'a host_scheme)
      \<Rightarrow> 'a host_scheme \<Rightarrow> int \<times> 'a host_scheme" where
  "with_local g dir cfg body s = in_ctx g dir cfg (or_empty (ac_instance cfg)) (or_empty (ac_username cfg)) body s"

text \<open>The last value an option was given.\<close>

definition opt_value :: "char \<Rightarrow> (char \<times> string option) list \<Rightarrow> string option" where
  "opt_value c opts = foldl (\<lambda>v (o', a). if o' = c then a else v) None opts"

definition opt_given :: "char \<Rightarrow> (char \<times> string option) list \<Rightarrow> bool" where
  "opt_given c opts = list_ex (\<lambda>(o', a). o' = c) opts"

section \<open>Identity and account\<close>

definition cmd_whoami :: "string \<Rightarrow> app_config \<Rightarrow> 'a host_scheme \<Rightarrow> int \<times> 'a host_scheme" where
  "cmd_whoami dir cfg s =
     (EXIT_SUCCESS,
      print_out (''CONFIG:   '' @ dir @ [NL])
        (print_out (''INSTANCE: '' @ str_or_null (ac_instance cfg) @ [NL])
          (print_out (case ac_username cfg of
                        Some u \<Rightarrow> ''USERNAME: '' @ u @ [NL]
                      | None \<Rightarrow> ''USERNAME: (not registered)'' @ [NL]) s)))"

text \<open>What \<open>update_config_user_and_instance\<close> returns is not looked at.\<close>

definition cmd_register ::
    "ext \<Rightarrow> globals \<Rightarrow> string \<Rightarrow> app_config \<Rightarrow> string list \<Rightarrow> 'a host_scheme \<Rightarrow> int \<times> 'a host_scheme" where
  "cmd_register E g dir cfg args s0 =
     (case getopt_long s0 ''u:i:'' [(''username'', True, CHR ''u''), (''instance'', True, CHR ''i'')] args of
        (opts, _) \<Rightarrow>
          (case opt_value (CHR ''u'') opts of
             None \<Rightarrow> fail (''A username is required.'' @ [NL] @ ''Usage: shyake register -u <username> -i <url>'') s0
           | Some user \<Rightarrow>
               (case (case opt_value (CHR ''i'') opts of Some i \<Rightarrow> Some i | None \<Rightarrow> ac_instance cfg) of
                  None \<Rightarrow> fail ''Missing INSTANCE in config file.'' s0
                | Some inst \<Rightarrow>
                    in_ctx g dir cfg inst user
                      (\<lambda>s. case shyake_register E (Some user)
                                 (print_err (''Registering as '' @ user @ '' at '' @ inst @ ''... '') s) of
                             (ret, s) \<Rightarrow>
                               (status (ret = SHYAKE_OK),
                                if ret = SHYAKE_OK then
                                  snd (update_config_user_and_instance dir user inst
                                         (print_out (''Registered.'' @ [NL]) (print_err (''done.'' @ [NL]) s)))
                                else if ret = SHYAKE_ERR_NO_INSTANCE then
                                  print_failure ''Registration failed.'' (Some ''No instance is configured.'') (print_err [NL] s)
                                else print_lib_error ''Registration failed.'' (print_err [NL] s))) s0)))"

definition cmd_rotate :: "ext \<Rightarrow> globals \<Rightarrow> string \<Rightarrow> app_config \<Rightarrow> 'a host_scheme \<Rightarrow> int \<times> 'a host_scheme" where
  "cmd_rotate E g dir cfg s0 =
     with_account g dir cfg
       (\<lambda>user s.
          case prompt_new_passphrase dir s of
            (rc, s) \<Rightarrow>
              if rc \<noteq> 0 then (EXIT_FAILURE, s)
              else
                (case shyake_rotate E (print_err (''Rotating keys for '' @ user @ ''... '') s) of
                   (ret, s) \<Rightarrow>
                     (status (ret = SHYAKE_OK),
                      if ret = SHYAKE_OK then print_out (''Keys rotated.'' @ [NL]) (print_err (''done.'' @ [NL]) s)
                      else print_lib_error ''Rotation failed.'' (print_err [NL] s)))) s0"

text \<open>No passphrase is asked for; the first argument that is not \<open>--update\<close> is the user.\<close>

definition cmd_fingerprint ::
    "ext \<Rightarrow> globals \<Rightarrow> string \<Rightarrow> app_config \<Rightarrow> string list \<Rightarrow> 'a host_scheme \<Rightarrow> int \<times> 'a host_scheme" where
  "cmd_fingerprint E g dir cfg args s0 =
     (let do_update = ''--update'' \<in> set args;
          target = find (\<lambda>a. a \<noteq> ''--update'') args
      in case (ac_instance cfg, ac_username cfg) of
           (Some inst, Some user) \<Rightarrow>
             (let s = open_ctx (command_config g dir cfg inst user) s0;
                  s = (case target of
                         None \<Rightarrow> print_out (''Fingerprint for '' @ user @ '' (local):'' @ [NL]) s
                       | Some t \<Rightarrow>
                           if do_update then s else print_out (''Fetching public key for '' @ t @ ''...'' @ [NL]) s)
              in case shyake_fingerprint E target do_update s of
                   (Some r, s) \<Rightarrow>
                     (EXIT_SUCCESS,
                      close_ctx (case target of
                         Some t \<Rightarrow> if do_update then print_out (''Updated known_hosts for '' @ t @ ''.'' @ [NL]) s
                                   else cli_render_fingerprint r False s
                       | None \<Rightarrow> cli_render_fingerprint r True s))
                 | (None, s) \<Rightarrow> (EXIT_FAILURE, close_ctx (print_lib_error ''Fingerprint failed.'' s)))
         | _ \<Rightarrow> fail ''Missing INSTANCE or USERNAME in config file.'' s0)"

definition destroy_warning :: string where
  "destroy_warning =
     ''WARNING: This destroys your account on the instance and deletes your'' @ [NL]
     @ ''local configuration and keys. All mail to and from you is deleted.'' @ [NL]
     @ ''Your username stays locked on this instance and cannot be registered'' @ [NL]
     @ ''again. Type your username to confirm: ''"

text \<open>The user name is compared before it is known to be there.\<close>

definition cmd_destroy :: "ext \<Rightarrow> globals \<Rightarrow> string \<Rightarrow> app_config \<Rightarrow> 'a host_scheme \<Rightarrow> int \<times> 'a host_scheme" where
  "cmd_destroy E g dir cfg s0 =
     (let s = print_out destroy_warning s0
      in case fgets_all 256 (text_of (stdin_data s)) of
           [] \<Rightarrow> (EXIT_FAILURE, s)
         | line # _ \<Rightarrow>
             (case ac_username cfg of
                None \<Rightarrow> (EXIT_FAILURE, mark_ub s)
              | Some user \<Rightarrow>
                  if trim_whitespace line \<noteq> user then fail ''Username mismatch. Aborted.'' s
                  else
                    with_account g dir cfg
                      (\<lambda>user s.
                         case shyake_destroy E s of
                           (ret, s) \<Rightarrow>
                             (status (ret = SHYAKE_OK),
                              if ret = SHYAKE_OK then
                                print_out (''Account destroyed. Local configuration and keys deleted.'' @ [NL])
                                  (snd (run_shell (snprintf 512 (''rm -rf '' @ dir @ ''/*'')) s))
                              else print_lib_error ''Destroy failed.'' s)) s))"

section \<open>Sending\<close>

definition not_empty :: "string option \<Rightarrow> string option" where
  "not_empty t = (if t = Some [] then None else t)"

text \<open>A draft goes to \<open>-t\<close> or its own recipient, with \<open>-s\<close> or its own subject.\<close>

definition send_draft_as ::
    "ext \<Rightarrow> string \<Rightarrow> string \<Rightarrow> mail_detail \<Rightarrow> string \<Rightarrow> string option \<Rightarrow> string option \<Rightarrow> 'a host_scheme
      \<Rightarrow> int \<times> 'a host_scheme" where
  "send_draft_as E dir draft_id m body recipient subject s =
     (case recipient of
        None \<Rightarrow> fail ''The draft has no recipient. Use -t <username>.'' s
      | Some r \<Rightarrow>
          (case subject of
             None \<Rightarrow> fail ''The draft has no subject. Use -s <subject>.'' s
           | Some sub \<Rightarrow>
               if length sub > 128 then fail ''The subject cannot exceed 128 bytes.'' s
               else
                 (let s = print_err (''Sending draft '' @ draft_id @ '' to '' @ r @ ''... '') s
                  in case (if md_reply_ref m \<noteq> None
                           then shyake_send_reply E (Some r) (md_reply_ref m) (Some sub) (Some (bytes_of body)) s
                           else shyake_send E (Some r) (Some sub) (Some (bytes_of body)) s) of
                       (ret, s) \<Rightarrow> (status (ret = SHYAKE_OK), after_draft_send dir draft_id r ret s))))"

definition send_draft ::
    "ext \<Rightarrow> globals \<Rightarrow> string \<Rightarrow> app_config \<Rightarrow> string \<Rightarrow> string option \<Rightarrow> string option \<Rightarrow> 'a host_scheme
      \<Rightarrow> int \<times> 'a host_scheme" where
  "send_draft E g dir cfg draft_id recipient subject s0 =
     with_account g dir cfg
       (\<lambda>user s.
          case cli_read_draft E (Some dir) (Some user) (Some draft_id) s of
            (d, s) \<Rightarrow>
              (case d of
                 None \<Rightarrow> (EXIT_FAILURE, print_drafts_error ''Draft read failed.'' s)
               | Some m \<Rightarrow>
                   (case md_body m of
                      None \<Rightarrow> (EXIT_FAILURE, print_drafts_error ''Draft read failed.'' s)
                    | Some body \<Rightarrow>
                        if md_reply_ref m \<noteq> None \<and> recipient \<noteq> None \<and> md_recipient m \<noteq> None
                           \<and> recipient \<noteq> md_recipient m
                        then fail (''Draft '' @ draft_id @ '' is a reply to '' @ the (md_recipient m)
                                   @ ''. -t cannot change that.'') s
                        else
                          send_draft_as E dir draft_id m body
                            (if recipient = None then not_empty (md_recipient m) else recipient)
                            (if subject = None then not_empty (md_subject m) else subject) s))) s0"

text \<open>The file named by an operand, or standard input.\<close>

definition input_bytes :: "string list \<Rightarrow> 'a host_scheme \<Rightarrow> u8 list option" where
  "input_bytes operands s = (case operands of [] \<Rightarrow> Some (stdin_data s) | f # _ \<Rightarrow> fs_get s f)"

text \<open>Without \<open>-s\<close> the first line is the subject, a carriage return at its end dropped.\<close>

definition first_line_subject :: "u8 list \<Rightarrow> string \<times> u8 list" where
  "first_line_subject body =
     (case split_at NL (text_of body) of
        (l, rest) \<Rightarrow>
          (cstr (if l \<noteq> [] \<and> last l = CR then butlast l else l),
           case rest of Some r \<Rightarrow> bytes_of r | None \<Rightarrow> []))"

definition send_text ::
    "ext \<Rightarrow> globals \<Rightarrow> string \<Rightarrow> app_config \<Rightarrow> string \<Rightarrow> string \<Rightarrow> u8 list \<Rightarrow> 'a host_scheme \<Rightarrow> int \<times> 'a host_scheme" where
  "send_text E g dir cfg recipient subject body s0 =
     (case subject_problem (Some subject) of
        Some problem \<Rightarrow> fail problem s0
      | None \<Rightarrow>
          with_account g dir cfg
            (\<lambda>user s.
               case shyake_send E (Some recipient) (Some subject) (Some body)
                      (print_err (''Sending mail to '' @ recipient @ ''... '') s) of
                 (ret, s) \<Rightarrow>
                   if ret = SHYAKE_OK then
                     (EXIT_SUCCESS, print_out (''Mail sent.'' @ [NL]) (print_err (''done.'' @ [NL]) s))
                   else
                     (EXIT_FAILURE,
                      rescue_draft E dir (Some recipient) (Some subject) None body (\<not> no_retry ret)
                        (print_send_error ret recipient (print_err [NL] s)))) s0)"

definition cmd_send ::
    "ext \<Rightarrow> globals \<Rightarrow> string \<Rightarrow> app_config \<Rightarrow> string list \<Rightarrow> 'a host_scheme \<Rightarrow> int \<times> 'a host_scheme" where
  "cmd_send E g dir cfg args s =
     (case getopt_long s ''t:s:d:''
             [(''to'', True, CHR ''t''), (''subject'', True, CHR ''s''), (''draft'', True, CHR ''d'')] args of
        (opts, operands) \<Rightarrow>
          (let recipient = opt_value (CHR ''t'') opts; subject = opt_value (CHR ''s'') opts
           in case opt_value (CHR ''d'') opts of
                Some i \<Rightarrow> send_draft E g dir cfg i recipient subject s
              | None \<Rightarrow>
                  (case recipient of
                     None \<Rightarrow> fail (''A recipient is required.'' @ [NL]
                               @ ''Usage: shyake send -t <username> [-s <subject>] [<file>]'') s
                   | Some r \<Rightarrow>
                       (case input_bytes operands s of
                          None \<Rightarrow> fail (''Send failed. Cannot open '' @ hd operands @ ''.'') s
                        | Some body \<Rightarrow>
                            (case (case subject of Some t \<Rightarrow> (t, body) | None \<Rightarrow> first_line_subject body) of
                               (t, rest) \<Rightarrow> send_text E g dir cfg r t rest s)))))"

section \<open>Replying\<close>

definition reply_with_draft ::
    "ext \<Rightarrow> string \<Rightarrow> string \<Rightarrow> string \<Rightarrow> string \<Rightarrow> string option \<Rightarrow> string option \<Rightarrow> string \<Rightarrow> 'a host_scheme
      \<Rightarrow> int \<times> 'a host_scheme" where
  "reply_with_draft E dir user mail_id recipient ref subject draft_id s =
     (case cli_read_draft E (Some dir) (Some user) (Some draft_id) s of
        (d, s) \<Rightarrow>
          (if d = None \<or> md_body (the d) = None then (EXIT_FAILURE, print_drafts_error ''Draft read failed.'' s)
           else
             (let m = the d;
                  s = (if md_recipient m \<noteq> None \<and> md_recipient m \<noteq> Some [] \<and> md_recipient m \<noteq> Some recipient then
                         print_err (''Draft '' @ draft_id @ '' now goes to '' @ recipient @ ''.'' @ [NL]) s
                       else s);
                  sub = (if md_subject m \<noteq> None \<and> md_subject m \<noteq> Some [] \<and> subject_problem (md_subject m) = None
                         then md_subject m else subject)
              in case cli_save_draft E (Some dir) (Some recipient) sub ref (Some (bytes_of (the (md_body m)))) (Some draft_id) s of
                   (rc, _, s) \<Rightarrow>
                     if rc = SHYAKE_OK then
                       offer_reply_send E dir (Some user) draft_id recipient
                         (print_out (''Draft '' @ draft_id @ '' is now a reply to '' @ mail_id @ ''.'' @ [NL]) s)
                     else (EXIT_FAILURE, print_drafts_error ''Draft save failed.'' s))))"

definition reply_direct ::
    "ext \<Rightarrow> string \<Rightarrow> string \<Rightarrow> string \<Rightarrow> string option \<Rightarrow> string option \<Rightarrow> u8 list \<Rightarrow> 'a host_scheme
      \<Rightarrow> int \<times> 'a host_scheme" where
  "reply_direct E dir mail_id recipient ref subject body s =
     (case subject of
        None \<Rightarrow> fail (''Reply failed. The subject of mail '' @ mail_id @ '' cannot be decrypted. Use -s <subject>.'') s
      | Some sub \<Rightarrow>
          (case shyake_send_reply E (Some recipient) ref (Some sub) (Some body)
                  (print_err (''Replying to '' @ recipient @ ''... '') s) of
             (ret, s) \<Rightarrow>
               if ret = SHYAKE_OK then
                 (EXIT_SUCCESS, print_out (''Mail sent.'' @ [NL]) (print_err (''done.'' @ [NL]) s))
               else
                 (EXIT_FAILURE,
                  rescue_draft E dir (Some recipient) (Some sub) ref body (\<not> no_retry ret)
                    (print_send_error ret recipient (print_err [NL] s)))))"

definition reply_in_editor ::
    "ext \<Rightarrow> string \<Rightarrow> app_config \<Rightarrow> string \<Rightarrow> mail_detail \<Rightarrow> string \<Rightarrow> string option \<Rightarrow> 'a host_scheme \<Rightarrow> int \<times> 'a host_scheme" where
  "reply_in_editor E dir cfg user orig recipient subject s =
     (let sub = or_empty subject;
          initial = snprintf (length sub + 32) (''Subject: '' @ sub @ [NL] @ ''---'' @ [NL, NL])
      in case format_original E orig cfg s of
           Ok display \<Rightarrow>
             (case edit_draft cfg dir initial (Some display) s of
                (None, s) \<Rightarrow> (EXIT_FAILURE, s)
              | (Some buf, s) \<Rightarrow>
                  (case save_edited_draft E dir buf (md_ref orig) (Some recipient) None s of
                     (st, new_id, s) \<Rightarrow>
                       (case new_id of
                          Some i \<Rightarrow> offer_reply_send E dir (Some user) i recipient s
                        | None \<Rightarrow> (st, s))))
         | _ \<Rightarrow> (EXIT_FAILURE, mark_ub s))"

definition reply_to_mail ::
    "ext \<Rightarrow> string \<Rightarrow> app_config \<Rightarrow> string \<Rightarrow> string \<Rightarrow> string option \<Rightarrow> string option \<Rightarrow> u8 list option \<Rightarrow> 'a host_scheme
      \<Rightarrow> int \<times> 'a host_scheme" where
  "reply_to_mail E dir cfg user mail_id subject draft_id direct s =
     (case shyake_fetch E (Some mail_id) s of
        (None, s) \<Rightarrow> (EXIT_FAILURE, print_lib_error ''Reply failed.'' s)
      | (Some orig, s) \<Rightarrow>
          (case shyake_reply_recipient (Some orig) s of
             Ub \<Rightarrow> (EXIT_FAILURE, mark_ub s)
           | Null \<Rightarrow> fail (''Reply failed. Mail '' @ mail_id @ '' cannot be answered.'') s
           | Ok recipient \<Rightarrow>
               if md_ref orig = None then fail (''Reply failed. Mail '' @ mail_id @ '' cannot be answered.'') s
               else
                 (let sub = (case subject of Some t \<Rightarrow> Some t | None \<Rightarrow> map_option reply_subject (md_subject orig))
                  in case draft_id of
                       Some i \<Rightarrow> reply_with_draft E dir user mail_id recipient (md_ref orig) sub i s
                     | None \<Rightarrow>
                         (case direct of
                            Some body \<Rightarrow> reply_direct E dir mail_id recipient (md_ref orig) sub body s
                          | None \<Rightarrow> reply_in_editor E dir cfg user orig recipient sub s))))"

definition cmd_reply ::
    "ext \<Rightarrow> globals \<Rightarrow> string \<Rightarrow> app_config \<Rightarrow> string list \<Rightarrow> 'a host_scheme \<Rightarrow> int \<times> 'a host_scheme" where
  "cmd_reply E g dir cfg args s0 =
     (case getopt_long s0 ''s:d:'' [(''subject'', True, CHR ''s''), (''draft'', True, CHR ''d'')] args of
        (opts, operands) \<Rightarrow>
          (let subject = opt_value (CHR ''s'') opts; draft_id = opt_value (CHR ''d'') opts
           in case operands of
                [] \<Rightarrow> fail (''A mail ID is required.'' @ [NL]
                        @ ''Usage: shyake reply <id> [-s <subject>] [-d <draft>]'') s0
              | mail_id # rest \<Rightarrow>
                  (case (if subject = None then None else subject_problem subject) of
                     Some problem \<Rightarrow> fail problem s0
                   | None \<Rightarrow>
                       if ac_instance cfg = None \<or> ac_username cfg = None then
                         fail ''Missing INSTANCE or USERNAME in config file.'' s0
                       else
                         (let direct = draft_id = None \<and> (rest \<noteq> [] \<or> \<not> stdin_tty s0)
                          in if direct \<and> input_bytes rest s0 = None then
                               fail (''Reply failed. Cannot open '' @ hd rest @ ''.'') s0
                             else
                               with_account g dir cfg
                                 (\<lambda>user s. reply_to_mail E dir cfg user mail_id subject draft_id
                                    (if direct then input_bytes rest s0 else None) s) s0))))"

section \<open>Composing\<close>

text \<open>What the editor is opened with: the template, the mail beside it, reference and recipient of a reply.\<close>

definition compose_draft ::
    "ext \<Rightarrow> string \<Rightarrow> app_config \<Rightarrow> string \<Rightarrow> 'a host_scheme
      \<Rightarrow> (string \<times> string option \<times> string option \<times> string option) mem \<times> 'a host_scheme" where
  "compose_draft E dir cfg draft_id s =
     (case cli_read_draft E (Some dir) (ac_username cfg) (Some draft_id) s of
        (d, s) \<Rightarrow>
          (if d = None \<or> md_body (the d) = None then (Null, print_drafts_error ''Draft read failed.'' s)
           else
             (let m = the d; to = or_empty (md_recipient m); sub = or_empty (md_subject m); body = the (md_body m);
                  sz = length to + length sub + length body + 32
              in case md_reply_ref m of
                   None \<Rightarrow> (Ok (snprintf sz (draft_template (Some to) sub body), None, None, None), s)
                 | Some r \<Rightarrow>
                     (case shyake_find_ref E (Some r) s of
                        ((oid, saved), s) \<Rightarrow>
                          (case (case oid of
                                   None \<Rightarrow> (None, s)
                                 | Some i \<Rightarrow> if saved then shyake_read_saved E (Some i) s else shyake_fetch E (Some i) s) of
                             (orig, s) \<Rightarrow>
                               (case (case orig of None \<Rightarrow> Ok None | Some mail \<Rightarrow> mem_bind (format_original E mail cfg s) (\<lambda>t. Ok (Some t))) of
                                  Ok quote \<Rightarrow>
                                    (Ok (snprintf sz (draft_template None sub body), quote, Some r, Some to), s)
                                | _ \<Rightarrow> (Ub, mark_ub s)))))))"

definition edit_and_save ::
    "ext \<Rightarrow> string \<Rightarrow> app_config \<Rightarrow> string \<times> string option \<times> string option \<times> string option \<Rightarrow> string option
      \<Rightarrow> 'a host_scheme \<Rightarrow> int \<times> 'a host_scheme" where
  "edit_and_save E dir cfg start draft_id s =
     (case start of (initial, quote, reply_ref, reply_to) \<Rightarrow>
        (case edit_draft cfg dir initial quote s of
           (None, s) \<Rightarrow> (EXIT_FAILURE, s)
         | (Some buf, s) \<Rightarrow>
             (case save_edited_draft E dir buf reply_ref reply_to draft_id s of (st, _, s) \<Rightarrow> (st, s))))"

definition new_template :: string where
  "new_template = ''To: '' @ [NL] @ ''Subject: '' @ [NL] @ ''---'' @ [NL]"

definition cmd_compose ::
    "ext \<Rightarrow> globals \<Rightarrow> string \<Rightarrow> app_config \<Rightarrow> string list \<Rightarrow> 'a host_scheme \<Rightarrow> int \<times> 'a host_scheme" where
  "cmd_compose E g dir cfg args s0 =
     (let draft_id = (case args of a # _ \<Rightarrow> if a \<noteq> [] \<and> hd a = CHR ''-'' then None else Some a | [] \<Rightarrow> None)
      in case draft_id of
           None \<Rightarrow>
             (case edit_and_save E dir cfg (new_template, None, None, None) None
                     (open_ctx (command_config g dir cfg (or_empty (ac_instance cfg)) (or_empty (ac_username cfg))) s0) of
                (st, s) \<Rightarrow> (st, close_ctx s))
         | Some i \<Rightarrow>
             with_local g dir cfg
               (\<lambda>s. case compose_draft E dir cfg i s of
                      (Ok start, s) \<Rightarrow> edit_and_save E dir cfg start (Some i) s
                    | (_, s) \<Rightarrow> (EXIT_FAILURE, s)) s0)"

section \<open>Listing and reading\<close>

definition list_opts :: "globals \<Rightarrow> app_config \<Rightarrow> cli_render_opts" where
  "list_opts g cfg =
     \<lparr>ro_json_out = False, ro_csv_out = False, ro_count_only = False, ro_no_header = False, ro_no_color = color_off g cfg,
      ro_plain = gl_plain g, ro_term_width = 0, ro_col_order = parse_check_columns (ac_check_columns cfg),
      ro_tz_hours = ac_tz_hours cfg, ro_time_fmt = ac_time_format cfg,
      ro_time_fmt_recent = ac_time_format_recent cfg, ro_id_label = None\<rparr>"

definition show_header ::
    "ext \<Rightarrow> globals \<Rightarrow> app_config \<Rightarrow> mail_detail \<Rightarrow> 'a host_scheme \<Rightarrow> 'a host_scheme" where
  "show_header E g cfg d s =
     (case describe_reply E d s of
        (re, s) \<Rightarrow>
          cli_render_mail_header E (Some d) re (color_off g cfg) (ac_tz_hours cfg) (ac_time_format cfg)
            (ac_time_format_recent cfg) s)"

definition show_detail ::
    "ext \<Rightarrow> globals \<Rightarrow> app_config \<Rightarrow> bool \<Rightarrow> mail_detail \<Rightarrow> 'a host_scheme \<Rightarrow> 'a host_scheme" where
  "show_detail E g cfg raw d s =
     (case (if raw then (None, s) else describe_reply E d s) of
        (re, s) \<Rightarrow>
          cli_render_mail_detail E (Some d) re raw (color_off g cfg) (gl_plain g) (ac_tz_hours cfg) (ac_time_format cfg)
            (ac_time_format_recent cfg) s)"

definition draft_row :: "saved_entry \<Rightarrow> mail_entry" where
  "draft_row e =
     \<lparr>me_mail_id = se_mail_id e, me_party = (if se_recipient e \<noteq> [] then se_recipient e else ''(null)''),
      me_subject = se_subject e, me_size = se_size e, me_timestamp = se_timestamp e, me_created = se_created e,
      me_is_sent = True, me_ref = None\<rparr>"

definition saved_row :: "saved_entry \<Rightarrow> mail_entry" where
  "saved_row e =
     \<lparr>me_mail_id = se_mail_id e, me_party = se_sender e, me_subject = se_subject e, me_size = se_size e,
      me_timestamp = se_timestamp e, me_created = 0, me_is_sent = False, me_ref = None\<rparr>"

definition check_drafts ::
    "ext \<Rightarrow> globals \<Rightarrow> string \<Rightarrow> app_config \<Rightarrow> string option \<Rightarrow> 'a host_scheme \<Rightarrow> int \<times> 'a host_scheme" where
  "check_drafts E g dir cfg draft_id s0 =
     with_local g dir cfg
       (\<lambda>s. case draft_id of
              Some i \<Rightarrow>
                (case cli_read_draft E (Some dir) (ac_username cfg) (Some i) s of
                   (Some d, s) \<Rightarrow> (EXIT_SUCCESS, show_header E g cfg d s)
                 | (None, s) \<Rightarrow> (EXIT_FAILURE, print_drafts_error ''Draft read failed.'' s))
            | None \<Rightarrow>
                (case cli_list_drafts E (Some dir) (ac_username cfg) s of
                   (None, s) \<Rightarrow> (EXIT_FAILURE, print_drafts_error ''Listing drafts failed.'' s)
                 | (Some es, s) \<Rightarrow>
                     (EXIT_SUCCESS,
                      if es = [] then print_out (''No drafts.'' @ [NL]) s
                      else
                        cli_render_mail_list E (Some (map draft_row es))
                          ((list_opts g cfg)\<lparr>ro_id_label := Some ''ID'',
                             ro_col_order := [COL_ID, COL_PARTY, COL_SUBJECT, COL_SIZE, COL_CREATED, COL_MODIFIED]\<rparr>) s))) s0"

definition check_saved ::
    "ext \<Rightarrow> globals \<Rightarrow> string \<Rightarrow> app_config \<Rightarrow> string option \<Rightarrow> 'a host_scheme \<Rightarrow> int \<times> 'a host_scheme" where
  "check_saved E g dir cfg saved_id s0 =
     (if ac_username cfg = None then fail ''Missing USERNAME in config file.'' s0
      else
        with_local g dir cfg
          (\<lambda>s. case saved_id of
                 Some i \<Rightarrow>
                   (case shyake_check_saved_one E (Some i) s of
                      (Some d, s) \<Rightarrow> (EXIT_SUCCESS, show_header E g cfg d s)
                    | (None, s) \<Rightarrow> (EXIT_FAILURE, print_lib_error ''Read failed.'' s))
               | None \<Rightarrow>
                   (case shyake_list_saved E s of
                      (Some es, s) \<Rightarrow>
                        (EXIT_SUCCESS, cli_render_mail_list E (Some (map saved_row es)) (list_opts g cfg) s)
                    | (None, s) \<Rightarrow> (EXIT_SUCCESS, print_out (''No saved mail.'' @ [NL]) s))) s0)"

definition check_remote ::
    "ext \<Rightarrow> globals \<Rightarrow> string \<Rightarrow> app_config \<Rightarrow> string \<Rightarrow> (char \<times> string option) list \<Rightarrow> 'a host_scheme
      \<Rightarrow> int \<times> 'a host_scheme" where
  "check_remote E g dir cfg what opts s0 =
     with_account g dir cfg
       (\<lambda>user s.
          if what = ''inbox'' \<or> what = ''sent'' then
            (case shyake_check E (Some what) s of
               (Some es, s) \<Rightarrow>
                 (EXIT_SUCCESS,
                  cli_render_mail_list E (Some es)
                    ((list_opts g cfg)\<lparr>ro_count_only := opt_given (CHR ''C'') opts, ro_json_out := opt_given (CHR ''J'') opts,
                       ro_csv_out := opt_given (CHR ''S'') opts, ro_no_header := opt_given (CHR ''H'') opts\<rparr>) s)
             | (None, s) \<Rightarrow> (EXIT_FAILURE, print_lib_error ''Check failed.'' s))
          else
            (case shyake_check_one E (Some what) s of
               (Some d, s) \<Rightarrow> (EXIT_SUCCESS, show_header E g cfg d s)
             | (None, s) \<Rightarrow> (EXIT_FAILURE, print_lib_error ''Check failed.'' s))) s0"

definition cmd_check ::
    "ext \<Rightarrow> globals \<Rightarrow> string \<Rightarrow> app_config \<Rightarrow> string list \<Rightarrow> 'a host_scheme \<Rightarrow> int \<times> 'a host_scheme" where
  "cmd_check E g dir cfg args s =
     (case args of
        [] \<Rightarrow> fail ''Usage: shyake check <inbox|sent|id> [options]'' s
      | what # more_args \<Rightarrow>
          (let third = (case more_args of i # _ \<Rightarrow> Some i | [] \<Rightarrow> None)
           in if what = ''drafts'' then check_drafts E g dir cfg third s
              else if what = ''saved'' then check_saved E g dir cfg third s
              else
                check_remote E g dir cfg what
                  (if what = ''inbox'' \<or> what = ''sent'' then
                     fst (getopt_long s '''' [(''count'', False, CHR ''C''), (''json'', False, CHR ''J''),
                            (''csv'', False, CHR ''S''), (''no-header'', False, CHR ''H'')] more_args)
                   else []) s))"

definition cmd_fetch ::
    "ext \<Rightarrow> globals \<Rightarrow> string \<Rightarrow> app_config \<Rightarrow> string list \<Rightarrow> 'a host_scheme \<Rightarrow> int \<times> 'a host_scheme" where
  "cmd_fetch E g dir cfg args s0 =
     (case getopt_long s0 ''r'' [(''raw'', False, CHR ''r'')] args of
        (opts, operands) \<Rightarrow>
          (case operands of
             [] \<Rightarrow> fail (''A mail ID is required.'' @ [NL] @ ''Usage: shyake fetch <id>'') s0
           | mail_id # _ \<Rightarrow>
               with_account g dir cfg
                 (\<lambda>user s.
                    case shyake_fetch E (Some mail_id) s of
                      (Some d, s) \<Rightarrow> (EXIT_SUCCESS, show_detail E g cfg (opt_given (CHR ''r'') opts) d s)
                    | (None, s) \<Rightarrow> (EXIT_FAILURE, print_lib_error ''Fetch failed.'' s)) s0))"

definition read_drafts ::
    "ext \<Rightarrow> globals \<Rightarrow> string \<Rightarrow> app_config \<Rightarrow> bool \<Rightarrow> string list \<Rightarrow> 'a host_scheme \<Rightarrow> int \<times> 'a host_scheme" where
  "read_drafts E g dir cfg raw ids s0 =
     (case ids of
        [] \<Rightarrow> fail ''Usage: shyake read drafts <id>'' s0
      | draft_id # _ \<Rightarrow>
          with_local g dir cfg
            (\<lambda>s. case cli_read_draft E (Some dir) (ac_username cfg) (Some draft_id) s of
                   (Some d, s) \<Rightarrow> (EXIT_SUCCESS, show_detail E g cfg raw d s)
                 | (None, s) \<Rightarrow> (EXIT_FAILURE, print_drafts_error ''Draft read failed.'' s)) s0)"

definition cmd_read ::
    "ext \<Rightarrow> globals \<Rightarrow> string \<Rightarrow> app_config \<Rightarrow> string list \<Rightarrow> 'a host_scheme \<Rightarrow> int \<times> 'a host_scheme" where
  "cmd_read E g dir cfg args s0 =
     (case getopt_long s0 ''r'' [(''raw'', False, CHR ''r'')] args of
        (opts, operands) \<Rightarrow>
          (let raw = opt_given (CHR ''r'') opts
           in case operands of
                [] \<Rightarrow> fail ''Usage: shyake read <id>'' s0
              | mail_id # rest \<Rightarrow>
                  if mail_id = ''drafts'' then read_drafts E g dir cfg raw rest s0
                  else if ac_username cfg = None then fail ''Missing USERNAME in config file.'' s0
                  else
                    with_local g dir cfg
                      (\<lambda>s. case shyake_read_saved E (Some mail_id) s of
                             (Some d, s) \<Rightarrow> (EXIT_SUCCESS, show_detail E g cfg raw d s)
                           | (None, s) \<Rightarrow> (EXIT_FAILURE, print_lib_error ''Read failed.'' s)) s0))"

section \<open>Burning, saving, blocking\<close>

text \<open>Commands with one operand and one call of the library.\<close>

definition one_call ::
    "globals \<Rightarrow> string \<Rightarrow> app_config \<Rightarrow> string list \<Rightarrow> string \<Rightarrow> (string option \<Rightarrow> 'a host_scheme \<Rightarrow> shyake_err \<times> 'a host_scheme)
      \<Rightarrow> (string \<Rightarrow> string) \<Rightarrow> string \<Rightarrow> 'a host_scheme \<Rightarrow> int \<times> 'a host_scheme" where
  "one_call g dir cfg args usage call done failed s0 =
     (case args of
        [] \<Rightarrow> fail usage s0
      | a # _ \<Rightarrow>
          with_account g dir cfg
            (\<lambda>user s.
               case call (Some a) s of
                 (ret, s) \<Rightarrow>
                   (status (ret = SHYAKE_OK),
                    if ret = SHYAKE_OK then print_out (done a @ [NL]) s else print_lib_error failed s)) s0)"

definition cmd_burn ::
    "ext \<Rightarrow> globals \<Rightarrow> string \<Rightarrow> app_config \<Rightarrow> string list \<Rightarrow> 'a host_scheme \<Rightarrow> int \<times> 'a host_scheme" where
  "cmd_burn E g dir cfg args s =
     one_call g dir cfg args ''Usage: shyake burn <id>'' (shyake_burn E) (\<lambda>_. ''Mail burned.'') ''Burn failed.'' s"

definition cmd_save ::
    "ext \<Rightarrow> globals \<Rightarrow> string \<Rightarrow> app_config \<Rightarrow> string list \<Rightarrow> 'a host_scheme \<Rightarrow> int \<times> 'a host_scheme" where
  "cmd_save E g dir cfg args s =
     one_call g dir cfg args ''Usage: shyake save <id>'' (shyake_save_mail E) (\<lambda>_. ''Mail saved.'') ''Save failed.'' s"

definition cmd_block ::
    "ext \<Rightarrow> globals \<Rightarrow> string \<Rightarrow> app_config \<Rightarrow> bool \<Rightarrow> string list \<Rightarrow> 'a host_scheme \<Rightarrow> int \<times> 'a host_scheme" where
  "cmd_block E g dir cfg is_unblock args s =
     one_call g dir cfg args (''Usage: shyake '' @ (if is_unblock then ''unblock'' else ''block'') @ '' <target>'')
       (\<lambda>t. shyake_block E t is_unblock)
       (\<lambda>t. t @ '' '' @ (if is_unblock then ''unblocked'' else ''blocked'') @ ''.'')
       (if is_unblock then ''Unblock failed.'' else ''Block failed.'') s"

fun print_blocks :: "ext \<Rightarrow> app_config \<Rightarrow> block_entry list \<Rightarrow> 'a host_scheme \<Rightarrow> 'a host_scheme" where
  "print_blocks E cfg [] s = s"
| "print_blocks E cfg (b # bs) s =
     (case cli_format_timestamp E (be_created b) (ac_tz_hours cfg) (ac_time_format cfg) None 64 s of
        Ok t \<Rightarrow> print_blocks E cfg bs (print_out (t @ ''  '' @ be_target b @ [NL]) s)
      | _ \<Rightarrow> mark_ub s)"

definition cmd_blocklist :: "ext \<Rightarrow> globals \<Rightarrow> string \<Rightarrow> app_config \<Rightarrow> 'a host_scheme \<Rightarrow> int \<times> 'a host_scheme" where
  "cmd_blocklist E g dir cfg s0 =
     with_account g dir cfg
       (\<lambda>user s.
          case shyake_list_blocks E s of
            (None, s) \<Rightarrow> (EXIT_FAILURE, print_lib_error ''Listing blocks failed.'' s)
          | (Some bs, s) \<Rightarrow>
              (EXIT_SUCCESS,
               if bs = [] then print_out (''Block list is empty.'' @ [NL]) s else print_blocks E cfg bs s)) s0"

section \<open>Files and updates\<close>

definition cmd_enc ::
    "ext \<Rightarrow> globals \<Rightarrow> string \<Rightarrow> app_config \<Rightarrow> string list \<Rightarrow> 'a host_scheme \<Rightarrow> int \<times> 'a host_scheme" where
  "cmd_enc E g dir cfg args s0 =
     (case getopt_long s0 ''t:o:'' [(''to'', True, CHR ''t''), (''output'', True, CHR ''o'')] args of
        (opts, operands) \<Rightarrow>
          (let recipient = opt_value (CHR ''t'') opts
           in case operands of
                [] \<Rightarrow> fail ''Usage: shyake enc <file> [-t <username>] [-o <output>]'' s0
              | in_path # _ \<Rightarrow>
                  if recipient \<noteq> None \<and> (ac_instance cfg = None \<or> ac_username cfg = None) then
                    fail ''Missing INSTANCE or USERNAME in config file.'' s0
                  else
                    (case shyake_enc_file E (Some in_path) (opt_value (CHR ''o'') opts) recipient
                            (open_ctx (command_config g dir cfg (or_empty (ac_instance cfg)) (or_empty (ac_username cfg))) s0) of
                       (ret, used_path, s) \<Rightarrow>
                         (status (ret = SHYAKE_OK),
                          close_ctx
                            (if ret = SHYAKE_OK then print_err (''Encrypted: '' @ str_or_null used_path @ [NL]) s
                             else print_lib_error ''Encryption failed.'' s)))))"

definition cmd_dec ::
    "ext \<Rightarrow> globals \<Rightarrow> string \<Rightarrow> app_config \<Rightarrow> string list \<Rightarrow> 'a host_scheme \<Rightarrow> int \<times> 'a host_scheme" where
  "cmd_dec E g dir cfg args s0 =
     (case getopt_long s0 ''o:'' [(''output'', True, CHR ''o'')] args of
        (opts, operands) \<Rightarrow>
          (let out_path = opt_value (CHR ''o'') opts
           in case operands of
                [] \<Rightarrow> fail ''Usage: shyake dec <file> [-o <output>]'' s0
              | in_path # _ \<Rightarrow>
                  with_local g dir cfg
                    (\<lambda>s. case shyake_dec_file E (Some in_path) out_path s of
                           (ret, s) \<Rightarrow>
                             (status (ret = SHYAKE_OK),
                              if ret = SHYAKE_OK then
                                (case out_path of Some p \<Rightarrow> print_err (''Decrypted: '' @ p @ [NL]) s | None \<Rightarrow> s)
                              else print_lib_error ''Decryption failed.'' s)) s0))"

text \<open>What \<open>update\<close> without an argument advises; the preview counts only when it is newer than stable.\<close>

definition update_advice :: "bool \<Rightarrow> bool \<Rightarrow> string" where
  "update_advice want_stable want_preview =
     (if want_stable \<and> want_preview then
        ''Run '' @ quoted ''shyake update stable'' @ '' or '' @ quoted ''shyake update preview'' @ '' to update.'' @ [NL]
      else if want_stable then ''Run '' @ quoted ''shyake update stable'' @ '' to update.'' @ [NL]
      else ''Run '' @ quoted ''shyake update preview'' @ '' to install the preview release.'' @ [NL])"

definition show_versions :: "version_info \<Rightarrow> 'a host_scheme \<Rightarrow> int \<times> 'a host_scheme" where
  "show_versions info s =
     (case (if vi_pre_release info = None then Ok 0 else cli_version_cmp (vi_pre_release info) (vi_release info)) of
        Ok c \<Rightarrow>
          (let show_preview = c > 0;
               want_stable = vi_release info \<noteq> Some (client_version s);
               want_preview = show_preview \<and> vi_pre_release info \<noteq> Some (client_version s);
               s1 = print_out (''Installed: '' @ client_version s @ [NL]) s;
               s2 = print_out (''Stable:    '' @ (case vi_release info of Some v \<Rightarrow> v | None \<Rightarrow> ''N/A'') @ [NL]) s1;
               s3 = (if show_preview then print_out (''Preview:   '' @ str_or_null (vi_pre_release info) @ [NL]) s2 else s2)
           in (EXIT_SUCCESS,
               if want_stable \<or> want_preview then print_out ([NL] @ update_advice want_stable want_preview) s3 else s3))
      | _ \<Rightarrow> (EXIT_FAILURE, mark_ub s))"

definition cmd_update :: "ext \<Rightarrow> app_config \<Rightarrow> string list \<Rightarrow> 'a host_scheme \<Rightarrow> int \<times> 'a host_scheme" where
  "cmd_update E cfg args s =
     (let version_url = build_version_url (ac_instance cfg)
      in case args of
           [] \<Rightarrow>
             (case cli_get_latest_version E (Some version_url) s of
                (None, s) \<Rightarrow> (EXIT_FAILURE, print_failure ''Update failed.'' (Some ''Cannot get the latest version.'') s)
              | (Some info, s) \<Rightarrow> show_versions info s)
         | sub # _ \<Rightarrow>
             if sub = ''stable'' \<or> sub = ''preview'' then
               (case cli_self_update E (Some version_url) (Some (client_version s))
                       (if sub = ''stable'' then Stable else Preview) s of
                  (rc, s) \<Rightarrow> (status (rc = 0), s))
             else fail ''Usage: shyake update [stable|preview]'' s)"

section \<open>Dispatch\<close>

definition default_args :: "int \<Rightarrow> string list" where
  "default_args act =
     (if act = 1 then [''check'', ''inbox'']
      else if act = 2 then [''check'', ''inbox'', ''--count'']
      else [''man''])"

definition active_dir :: "globals \<Rightarrow> 'a host_scheme \<Rightarrow> string" where
  "active_dir g s = (case gl_config_dir g of Some d \<Rightarrow> d | None \<Rightarrow> get_config_dir s)"

text \<open>The commands that come before the configuration is read.\<close>

definition early_command :: "ext \<Rightarrow> globals \<Rightarrow> string \<Rightarrow> string list \<Rightarrow> 'a host_scheme \<Rightarrow> (int \<times> 'a host_scheme) option" where
  "early_command E g cmd args s =
     (if cmd = ''--version'' \<or> cmd = ''-v'' \<or> cmd = ''-V'' then
        Some (EXIT_SUCCESS, print_out (''Use '' @ quoted ''shyake version'' @ '' instead.'' @ [NL]) s)
      else if cmd = ''help'' \<or> cmd = ''--help'' \<or> cmd = ''-h'' then
        Some (EXIT_SUCCESS, print_out (''Use '' @ quoted ''shyake man'' @ '' instead.'' @ [NL]) s)
      else if cmd = ''man'' then
        Some (EXIT_SUCCESS, cli_print_man (case args of a # _ \<Rightarrow> Some a | [] \<Rightarrow> None) s)
      else if cmd = ''version'' then
        Some (EXIT_SUCCESS, print_out (''shyake '' @ client_version s @ [NL]) s)
      else if cmd = ''init'' then
        Some (case cmd_init E (gl_config_dir g) s of (rc, s) \<Rightarrow> (status (rc = 0), s))
      else None)"

definition account_command ::
    "ext \<Rightarrow> globals \<Rightarrow> string \<Rightarrow> app_config \<Rightarrow> string \<Rightarrow> string list \<Rightarrow> 'a host_scheme \<Rightarrow> (int \<times> 'a host_scheme) option" where
  "account_command E g dir cfg cmd args s =
     (if cmd = ''whoami'' then Some (cmd_whoami dir cfg s)
      else if cmd = ''register'' then Some (cmd_register E g dir cfg args s)
      else if cmd = ''burn'' then Some (cmd_burn E g dir cfg args s)
      else if cmd = ''block'' \<or> cmd = ''unblock'' then Some (cmd_block E g dir cfg (cmd = ''unblock'') args s)
      else if cmd = ''blocklist'' then Some (cmd_blocklist E g dir cfg s)
      else if cmd = ''rotate'' then Some (cmd_rotate E g dir cfg s)
      else if cmd = ''fingerprint'' then Some (cmd_fingerprint E g dir cfg args s)
      else if cmd = ''destroy'' then Some (cmd_destroy E g dir cfg s)
      else None)"

definition mail_command ::
    "ext \<Rightarrow> globals \<Rightarrow> string \<Rightarrow> app_config \<Rightarrow> string \<Rightarrow> string list \<Rightarrow> 'a host_scheme \<Rightarrow> (int \<times> 'a host_scheme) option" where
  "mail_command E g dir cfg cmd args s =
     (if cmd = ''send'' then Some (cmd_send E g dir cfg args s)
      else if cmd = ''reply'' then Some (cmd_reply E g dir cfg args s)
      else if cmd = ''compose'' then Some (cmd_compose E g dir cfg args s)
      else if cmd = ''check'' then Some (cmd_check E g dir cfg args s)
      else if cmd = ''fetch'' then Some (cmd_fetch E g dir cfg args s)
      else if cmd = ''save'' then Some (cmd_save E g dir cfg args s)
      else if cmd = ''read'' then Some (cmd_read E g dir cfg args s)
      else if cmd = ''enc'' \<or> cmd = ''encrypt'' then Some (cmd_enc E g dir cfg args s)
      else if cmd = ''dec'' \<or> cmd = ''decrypt'' then Some (cmd_dec E g dir cfg args s)
      else if cmd = ''update'' then Some (cmd_update E cfg args s)
      else None)"

definition run_command :: "ext \<Rightarrow> globals \<Rightarrow> string \<Rightarrow> string list \<Rightarrow> 'a host_scheme \<Rightarrow> int \<times> 'a host_scheme" where
  "run_command E g cmd args s =
     (case early_command E g cmd args s of
        Some r \<Rightarrow> r
      | None \<Rightarrow>
          (let dir = active_dir g s; cfg = read_config dir s
           in case account_command E g dir cfg cmd args s of
                Some r \<Rightarrow> r
              | None \<Rightarrow>
                  (case mail_command E g dir cfg cmd args s of
                     Some r \<Rightarrow> r
                   | None \<Rightarrow> fail (''Unknown command: '' @ cmd) s)))"

text \<open>\<open>main\<close>: the arguments without the name of the program; the exit status.\<close>

definition no_globals :: globals where
  "no_globals = \<lparr>gl_plain = False, gl_debug = False, gl_no_color = False, gl_config_dir = None\<rparr>"

definition shyake_main :: "ext \<Rightarrow> string list \<Rightarrow> 'a host_scheme \<Rightarrow> int \<times> 'a host_scheme" where
  "shyake_main E argv s =
     (case strip_globals no_globals argv of
        (g0, args) \<Rightarrow>
          (let g = (if getenv ''NO_COLOR'' s \<noteq> None \<and> getenv ''NO_COLOR'' s \<noteq> Some [] then g0\<lparr>gl_no_color := True\<rparr> else g0)
           in case (if args = [] then default_args (ac_default_action (read_config (active_dir g s) s)) else args) of
                cmd # rest \<Rightarrow> run_command E g cmd rest s
              | [] \<Rightarrow> (EXIT_SUCCESS, s)))"

end
