(* ===== verification/Session.thy ===== *)
theory Session
  imports Commands
begin

text \<open>
  What holds of whole commands and of sequences of them: exit statuses, the commands that only read,
  what a failed send leaves, and when an account is destroyed. The frame of a command is dealt with once,
  in the locale \<open>quiet_relation\<close>.
\<close>

section \<open>The frame of a command\<close>

text \<open>A relation between the state before and after that prompts and messages cannot break.\<close>

locale dialogue =
  fixes R :: "'a host_scheme \<Rightarrow> 'a host_scheme \<Rightarrow> bool"
  assumes R_refl: "R s s"
    and R_trans: "R s t \<Longrightarrow> R t u \<Longrightarrow> R s u"
    and R_out: "R s (print_out m s)"
    and R_err: "R s (print_err m s)"
    and R_lines: "R s (s\<lparr>tty_lines := l\<rparr>)"
    and R_tty: "R s (s\<lparr>tty_out := q\<rparr>)"
    and R_pass: "R s (s\<lparr>passphrase := p\<rparr>)"
begin

lemma R_fail: "R s (snd (fail m s))"
  by (simp add: fail_def R_err)

lemma R_failure: "R s (print_failure a r s)"
  by (simp add: print_failure_def R_err split: option.split)

lemma R_read_passphrase: "read_passphrase m n s = (rc, b, t) \<Longrightarrow> R s t"
  unfolding read_passphrase_def tty_gets_def tty_print_def
  by (auto simp: R_refl split: option.splits list.splits prod.splits
      intro: R_trans [OF R_tty] R_trans [OF R_lines] R_tty)

lemma R_prompt: "prompt_passphrase dir s = (rc, t) \<Longrightarrow> R s t"
proof -
  assume p: "prompt_passphrase dir s = (rc, t)"
  obtain rc' b u where r: "read_passphrase (snprintf 600 (''Enter passphrase for key '' @ [APOS]
      @ snprintf 512 (dir @ ''/kem_sk.bin'') @ [APOS] @ '': '')) 512 s = (rc', b, u)" by (metis prod_cases3)
  show ?thesis
    using p r R_read_passphrase [OF r] R_trans [OF R_read_passphrase [OF r] R_pass]
    by (auto simp: prompt_passphrase_def Let_def R_refl shyake_set_passphrase_def split: if_splits)
qed

end

text \<open>Nor can the context of a command.\<close>

locale quiet_relation = dialogue R for R :: "'a host_scheme \<Rightarrow> 'a host_scheme \<Rightarrow> bool" +
  assumes R_open: "R s (open_ctx c s)"
    and R_close: "R s (close_ctx s)"
begin

lemma R_in_ctx:
  assumes "\<And>s. R s (snd (body s))"
  shows "R s (snd (in_ctx g dir cfg inst user body s))"
proof -
  obtain rc t where p: "prompt_passphrase dir (open_ctx (command_config g dir cfg inst user) s) = (rc, t)" by fastforce
  have t: "R s t" using R_trans [OF R_open R_prompt [OF p]] .
  obtain st u where b: "body t = (st, u)" by fastforce
  have "R s u" using R_trans [OF t] assms [of t] b by simp
  with t show ?thesis by (auto simp: in_ctx_def p b intro: R_trans [OF _ R_close])
qed

lemma R_with_account: "(\<And>u s. R s (snd (body u s))) \<Longrightarrow> R s (snd (with_account g dir cfg body s))"
  by (auto simp: with_account_def R_fail split: option.split intro: R_in_ctx)

lemma R_with_local: "(\<And>s. R s (snd (body s))) \<Longrightarrow> R s (snd (with_local g dir cfg body s))"
  unfolding with_local_def by (rule R_in_ctx)

end

text \<open>The same for relations that the routines of the library and the display that only look cannot break.\<close>

locale reader = quiet_relation R for R :: "'a host_scheme \<Rightarrow> 'a host_scheme \<Rightarrow> bool" +
  assumes R_net: "net_step s t \<Longrightarrow> R s t"
    and R_note: "R s (s\<lparr>drafts_error := m\<rparr>)"
    and R_paging: "R s (s\<lparr>paging := b\<rparr>)"
begin

lemma R_ub: "R s (mark_ub s)"
  by (rule R_net) simp

lemma R_prints:
  "R s t \<Longrightarrow> R s (print_out m t)" "R s t \<Longrightarrow> R s (print_err m t)" "R s t \<Longrightarrow> R s (mark_ub t)"
  "R s t \<Longrightarrow> R s (print_failure a r t)" "R s t \<Longrightarrow> R s (cli_wait_pager t)" "R s t \<Longrightarrow> R s (cli_setup_pager d t)"
  "R s t \<Longrightarrow> R s (cli_print_word_wrap x i w t)" "R s t \<Longrightarrow> R s (print_lib_error a t)" "R s t \<Longrightarrow> R s (print_drafts_error a t)"
  by (auto intro: R_trans R_out R_err R_failure R_paging R_ub
      simp: cli_wait_pager_def cli_setup_pager_def cli_print_word_wrap_def print_lib_error_def print_drafts_error_def)

lemma R_fold: "R s t \<Longrightarrow> R s (foldl (\<lambda>w p. print_out (f p) w) t xs)"
  by (induction xs arbitrary: t) (auto intro: R_prints)

lemma R_branches:
  "R s x \<Longrightarrow> R s y \<Longrightarrow> R s (if c then x else y)"
  "R s x \<Longrightarrow> (\<And>a. R s (h a)) \<Longrightarrow> R s (case u of None \<Rightarrow> x | Some a \<Rightarrow> h a)"
  "R s x \<Longrightarrow> (\<And>a. R s (h' a)) \<Longrightarrow> R s y \<Longrightarrow> R s (case m of Null \<Rightarrow> x | Ok a \<Rightarrow> h' a | Ub \<Rightarrow> y)"
  by (simp_all split: option.split mem.split)

lemma R_list: "R s t \<Longrightarrow> R s (cli_render_mail_list E l opts t)"
  unfolding cli_render_mail_list_def Let_def by (intro R_branches R_prints R_fold [where f = "\<lambda>t. t"] R_fold)

lemma R_header: "R s t \<Longrightarrow> R s (cli_render_mail_header E d re nc tz f fr t)"
  unfolding cli_render_mail_header_def Let_def by (intro R_branches R_prints)

lemma R_detail: "R s t \<Longrightarrow> R s (cli_render_mail_detail E d re raw nc pl tz f fr t)"
  unfolding cli_render_mail_detail_def Let_def by (intro R_branches R_prints)

text \<open>A step whose result goes on, and the end of a command.\<close>

lemma R_constructs:
  "R s t \<Longrightarrow> R s (snd (x, t))"
  "R s (snd x') \<Longrightarrow> R s (snd y') \<Longrightarrow> R s (snd (if c then x' else y'))"
  "R s (snd x') \<Longrightarrow> (\<And>a. R s (snd (h a))) \<Longrightarrow> R s (snd (case u of None \<Rightarrow> x' | Some a \<Rightarrow> h a))"
  "R s (snd x') \<Longrightarrow> (\<And>a l. R s (snd (k a l))) \<Longrightarrow> R s (snd (case v of [] \<Rightarrow> x' | a # l \<Rightarrow> k a l))"
  "(\<And>o'. R s (snd (f o'))) \<Longrightarrow> R s (snd (let z = w in f z))"
  by (simp_all split: option.split list.split)

lemma R_step: "R s t \<Longrightarrow> R t (snd p) \<Longrightarrow> (\<And>r u. R s u \<Longrightarrow> R s (snd (f r u))) \<Longrightarrow> R s (snd (case p of (r, u) \<Rightarrow> f r u))"
  by (cases p) (auto intro: R_trans)

lemma R_next: "R s t \<Longrightarrow> R t (snd p) \<Longrightarrow> (\<And>r u. R s u \<Longrightarrow> R s (f r u)) \<Longrightarrow> R s (case p of (r, u) \<Rightarrow> f r u)"
  by (cases p) (auto intro: R_trans)

lemma R_library:
  "R s (snd (shyake_check E ty s))" "R s (snd (shyake_fetch E i s))" "R s (snd (shyake_check_one E i s))"
  "R s (snd (shyake_burn E i s))" "R s (snd (shyake_list_saved E s))" "R s (snd (shyake_find_ref E i s))"
  "R s (snd (shyake_read_saved E i s))" "R s (snd (shyake_check_saved_one E i s))" "R s (snd (shyake_list_blocks E s))"
  "R s (snd (shyake_block E i b s))"
proof -
  show "R s (snd (shyake_check E ty s))" "R s (snd (shyake_fetch E i s))" "R s (snd (shyake_check_one E i s))"
    "R s (snd (shyake_burn E i s))" "R s (snd (shyake_list_saved E s))" "R s (snd (shyake_find_ref E i s))"
    unfolding shyake_fetch_def shyake_check_one_def
    by (metis R_net prod.collapse net_step_check net_step_read_mail net_step_burn net_step_list_saved net_step_find_ref)+
  have "net_step s (snd (parse_saved_json E j b' (clear_error s)))" for j b'
    by (rule net_step_clear, rule net_step_parse_saved) (rule prod.collapse [symmetric])
  then show "R s (snd (shyake_read_saved E i s))" "R s (snd (shyake_check_saved_one E i s))"
    using R_net by (auto simp: shyake_read_saved_def shyake_check_saved_one_def R_refl split: option.split)
  show "R s (snd (shyake_list_blocks E s))"
    by (rule R_net) (auto simp: shyake_list_blocks_def net_step_after_call
        split: option.split prod.split http_reply.split json.split)
  show "R s (snd (shyake_block E i b s))"
    by (rule R_net) (auto simp: shyake_block_def Let_def
        split: option.split prod.split http_reply.split
        dest!: net_step_signed_body_call [THEN net_step_clear] intro: net_step_trans)
qed

lemma R_selfdec: "R s (snd (shyake_selfdec_new E s))"
  by (rule R_net) (auto simp: shyake_selfdec_new_def dest: net_step_load_sk split: option.split prod.split)

lemma R_notes: "R s t \<Longrightarrow> R s (drafts_set_error m t)" "R s t \<Longrightarrow> R s (drafts_clear_error t)" "R s t \<Longrightarrow> R s (unlock_error t)"
  by (auto simp: drafts_set_error_def drafts_clear_error_def unlock_error_def intro: R_trans R_note)

lemma R_errs: "R s (snd a) \<Longrightarrow> R s (snd b) \<Longrightarrow>
    R s (snd (case e of SHYAKE_OK \<Rightarrow> a | _ \<Rightarrow> b))"
  by (cases e) simp_all

lemma R_read_draft: "R s (snd (cli_read_draft E dir u i s))"
proof -
  have p: "R t (snd (parse_draft_json E cfg u j True t))" for cfg j t
  proof -
    obtain d v where d: "shyake_selfdec_new E t = (d, v)" by fastforce
    then have v: "R t v" using R_selfdec [of t E] by simp
    show ?thesis
      using R_notes [OF v] R_notes [OF R_refl [of t]] R_trans [OF v R_ub] v
      by (auto simp: parse_draft_json_def d R_refl split: option.split prod.split shyake_err.split mem.split)
  qed
  show ?thesis
    using R_notes(2) [OF R_refl [of s]] R_trans [OF R_notes(2) [OF R_refl [of s]] p]
    by (auto simp: cli_read_draft_def Let_def split: option.split)
qed

lemma R_list_drafts: "R s (snd (cli_list_drafts E dir u s))"
proof -
  define t where "t = drafts_clear_error s"
  have t: "R s t" unfolding t_def by (rule R_notes [OF R_refl])
  obtain d v where d: "shyake_selfdec_new E t = (d, v)" by fastforce
  then have v: "R s v" using R_trans [OF t] R_selfdec [of t E] by simp
  show ?thesis
    using R_notes [OF v] R_trans [OF v R_ub] v t
    by (auto simp: cli_list_drafts_def Let_def t_def [symmetric] d split: option.split mem.split)
qed

lemma R_describe: "R s (snd (describe_reply E d s))"
  using R_library(6) [of s E] unfolding describe_reply_def
  by (auto simp: R_refl split: option.split prod.split) (metis snd_conv)+

lemma R_show_header: "R s t \<Longrightarrow> R s (show_header E g cfg d t)"
  unfolding show_header_def by (rule R_next [OF _ R_describe]) (auto intro: R_header)

lemma R_show_detail: "R s t \<Longrightarrow> R s (show_detail E g cfg raw d t)"
  unfolding show_detail_def using R_describe [of t E d]
  by (auto simp: R_detail intro: R_next R_refl)

text \<open>The commands that only look.\<close>

lemmas R_command_rules =
  R_with_account R_with_local R_constructs R_fail [THEN R_trans [OF R_refl]]
  R_step [OF R_refl R_library(1)] R_step [OF R_refl R_library(2)] R_step [OF R_refl R_library(3)]
  R_step [OF R_refl R_library(4)] R_step [OF R_refl R_library(5)] R_step [OF R_refl R_library(7)]
  R_step [OF R_refl R_library(8)] R_step [OF R_refl R_library(9)] R_step [OF R_refl R_library(10)]
  R_step [OF R_refl R_read_draft] R_step [OF R_refl R_list_drafts]
  R_list R_show_header R_show_detail R_prints R_branches

lemma R_check: "R s (snd (cmd_check E g dir cfg args s))"
  unfolding cmd_check_def check_drafts_def check_saved_def check_remote_def Let_def
  by (intro R_command_rules; assumption?)

lemma R_fetch: "R s (snd (cmd_fetch E g dir cfg args s))"
  unfolding cmd_fetch_def by (cases "getopt_long s ''r'' [(''raw'', False, CHR ''r'')] args", simp only: prod.case)
    (intro R_command_rules; assumption?)

lemma R_read: "R s (snd (cmd_read E g dir cfg args s))"
  unfolding cmd_read_def read_drafts_def Let_def
  by (cases "getopt_long s ''r'' [(''raw'', False, CHR ''r'')] args", simp only: prod.case)
    (intro R_command_rules; assumption?)

lemma R_one_call:
  assumes "\<And>a s. R s (snd (call (Some a) s))"
  shows "R s (snd (one_call g dir cfg args m call d f s))"
  unfolding one_call_def by (intro R_command_rules R_step [OF R_refl assms]; assumption?)

lemma R_blocks: "R s t \<Longrightarrow> R s (print_blocks E cfg bs t)"
  by (induction bs arbitrary: t) (auto intro: R_prints split: mem.split)

lemma R_blocklist: "R s (snd (cmd_blocklist E g dir cfg s))"
  unfolding cmd_blocklist_def by (intro R_command_rules R_blocks; assumption?)

lemma R_whoami: "R s (snd (cmd_whoami dir cfg s))"
  unfolding cmd_whoami_def by (simp add: R_prints R_refl)

lemma R_man: "R s (cli_print_man a s)"
  unfolding cli_print_man_def by (intro R_branches R_prints R_refl)

end

interpretation same_files: reader "\<lambda>s t. files t = files s"
  by unfold_locales (auto simp: print_out_def print_err_def net_step_keeps)

interpretation same_log: quiet_relation "\<lambda>s t. shell_log t = shell_log s \<and> requests t = requests s"
  by unfold_locales (simp_all add: print_out_def print_err_def)

interpretation same_account: dialogue "\<lambda>s t. instance_url t = instance_url s \<and> username t = username s"
  by unfold_locales (simp_all add: print_out_def print_err_def)

section \<open>Exit statuses\<close>

definition exit_ok :: "int \<Rightarrow> bool" where
  "exit_ok st \<longleftrightarrow> st = EXIT_SUCCESS \<or> st = EXIT_FAILURE"

lemma exit_ok_simps [simp]: "exit_ok EXIT_SUCCESS" "exit_ok EXIT_FAILURE" "exit_ok (status b)" "exit_ok (fst (fail m s))"
  by (simp_all add: exit_ok_def status_def fail_def)

text \<open>One rule per construct, so that a command is taken apart without looking at its texts.\<close>

lemma exit_constructs:
  "exit_ok st \<Longrightarrow> exit_ok (fst (st, s))"
  "exit_ok (fst x) \<Longrightarrow> exit_ok (fst y) \<Longrightarrow> exit_ok (fst (if c then x else y))"
  "(\<And>a d. exit_ok (fst (f a d))) \<Longrightarrow> exit_ok (fst (case p of (a, d) \<Rightarrow> f a d))"
  "exit_ok (fst x) \<Longrightarrow> (\<And>a. exit_ok (fst (h a))) \<Longrightarrow> exit_ok (fst (case u of None \<Rightarrow> x | Some a \<Rightarrow> h a))"
  "exit_ok (fst x) \<Longrightarrow> (\<And>a l. exit_ok (fst (k a l))) \<Longrightarrow> exit_ok (fst (case v of [] \<Rightarrow> x | a # l \<Rightarrow> k a l))"
  "exit_ok (fst x) \<Longrightarrow> (\<And>a. exit_ok (fst (h' a))) \<Longrightarrow> exit_ok (fst y) \<Longrightarrow>
     exit_ok (fst (case m of Null \<Rightarrow> x | Ok a \<Rightarrow> h' a | Ub \<Rightarrow> y))"
  "exit_ok (fst x) \<Longrightarrow> exit_ok (fst y) \<Longrightarrow> exit_ok (fst (case w of True \<Rightarrow> x | False \<Rightarrow> y))"
  by (auto split: prod.split option.split list.split mem.split bool.split)

lemma exit_in_ctx: "(\<And>s. exit_ok (fst (body s))) \<Longrightarrow> exit_ok (fst (in_ctx g dir cfg inst user body s))"
  by (auto simp: in_ctx_def split: prod.split) (metis fst_conv)

lemma exit_with_account: "(\<And>u s. exit_ok (fst (body u s))) \<Longrightarrow> exit_ok (fst (with_account g dir cfg body s))"
  by (auto simp: with_account_def split: option.split intro: exit_in_ctx)

lemma exit_with_local: "(\<And>s. exit_ok (fst (body s))) \<Longrightarrow> exit_ok (fst (with_local g dir cfg body s))"
  unfolding with_local_def by (rule exit_in_ctx)

lemmas exit_rules = exit_with_account exit_with_local exit_in_ctx exit_ok_simps exit_constructs

text \<open>The same for the tables of commands, which may not know a name.\<close>

definition exit_opt :: "(int \<times> 'a host_scheme) option \<Rightarrow> bool" where
  "exit_opt x \<longleftrightarrow> (\<forall>r. x = Some r \<longrightarrow> exit_ok (fst r))"

lemma exit_opt_rules:
  "exit_opt None" "exit_ok (fst r) \<Longrightarrow> exit_opt (Some r)"
  "exit_opt x \<Longrightarrow> exit_opt y \<Longrightarrow> exit_opt (if c then x else y)"
  by (simp_all add: exit_opt_def)

lemma exit_opt_case: "exit_opt x \<Longrightarrow> exit_ok (fst y) \<Longrightarrow> exit_ok (fst (case x of None \<Rightarrow> y | Some r \<Rightarrow> r))"
  by (auto simp: exit_opt_def split: option.split)

lemma exit_offer: "exit_ok (fst (offer_reply_send E dir u i r s))"
  unfolding offer_reply_send_def Let_def by (intro exit_rules)

lemma exit_save_edited: "exit_ok (fst (save_edited_draft E dir buf a b i s))"
  unfolding save_edited_draft_def Let_def by (intro exit_rules)

lemma exit_edit_and_save: "exit_ok (fst (edit_and_save E dir cfg st i s))"
proof -
  have h: "exit_ok (fst (case save_edited_draft E dir buf a b i t of (st, _, s) \<Rightarrow> (st, s)))" for buf a b and t :: "'a host_scheme"
    using exit_save_edited [of E dir buf a b i t] by (auto split: prod.split)
  show ?thesis unfolding edit_and_save_def by (intro h exit_rules)
qed

lemma exit_send_draft_as: "exit_ok (fst (send_draft_as E dir i m b r t s))"
  unfolding send_draft_as_def Let_def by (intro exit_rules)

lemma exit_send: "exit_ok (fst (cmd_send E g dir cfg args s))"
  unfolding cmd_send_def send_draft_def send_text_def Let_def by (intro exit_rules exit_send_draft_as)

lemma exit_reply_parts:
  "exit_ok (fst (reply_with_draft E dir u mid r ref sb i s))" "exit_ok (fst (reply_direct E dir mid r ref sb b s))"
  "exit_ok (fst (reply_in_editor E dir cfg u m r sb s))"
proof -
  show "exit_ok (fst (reply_with_draft E dir u mid r ref sb i s))" "exit_ok (fst (reply_direct E dir mid r ref sb b s))"
    unfolding reply_with_draft_def reply_direct_def Let_def by (intro exit_rules exit_offer)+
  have h: "exit_ok (fst (case save_edited_draft E dir buf a b d t of
          (st, n, s) \<Rightarrow> (case n of Some i \<Rightarrow> offer_reply_send E dir (Some u) i r s | None \<Rightarrow> (st, s))))" for buf a b d and t :: "'a host_scheme"
    using exit_save_edited [of E dir buf a b d t] exit_offer by (auto split: prod.split option.split)
  show "exit_ok (fst (reply_in_editor E dir cfg u m r sb s))"
    unfolding reply_in_editor_def Let_def by (intro h exit_rules)
qed

lemma exit_reply: "exit_ok (fst (cmd_reply E g dir cfg args s))"
  unfolding cmd_reply_def reply_to_mail_def Let_def by (intro exit_rules exit_reply_parts)

lemma exit_compose: "exit_ok (fst (cmd_compose E g dir cfg args s))"
proof -
  have h: "exit_ok (fst (case edit_and_save E dir cfg st None t of (st, s) \<Rightarrow> (st, close_ctx s)))" for st and t :: "'a host_scheme"
    using exit_edit_and_save [of E dir cfg st None t] by (auto split: prod.split)
  show ?thesis
    unfolding cmd_compose_def Let_def by (intro h exit_edit_and_save exit_rules)
qed

lemma exit_check: "exit_ok (fst (cmd_check E g dir cfg args s))"
  unfolding cmd_check_def check_drafts_def check_saved_def check_remote_def Let_def by (intro exit_rules)

lemma exit_fetch: "exit_ok (fst (cmd_fetch E g dir cfg args s))"
  unfolding cmd_fetch_def by (intro exit_rules)

lemma exit_read: "exit_ok (fst (cmd_read E g dir cfg args s))"
  unfolding cmd_read_def read_drafts_def Let_def by (intro exit_rules)

lemma exit_one_call: "exit_ok (fst (one_call g dir cfg args m call d f s))"
  unfolding one_call_def by (intro exit_rules)

lemma exit_account_parts:
  "exit_ok (fst (cmd_whoami dir cfg s))" "exit_ok (fst (cmd_register E g dir cfg args s))"
  "exit_ok (fst (cmd_rotate E g dir cfg s))" "exit_ok (fst (cmd_fingerprint E g dir cfg args s))"
  "exit_ok (fst (cmd_destroy E g dir cfg s))" "exit_ok (fst (cmd_blocklist E g dir cfg s))"
  "exit_ok (fst (cmd_burn E g dir cfg args s))" "exit_ok (fst (cmd_block E g dir cfg b args s))"
  "exit_ok (fst (cmd_save E g dir cfg args s))"
  unfolding cmd_whoami_def cmd_register_def cmd_rotate_def cmd_fingerprint_def cmd_destroy_def cmd_blocklist_def
    cmd_burn_def cmd_block_def cmd_save_def Let_def
  by (intro exit_rules exit_one_call)+

lemma exit_file_parts:
  "exit_ok (fst (cmd_enc E g dir cfg args s))" "exit_ok (fst (cmd_dec E g dir cfg args s))" "exit_ok (fst (cmd_update E cfg args s))"
  unfolding cmd_enc_def cmd_dec_def cmd_update_def show_versions_def Let_def by (intro exit_rules)+

lemma exit_early: "exit_opt (early_command E g cmd args s)"
  unfolding early_command_def by (intro exit_opt_rules exit_rules)

lemma exit_run: "exit_ok (fst (run_command E g cmd args s))"
  unfolding run_command_def account_command_def mail_command_def Let_def
  by (intro exit_opt_case exit_early exit_opt_rules exit_rules exit_account_parts exit_file_parts exit_send exit_reply
      exit_compose exit_check exit_fetch exit_read)

section \<open>Properties\<close>


subsection \<open>Looking\<close>

definition looking_names :: "string list" where
  "looking_names =
     [''--version'', ''-v'', ''-V'', ''help'', ''--help'', ''-h'', ''man'', ''version'', ''whoami'', ''check'', ''fetch'',
      ''read'', ''burn'', ''block'', ''unblock'', ''blocklist'']"

definition looking_call :: "string list \<Rightarrow> bool" where
  "looking_call argv \<longleftrightarrow>
     (case snd (strip_globals no_globals argv) of cmd # _ \<Rightarrow> cmd \<in> set looking_names | [] \<Rightarrow> True)"

text \<open>A session of the client: calls, one after the other, of commands that look.\<close>

inductive looking_session :: "ext \<Rightarrow> 'a host_scheme \<Rightarrow> 'a host_scheme \<Rightarrow> bool" for E where
  start: "looking_session E s s"
| call: "looking_session E s t \<Longrightarrow> looking_call argv \<Longrightarrow> looking_session E s (snd (shyake_main E argv t))"

inductive_cases looking_sessionE: "looking_session E s t"

lemma looking_command_keeps:
  assumes "cmd \<in> set looking_names"
  shows "files (snd (run_command E g cmd args s)) = files s"
proof -
  note keeps = same_files.R_man same_files.R_prints(1) [OF refl] same_files.R_check same_files.R_fetch same_files.R_read
    same_files.R_blocklist same_files.R_whoami
    same_files.R_one_call [where call = "shyake_burn E", OF same_files.R_library(4)]
    same_files.R_one_call [where call = "\<lambda>t. shyake_block E t b" for b, OF same_files.R_library(10)]
  show ?thesis
    using assms unfolding looking_names_def set_simps insert_iff empty_iff
    by (elim disjE FalseE)
      (simp_all add: run_command_def early_command_def account_command_def mail_command_def Let_def keeps cmd_burn_def cmd_block_def)
qed

lemma looking_call_keeps:
  assumes "looking_call argv"
  shows "files (snd (shyake_main E argv s)) = files s"
proof -
  obtain g args where sg: "strip_globals no_globals argv = (g, args)" by fastforce
  have "c \<in> set looking_names" if "default_args n = c # r" for n c r
    using that by (simp add: default_args_def looking_names_def split: if_splits)
  then show ?thesis
    using assms by (auto simp: shyake_main_def looking_call_def sg Let_def looking_command_keeps split: list.split)
qed

text \<open>C7. Looking never changes anything on disk: in any session made of calls that list, read, burn,
  block or print (with any flags, any configuration directory, any answers of the servers and any input),
  the files are at every point exactly what they were at the start: neither keys nor pinned keys,
  drafts, saved mail nor the configuration can be lost or altered by it.
\<close>

theorem looking_keeps_files: "looking_session E s t \<Longrightarrow> files t = files s"
  by (induction rule: looking_session.induct) (simp_all add: looking_call_keeps)

theorem looking_keeps_files_witness:
  "files (snd (shyake_main toy [''--plain'', ''burn'', ''1''] (snd (shyake_main toy [''whoami''] update_world)))) = []"
proof -
  have "looking_call [''whoami'']" "looking_call [''--plain'', ''burn'', ''1'']"
    by (simp_all add: looking_call_def global_flag_def config_flag_def looking_names_def)
  then have "looking_session toy update_world
      (snd (shyake_main toy [''--plain'', ''burn'', ''1''] (snd (shyake_main toy [''whoami''] update_world))))"
    by (intro looking_session.call looking_session.start)
  from looking_keeps_files [OF this] show ?thesis by simp
qed

subsection \<open>Destroying an account\<close>

lemma net_step_log:
  fixes s t :: "'a host_scheme"
  shows "net_step s t \<Longrightarrow> shell_log t = shell_log s"
  by (auto simp: net_step_def)

lemma destroy_step:
  assumes "shyake_destroy E s = (ret, t)"
  shows "net_step s t"
    and "ret = SHYAKE_OK \<Longrightarrow> \<exists>hs q. requests t = q @ [\<lparr>rq_method = ''DELETE'',
        rq_url = snprintf 512 (str_or_null (instance_url s) @ ''/api/destroy''), rq_headers = hs, rq_body = None\<rparr>]"
proof -
  show "net_step s t"
    using assms by (auto simp: shyake_destroy_def net_step_after_call split: option.splits prod.splits http_reply.splits if_splits)
  assume "ret = SHYAKE_OK"
  with assms obtain c b where "signed_call E ''DELETE'' ''/api/destroy'' (clear_error s) = (Some (Http c b), t)"
    by (auto simp: shyake_destroy_def split: option.splits prod.splits http_reply.splits if_splits)
  then show "\<exists>hs q. requests t = q @ [\<lparr>rq_method = ''DELETE'',
        rq_url = snprintf 512 (str_or_null (instance_url s) @ ''/api/destroy''), rq_headers = hs, rq_body = None\<rparr>]"
    by (auto simp: signed_call_def Let_def http_call_def split: prod.splits bool.splits option.splits list.splits http_reply.splits)
qed

definition destroy_confirmed :: "app_config \<Rightarrow> 'a host_scheme \<Rightarrow> bool" where
  "destroy_confirmed cfg s \<longleftrightarrow>
     (\<exists>line rest. fgets_all 256 (text_of (stdin_data s)) = line # rest \<and> ac_username cfg = Some (trim_whitespace line))"

lemma destroy_body:
  fixes s u :: "'a host_scheme"
  assumes b: "with_account g dir cfg
       (\<lambda>user s. case shyake_destroy E s of
          (ret, s) \<Rightarrow> (status (ret = SHYAKE_OK),
             if ret = SHYAKE_OK then print_out m (snd (run_shell rm s)) else print_lib_error f s)) s = (st, u)"
  shows "(shell_log u = shell_log s \<and> files u = files s)
      \<or> (st = 0 \<and> shell_log u = shell_log s @ [rm]
         \<and> (\<exists>inst hs q. ac_instance cfg = Some inst \<and> requests u = q @ [\<lparr>rq_method = ''DELETE'',
              rq_url = snprintf 512 (inst @ ''/api/destroy''), rq_headers = hs, rq_body = None\<rparr>]))"
proof (cases "\<exists>inst user. ac_instance cfg = Some inst \<and> ac_username cfg = Some user")
  case False
  with b show ?thesis by (auto simp: with_account_def fail_def print_err_def split: option.splits)
next
  case True
  then obtain inst user where cfg: "ac_instance cfg = Some inst" "ac_username cfg = Some user" by blast
  obtain rc t where p: "prompt_passphrase dir (open_ctx (command_config g dir cfg inst user) s) = (rc, t)" by fastforce
  have t: "shell_log t = shell_log s" "files t = files s" "instance_url t = Some inst"
    using same_log.R_prompt [OF p] same_files.R_prompt [OF p] same_account.R_prompt [OF p]
    by (simp_all add: open_ctx_def command_config_def)
  obtain ret v where d: "shyake_destroy E t = (ret, v)" by fastforce
  note v = destroy_step [OF d] net_step_log [OF destroy_step(1) [OF d]] net_step_keeps(1) [OF destroy_step(1) [OF d]]
  show ?thesis
  proof (cases "rc \<noteq> 0 \<or> ret \<noteq> SHYAKE_OK")
    case True
    with b t v show ?thesis
      by (auto simp: with_account_def cfg in_ctx_def p d print_lib_error_def print_failure_def print_err_def split: if_splits)
  next
    case False
    with b t v(2) v(3,4) cfg show ?thesis
      by (auto simp: with_account_def cfg in_ctx_def p d run_shell_def status_def exit_defs print_out_def close_ctx_def split: prod.splits)
  qed
qed


subsection \<open>A failed send\<close>

lemma try_ids_disk: "try_ids cfg w n i = Ok j \<Longrightarrow> disk w (draft_path cfg j) \<noteq> None"
  by (induction cfg w n i rule: try_ids.induct) (auto split: if_splits)

lemma saved_draft_exists:
  assumes "cli_save_draft E (Some dir) r sb ref (Some b) None s = (SHYAKE_OK, n, s')"
  shows "\<exists>i. n = Some (snprintf 32 i) \<and> fs_get s' (draft_path dir i) \<noteq> None"
proof -
  obtain c l k d t where w: "write_draft E dir None c l k d t = (SHYAKE_OK, n, s')"
    using assms unfolding cli_save_draft_def Let_def
    by (auto split: if_splits prod.splits option.splits)
  then obtain i where i: "open_draft_file dir None t = Ok i" "n = Some (snprintf 32 i)"
    and s': "s' = snd (write_file (draft_path dir i) (bytes_of (cjson_print E (draft_object (snprintf 32 i) c (clock t) l k d))) t)"
    by (auto simp: write_draft_def Let_def split: mem.splits)
  from i(1) have "disk t (draft_path dir i) \<noteq> None" by (auto simp: open_draft_file_def dest: try_ids_disk)
  with i(2) show ?thesis by (auto simp: s' write_file_def store_simps)
qed

definition saved_note :: "string \<Rightarrow> bool \<Rightarrow> string" where
  "saved_note i retry =
     (if retry then ''Saved as draft '' @ i @ ''. Retry with: shyake send -d '' @ i @ [NL]
      else ''Saved as draft '' @ i @ ''.'' @ [NL])"

text \<open>
  Either the draft of this recipient, subject and text was stored and nothing has touched the files
  since, it is on disk under the id the user was told last, or the user was told that it could not be saved.
\<close>

definition rescued :: "ext \<Rightarrow> string \<Rightarrow> string \<Rightarrow> string \<Rightarrow> u8 list \<Rightarrow> bool \<Rightarrow> 'a host_scheme \<Rightarrow> bool" where
  "rescued E dir recipient subject body retry s \<longleftrightarrow>
     (\<exists>u t i. cli_save_draft E (Some dir) (Some recipient) (Some subject) None (Some body) None (u :: 'a host_scheme)
          = (SHYAKE_OK, Some (snprintf 32 i), t)
        \<and> files s = files t \<and> fs_get s (draft_path dir i) \<noteq> None
        \<and> last (term_out s) = saved_note (snprintf 32 i) retry)
     \<or> (\<exists>why. last (term_err s) = ''Draft save failed.'' @ why)"

lemma rescue_draft_rescued:
  "rescued E dir r sb b retry (rescue_draft E dir (Some r) (Some sb) None b retry (s :: 'a host_scheme))"
proof -
  obtain rc n t where c: "cli_save_draft E (Some dir) (Some r) (Some sb) None (Some b) None s = (rc, n, t)"
    by (metis prod_cases3)
  show ?thesis
  proof (cases "rc = SHYAKE_OK")
    case True
    with saved_draft_exists [of E dir "Some r" "Some sb" None b s n t] c obtain i where
      i: "n = Some (snprintf 32 i)" "fs_get t (draft_path dir i) \<noteq> None" by auto
    have "rescue_draft E dir (Some r) (Some sb) None b retry s = print_out (saved_note (snprintf 32 i) retry) t"
      using True i(1) by (simp add: rescue_draft_def c saved_note_def)
    then show ?thesis
      unfolding rescued_def using i True c
      by (intro disjI1 exI [of _ s] exI [of _ t] exI [of _ i]) (simp add: print_out_def fs_get_def)
  next
    case False
    have "\<exists>why. last (term_err (print_failure a (Some x) u)) = a @ why" for a x and u :: "'a host_scheme"
      by (auto simp: print_failure_def print_err_def)
    then have "\<exists>why. last (term_err (print_drafts_error ''Draft save failed.'' t)) = ''Draft save failed.'' @ why"
      unfolding print_drafts_error_def .
    moreover have "rescue_draft E dir (Some r) (Some sb) None b retry s = print_drafts_error ''Draft save failed.'' t"
      using False by (simp add: rescue_draft_def c)
    ultimately show ?thesis unfolding rescued_def by (simp only: simp_thms)
  qed
qed

lemma close_ctx_rescued: "rescued E dir r sb b retry (close_ctx s) = rescued E dir r sb b retry s"
  by (simp add: rescued_def close_ctx_def fs_get_def)



end
