(* ===== verification/Spec2Isabelle.thy ===== *)
theory Spec2Isabelle
  imports Session
begin

text \<open>
  shyake is an end-to-end encrypted mail client: a C library (\<open>src/client/src/lib\<close>, public interface
  \<open>src/client/include/shyake.h\<close>), the command line program on top of it (\<open>src/client/src/cli\<close>), and
  servers in other languages that store what the client uploads. This development models all of the C
  client that is its own code, and proves what makes it correct.

  \<^bold>\<open>The parts and how they interact.\<close> A command of \<open>main.c\<close> takes the global flags out of its arguments,
  reads the configuration file, opens a \<open>struct shyake_ctx\<close>, asks for the passphrase of the secret keys
  (\<open>prompt.c\<close>) and calls the library or the local drafts (\<open>drafts.c\<close>); what comes back is rendered
  (\<open>display.c\<close>) and the failure texts that the library keeps in the context are printed. Writing mail goes
  through an editor that is run on a temporary file. The library signs every request with the key it
  loads from disk (\<open>passphrase.c\<close>, \<open>network.c\<close>), seals texts under a fresh symmetric key which is wrapped
  to the recipient and to the sender (\<open>crypto_ops.c\<close>, \<open>mail.c\<close>), and pins the keys of others on first use
  (\<open>known_hosts.c\<close>).

  \<^bold>\<open>How the state is modelled.\<close> One record carries everything a routine can read or change and is
  passed explicitly. \<open>World.world\<close> is the machine (files, directories, what each path can still take,
  \<open>/dev/urandom\<close>, the clock, the queue of replies the network will give, the requests made, the terminal);
  \<open>World.sys\<close> adds \<open>struct shyake_ctx\<close>; \<open>Drafts.cli\<close> adds the static error text of \<open>drafts.c\<close>; \<open>Host.host\<close>
  adds what only the program uses (environment, \<open>/dev/tty\<close>, standard input, window size, the shell, the
  platform). The flag \<open>ub\<close> of \<open>world\<close> is set where the code dereferences NULL or leaves a buffer, and the
  type \<open>mem\<close> (\<open>Ok\<close>, \<open>Null\<close>, \<open>Ub\<close>) distinguishes a NULL that is returned from one that is used. Machine
  integers are words where wrap-around matters; C strings are character lists without NUL, buffers with
  their sizes are written with \<open>snprintf n\<close>.

  \<^bold>\<open>Theories\<close>, each with the file it models; definitions have the names of the C functions, and parts of
  long functions have names of their own, in the order the code has them.

  \<^item> \<open>Prelude\<close>: C types and \<open>stdio\<close> routines, shared lemmas. \<open>Json\<close>: the cJSON tree and the accessors used.
    \<open>Ext\<close>: the record \<open>ext\<close> of what lies outside the repository and the laws assumed of it. \<open>Provider\<close>: one
    concrete \<open>ext\<close> for the witnesses.
  \<^item> \<open>World\<close>: context, errors, file I/O (\<open>libshyake.c\<close>). \<open>Codec\<close>: base64 (\<open>libshyake.c\<close>) and byte formats,
    with the locale \<open>framed\<close> of a self-delimiting format, interpreted for the integers here and for the
    \<open>.enc\<close> header in \<open>EncDec\<close>. \<open>Pow\<close>: \<open>shyake_mint_pow\<close>.
  \<^item> \<open>Passphrase\<close> (\<open>passphrase.c\<close>), \<open>CryptoOps\<close> (\<open>crypto_ops.c\<close>, \<open>shyake_crypto.c\<close>), \<open>Network\<close> (\<open>network.c\<close>).
  \<^item> \<open>KnownHosts\<close> (\<open>known_hosts.c\<close>): the locales \<open>key_store\<close> and \<open>pinning_store\<close> state what the sender relies
    on; the file is their interpretation \<open>known_hosts\<close>.
  \<^item> \<open>EncDec\<close> (\<open>enc_dec.c\<close>), \<open>Send\<close> and \<open>Mailbox\<close> (\<open>mail.c\<close>: sending; listing, fetching, saving, references),
    \<open>Account\<close> (\<open>account.c\<close> and the registration and key generation of \<open>libshyake.c\<close>).
  \<^item> \<open>Drafts\<close> (\<open>drafts.c\<close>), \<open>Host\<close> (the machine of the program and the locale \<open>comparison\<close> of a \<open>qsort\<close>
    function, interpreted for the drafts there and for the versions in \<open>Update\<close>).
  \<^item> \<open>Update\<close> (\<open>update.c\<close>), \<open>Display\<close> (\<open>display.c\<close>), \<open>Man\<close> (\<open>man.c\<close>).
  \<^item> \<open>Config\<close> (\<open>main.c\<close>: \<open>read_config\<close>, \<open>update_config_user_and_instance\<close>, columns, editor), \<open>Prompt\<close>
    (\<open>prompt.c\<close>, \<open>init.c\<close>), \<open>Compose\<close> (\<open>main.c\<close>: templates, the scissors line, the editor, temporary files,
    edited drafts, reports), \<open>Commands\<close> (\<open>main.c\<close>: every command, and the dispatch \<open>shyake_main\<close>).
  \<^item> \<open>Session\<close>: properties of whole commands. The locales \<open>dialogue\<close>, \<open>quiet_relation\<close> and \<open>reader\<close> say what a
    relation between the state before and after a command must allow; the frame of every command follows
    once in the locale, and is used for three relations: no file changed, nothing sent or run, same account.

  \<^bold>\<open>What is proved.\<close>

  \<^item> Round trips: mail from the sender's text to the recipient's; encrypted files; encrypted key files;
    drafts; sealed texts; the template and the scissors line of the editor; the fingerprint and the
    subject column of CSV as printed.
  \<^item> Confidentiality and authenticity as far as the program decides them: nothing is given out that did not
    authenticate; a changed pinned key stops a mail; a signed text determines its request; nothing is
    installed whose digest is not the published one; no plain text of a mail being written stays on disk.
  \<^item> Data safety: rotation and key generation never lose keys before the server has the new ones; a save
    touches one file; commands that look change nothing, in any session; an account is destroyed only on
    confirmation; a failed send keeps the text as a draft.
  \<^item> Refinement and equivalence: \<open>known_hosts\<close> implements an abstract map; a saved mail reads like the one on
    the server; the draft and version comparisons are the orders of their keys.
  \<^item> Errors and bounds: what every failure reports, exit statuses, buffer sizes, and the places where the
    code does not do what it means to (a body that is not sealed, keys that are not saved, a short write that
    is not noticed, a missing member, numbers at the edge of their type).

  \<^bold>\<open>Bounds and termination.\<close> Every definition is total. Loops that move along a text or a file recurse on what
  is left, with its length as measure (\<open>wrap_lines\<close>, \<open>scan_line\<close>, \<open>parse_header\<close>, \<open>columns_of\<close>); the search for a
  free draft id has the 100 tries of the code; the proof of work counts up to \<open>2^32 - 1\<close>, as the code does. No
  fuel is used.

  \<^bold>\<open>Parameters.\<close> \<open>ext\<close>: OpenSSL, liboqs, cJSON's parser and printer, \<open>strftime\<close> and the local time zone. \<open>host\<close>:
  \<open>getopt_long\<close> (options in order and operands of an argument list), \<open>system\<close> (a function from command and
  files to files and status; the commands run are logged), \<open>mkstemp\<close>'s choice of a name, the version and
  platform the program was built for. The laws used are documented behaviour of these functions and are
  hypotheses of the properties that need them; the witnesses show that they can hold together.

  \<^bold>\<open>Not modelled.\<close> Allocation and its failures, and the functions that only release memory; the echo flag of
  the terminal; the process of the pager; libcurl's transfer below a request and its reply, so time-outs and
  verbose output; concurrent runs of the program, and changes that other programs make to files during one.
  The vendored cJSON is third-party code. The Go and Cloudflare servers, the web client and the tests are
  other programs; the client's model sees the servers through arbitrary replies.
\<close>

end
